(* ===== verification/Py_Prelude.thy ===== *)
theory Py_Prelude
  imports Main "HOL-Library.Word" "HOL-Library.List_Lexorder"
begin

text \<open>
  The part of Python every component of the SDK uses.

  \<^item> Results: a Python call either returns or raises, so it is a value of \<open>'e + 'a\<close>,
    \<open>Inl\<close> the exception. \<open>bindR\<close> is sequencing, \<open>guardR b e\<close> is
    \<open>if b: raise e\<close>, \<open>eachR\<close> is a \<open>for\<close> loop whose body only checks.
  \<^item> Strings: a \<open>str\<close> is its list of code points (\<open>pystr\<close>), ordered as Python orders
    strings; \<open>utf8_encode\<close> is \<open>str.encode("utf-8")\<close>, \<open>None\<close> where Python raises
    \<open>UnicodeEncodeError\<close>. A \<open>bytes\<close> value is a list of 8-bit words.
\<close>

section \<open>Results\<close>

named_theorems res_iff "when a sequenced check returns"

definition bindR :: "'e + 'a \<Rightarrow> ('a \<Rightarrow> 'e + 'b) \<Rightarrow> 'e + 'b" where
  "bindR m f = (case m of Inl e \<Rightarrow> Inl e | Inr x \<Rightarrow> f x)"

definition thenR :: "'e + unit \<Rightarrow> 'e + 'b \<Rightarrow> 'e + 'b" where
  "thenR m k = bindR m (\<lambda>_. k)"

definition guardR :: "bool \<Rightarrow> 'e \<Rightarrow> 'e + unit" where
  "guardR b e = (if b then Inl e else Inr ())"

fun eachR :: "('a \<Rightarrow> 'e + unit) \<Rightarrow> 'a list \<Rightarrow> 'e + unit" where
  "eachR f [] = Inr ()"
| "eachR f (x # xs) = thenR (f x) (eachR f xs)"

text \<open>\<open>except E as e: raise h(e)\<close>: only exceptions the clause names are replaced.\<close>

definition catchR :: "('e \<Rightarrow> bool) \<Rightarrow> 'e + 'a \<Rightarrow> ('e \<Rightarrow> 'e) \<Rightarrow> 'e + 'a" where
  "catchR p m h = (case m of Inl e \<Rightarrow> Inl (if p e then h e else e) | Inr x \<Rightarrow> Inr x)"

lemma bindR_simps [simp]: "bindR (Inl e) f = Inl e" "bindR (Inr x) f = f x"
  by (simp_all add: bindR_def)

lemma thenR_simps [simp]: "thenR (Inl e) k = Inl e" "thenR (Inr u) k = k"
  by (simp_all add: thenR_def)

lemma catchR_simps [simp]:
  "catchR p (Inr x) h = Inr x" "catchR p (Inl e) h = Inl (if p e then h e else e)"
  by (simp_all add: catchR_def)

lemma guardR_simps [simp]: "guardR True e = Inl e" "guardR False e = Inr ()"
  by (simp_all add: guardR_def)

lemma bindR_cong [fundef_cong]:
  "m = m' \<Longrightarrow> (\<And>x. m' = Inr x \<Longrightarrow> f x = g x) \<Longrightarrow> bindR m f = bindR m' g"
  by (cases m') simp_all

lemma bindR_Inr [res_iff]: "bindR m f = Inr y \<longleftrightarrow> (\<exists>x. m = Inr x \<and> f x = Inr y)"
  by (cases m) simp_all

lemma bindR_Inl: "bindR m f = Inl e \<longleftrightarrow> m = Inl e \<or> (\<exists>x. m = Inr x \<and> f x = Inl e)"
  by (cases m) simp_all

lemma thenR_Inr [res_iff]: "thenR m k = Inr y \<longleftrightarrow> m = Inr () \<and> k = Inr y"
  by (cases m) simp_all

lemma thenR_Inl: "thenR m k = Inl e \<longleftrightarrow> m = Inl e \<or> (m = Inr () \<and> k = Inl e)"
  by (cases m) simp_all

lemma guardR_Inr [res_iff]: "guardR b e = Inr u \<longleftrightarrow> \<not> b"
  by (simp add: guardR_def)

lemma guardR_Inl: "guardR b e = Inl e' \<longleftrightarrow> b \<and> e' = e"
  by (auto simp: guardR_def)

lemma catchR_Inr [res_iff]: "catchR p m h = Inr x \<longleftrightarrow> m = Inr x"
  by (cases m) simp_all

lemma catchR_Inl: "catchR p m h = Inl e \<longleftrightarrow> (\<exists>e'. m = Inl e' \<and> e = (if p e' then h e' else e'))"
  by (cases m) auto

lemma eachR_Inr [res_iff]: "eachR f xs = Inr u \<longleftrightarrow> (\<forall>x \<in> set xs. f x = Inr ())"
  by (induction xs) (auto simp: thenR_Inr)

text \<open>
  \<open>raises_only P m\<close>: an exception of \<open>m\<close> satisfies \<open>P\<close>. The introduction rules
  \<open>raises\<close> follow the structure of a computation.
\<close>

definition raises_only :: "('e \<Rightarrow> bool) \<Rightarrow> 'e + 'a \<Rightarrow> bool" where
  "raises_only P m \<longleftrightarrow> (case m of Inl e \<Rightarrow> P e | Inr _ \<Rightarrow> True)"

named_theorems raises "which exceptions a computation raises"

lemma raises_only_simps [simp]: "raises_only P (Inl e) = P e" "raises_only P (Inr x)"
  by (simp_all add: raises_only_def)

lemma raises_onlyD: "raises_only P m \<Longrightarrow> m = Inl e \<Longrightarrow> P e"
  by simp

lemma raises_bindR [raises]:
  "raises_only P m \<Longrightarrow> (\<And>x. m = Inr x \<Longrightarrow> raises_only P (f x)) \<Longrightarrow> raises_only P (bindR m f)"
  by (cases m) simp_all

lemma raises_thenR [raises]:
  "raises_only P m \<Longrightarrow> (m = Inr () \<Longrightarrow> raises_only P k) \<Longrightarrow> raises_only P (thenR m k)"
  by (cases m) simp_all

lemma raises_guardR [raises]: "P e \<Longrightarrow> raises_only P (guardR b e)"
  by (simp add: guardR_def)

lemma raises_catchR [raises]:
  "raises_only (\<lambda>e. P (if p e then h e else e)) m \<Longrightarrow> raises_only P (catchR p m h)"
  by (cases m) simp_all

lemma raises_eachR [raises]:
  "(\<And>x. x \<in> set xs \<Longrightarrow> raises_only P (f x)) \<Longrightarrow> raises_only P (eachR f xs)"
  by (induction xs) (auto intro: raises_thenR)

text \<open>\<open>returns_only Q m\<close>: a value \<open>m\<close> returns satisfies \<open>Q\<close>.\<close>

definition returns_only :: "('a \<Rightarrow> bool) \<Rightarrow> 'e + 'a \<Rightarrow> bool" where
  "returns_only Q m \<longleftrightarrow> (case m of Inl _ \<Rightarrow> True | Inr x \<Rightarrow> Q x)"

lemma returns_only_simps [simp]: "returns_only Q (Inl e)" "returns_only Q (Inr x) = Q x"
  by (simp_all add: returns_only_def)

lemma returns_onlyD: "returns_only Q m \<Longrightarrow> m = Inr x \<Longrightarrow> Q x"
  by simp

lemma returns_bindR: "(\<And>x. m = Inr x \<Longrightarrow> returns_only Q (f x)) \<Longrightarrow> returns_only Q (bindR m f)"
  by (cases m) simp_all

section \<open>Bytes and strings\<close>

type_synonym byte = "8 word"
type_synonym bytes = "byte list"

datatype pystr = Str (codes: "nat list")

text \<open>Python compares strings code point by code point.\<close>

instantiation pystr :: linorder
begin

definition less_eq_pystr :: "pystr \<Rightarrow> pystr \<Rightarrow> bool" where
  "less_eq_pystr s t \<longleftrightarrow> codes s \<le> codes t"

definition less_pystr :: "pystr \<Rightarrow> pystr \<Rightarrow> bool" where
  "less_pystr s t \<longleftrightarrow> codes s < codes t"

instance
  by standard (auto simp: less_eq_pystr_def less_pystr_def pystr.expand)

end

lemma pystr_less_simps [simp]:
  "Str xs < Str ys \<longleftrightarrow> xs < ys" "Str xs \<le> Str ys \<longleftrightarrow> xs \<le> ys"
  by (simp_all add: less_pystr_def less_eq_pystr_def)

text \<open>A string literal of the source, and truthiness (\<open>if s:\<close>).\<close>

definition lit :: "string \<Rightarrow> pystr" where
  "lit s = Str (map of_char s)"

definition truthy :: "pystr \<Rightarrow> bool" where
  "truthy s \<longleftrightarrow> codes s \<noteq> []"

lemma codes_lit [simp]: "codes (lit s) = map of_char s"
  by (simp add: lit_def)

lemma lit_eq_iff [simp]: "lit s = lit t \<longleftrightarrow> s = t"
proof -
  have "inj (of_char :: char \<Rightarrow> nat)"
    by (rule injI) simp
  then show ?thesis
    by (simp add: lit_def inj_map_eq_map)
qed

lemma truthy_iff: "truthy s \<longleftrightarrow> s \<noteq> Str []"
  by (cases s) (simp add: truthy_def)

lemma truthy_lit [simp]: "truthy (lit s) \<longleftrightarrow> s \<noteq> []"
  by (simp add: truthy_def)

lemma truthy_Str [simp]: "truthy (Str cs) \<longleftrightarrow> cs \<noteq> []"
  by (simp add: truthy_def)

lemma pystr_nil_le [simp]: "Str [] \<le> s"
  by (cases s) simp

lemma infinite_pystr: "infinite (UNIV :: pystr set)"
proof
  assume "finite (UNIV :: pystr set)"
  then have "finite (codes ` UNIV)" by (rule finite_imageI)
  moreover have "codes ` UNIV = UNIV" by (rule surjI [of _ Str]) simp
  ultimately have "finite (UNIV :: nat list set)" by simp
  then show False by (simp add: infinite_UNIV_listI)
qed

text \<open>Finitely many strings never exhaust the strings.\<close>

lemma fresh_pystr: "\<exists>s. s \<notin> set (xs :: pystr list)"
  using infinite_pystr by (metis UNIV_eq_I finite_set)

subsection \<open>UTF-8\<close>

text \<open>
  \<open>str.encode("utf-8")\<close>. Surrogate code points (0xD800 to 0xDFFF) are not encodable:
  Python raises \<open>UnicodeEncodeError\<close>. Code points end at 0x10FFFF.
\<close>

definition utf8_char :: "nat \<Rightarrow> bytes option" where
  "utf8_char c =
     (if c < 0x80 then Some [word_of_nat c]
      else if c < 0x800 then Some [word_of_nat (0xC0 + c div 64), word_of_nat (0x80 + c mod 64)]
      else if 0xD800 \<le> c \<and> c \<le> 0xDFFF then None
      else if c < 0x10000 then
        Some [word_of_nat (0xE0 + c div 4096), word_of_nat (0x80 + c div 64 mod 64),
              word_of_nat (0x80 + c mod 64)]
      else if c < 0x110000 then
        Some [word_of_nat (0xF0 + c div 262144), word_of_nat (0x80 + c div 4096 mod 64),
              word_of_nat (0x80 + c div 64 mod 64), word_of_nat (0x80 + c mod 64)]
      else None)"

fun utf8_codes :: "nat list \<Rightarrow> bytes option" where
  "utf8_codes [] = Some []"
| "utf8_codes (c # cs) =
     (case utf8_char c of None \<Rightarrow> None
      | Some b \<Rightarrow> (case utf8_codes cs of None \<Rightarrow> None | Some bs \<Rightarrow> Some (b @ bs)))"

definition utf8_encode :: "pystr \<Rightarrow> bytes option" where
  "utf8_encode s = utf8_codes (codes s)"

text \<open>The text holds no lone surrogate, so it has an encoding.\<close>

definition encodable :: "pystr \<Rightarrow> bool" where
  "encodable s \<longleftrightarrow> (\<forall>c \<in> set (codes s). utf8_char c \<noteq> None)"

lemma utf8_codes_None: "utf8_codes cs = None \<longleftrightarrow> (\<exists>c \<in> set cs. utf8_char c = None)"
  by (induction cs) (auto split: option.splits)

lemma utf8_encode_Some_iff: "(\<exists>b. utf8_encode s = Some b) \<longleftrightarrow> encodable s"
  using utf8_codes_None [of "codes s"]
  by (cases "utf8_codes (codes s)") (auto simp: utf8_encode_def encodable_def)

lemma utf8_codes_ascii: "\<forall>c \<in> set cs. c < 128 \<Longrightarrow> utf8_codes cs = Some (map word_of_nat cs)"
  by (induction cs) (auto simp: utf8_char_def)

lemma utf8_encode_ascii:
  "\<forall>c \<in> set cs. c < 128 \<Longrightarrow> utf8_encode (Str cs) = Some (map word_of_nat cs)"
  by (simp add: utf8_encode_def utf8_codes_ascii)

lemma utf8_codes_length: "utf8_codes cs = Some b \<Longrightarrow> length cs \<le> length b"
  by (induction cs arbitrary: b) (auto simp: utf8_char_def split: option.splits if_splits)

subsection \<open>String methods the SDK calls\<close>

text \<open>\<open>s.count(c)\<close> and \<open>s.split(c, 1)\<close> for a one-character \<open>c\<close>; without \<open>c\<close> in
  \<open>s\<close> the first part is the whole string.\<close>

definition str_count :: "nat \<Rightarrow> pystr \<Rightarrow> nat" where
  "str_count c s = count_list (codes s) c"

definition split_once :: "nat \<Rightarrow> pystr \<Rightarrow> pystr \<times> pystr" where
  "split_once c s = (Str (takeWhile (\<lambda>x. x \<noteq> c) (codes s)), Str (drop 1 (dropWhile (\<lambda>x. x \<noteq> c) (codes s))))"

text \<open>\<open>str.isspace()\<close> of one character, the set \<open>strip()\<close> removes.\<close>

definition is_space :: "nat \<Rightarrow> bool" where
  "is_space c \<longleftrightarrow> 9 \<le> c \<and> c \<le> 13 \<or> 28 \<le> c \<and> c \<le> 32 \<or> c = 0x85 \<or> c = 0xA0 \<or> c = 0x1680
     \<or> 0x2000 \<le> c \<and> c \<le> 0x200A \<or> c = 0x2028 \<or> c = 0x2029 \<or> c = 0x202F \<or> c = 0x205F \<or> c = 0x3000"

definition strip :: "pystr \<Rightarrow> pystr" where
  "strip s = Str (rev (dropWhile is_space (rev (dropWhile is_space (codes s)))))"

text \<open>\<open>bytes.rstrip(b"c")\<close> on the codes of a byte string.\<close>

definition rstrip_code :: "nat \<Rightarrow> nat list \<Rightarrow> nat list" where
  "rstrip_code c xs = rev (dropWhile (\<lambda>x. x = c) (rev xs))"

text \<open>
  \<open>s.lower()\<close> where the result is only compared with an ASCII literal that has no letter
  k: no character outside ASCII lower-cases to ASCII text but the Kelvin sign, which gives
  k, so the ASCII letters decide the comparison and the others are left as they are.
\<close>

definition lower_ascii :: "pystr \<Rightarrow> pystr" where
  "lower_ascii s = Str (map (\<lambda>c. if 65 \<le> c \<and> c \<le> 90 then c + 32 else c) (codes s))"

lemma split_once_append:
  "c \<notin> set p \<Longrightarrow> split_once c (Str (p @ c # q)) = (Str p, Str q)"
  by (simp add: split_once_def takeWhile_append dropWhile_append)

lemma takeWhile_drop_join:
  "c \<in> set cs \<Longrightarrow> takeWhile (\<lambda>x. x \<noteq> c) cs @ c # drop 1 (dropWhile (\<lambda>x. x \<noteq> c) cs) = cs"
  by (induction cs) auto

lemma split_once_join:
  "c \<in> set (codes s) \<Longrightarrow> codes (fst (split_once c s)) @ c # codes (snd (split_once c s)) = codes s"
  by (simp only: split_once_def fst_conv snd_conv pystr.sel takeWhile_drop_join)

lemma split_once_fst_notin: "c \<notin> set (codes (fst (split_once c s)))"
  by (auto simp: split_once_def dest: set_takeWhileD)

lemma dropWhile_replicate_append:
  "c \<notin> set ys \<Longrightarrow> dropWhile (\<lambda>x. x = c) (replicate n c @ ys) = ys"
proof (induction n)
  case 0
  then show ?case by (cases ys) auto
next
  case (Suc n)
  then show ?case by simp
qed

lemma rstrip_code_append: "c \<notin> set xs \<Longrightarrow> rstrip_code c (xs @ replicate n c) = xs"
  by (simp add: rstrip_code_def dropWhile_replicate_append)

lemma rstrip_code_last: "xs \<noteq> [] \<Longrightarrow> last xs \<noteq> c \<Longrightarrow> rstrip_code c (xs @ replicate n c) = xs"
proof -
  assume xs: "xs \<noteq> []" "last xs \<noteq> c"
  then obtain ys x where "xs = ys @ [x]" "x \<noteq> c" by (metis append_butlast_last_id)
  then have "dropWhile (\<lambda>y. y = c) (replicate n c @ x # rev ys) = x # rev ys"
    by (induction n) auto
  with \<open>xs = ys @ [x]\<close> show ?thesis by (simp add: rstrip_code_def)
qed

subsection \<open>Decimal numbers\<close>

text \<open>The value of a string of ASCII digits, \<open>int(s)\<close>, and \<open>str(n)\<close>.\<close>

definition is_ascii_digit :: "nat \<Rightarrow> bool" where
  "is_ascii_digit c \<longleftrightarrow> 48 \<le> c \<and> c \<le> 57"

definition decimal :: "nat list \<Rightarrow> nat" where
  "decimal cs = foldl (\<lambda>n c. n * 10 + (c - 48)) 0 cs"

fun digits :: "nat \<Rightarrow> nat list" where
  "digits n = (if n < 10 then [48 + n] else digits (n div 10) @ [48 + n mod 10])"

declare digits.simps [simp del]

lemma digits_ascii: "list_all is_ascii_digit (digits n)" and digits_nonempty: "digits n \<noteq> []"
proof (induction n rule: digits.induct)
  case (1 n)
  { case 1 with "1.IH" show ?case by (auto simp: digits.simps [of n] is_ascii_digit_def) }
  { case 2 show ?case by (simp add: digits.simps [of n]) }
qed

lemma decimal_snoc: "decimal (cs @ [c]) = decimal cs * 10 + (c - 48)"
  by (simp add: decimal_def)

lemma decimal_digits [simp]: "decimal (digits n) = n"
proof (induction n rule: digits.induct)
  case (1 n)
  then show ?case
    by (cases "n < 10") (simp_all add: digits.simps [of n] decimal_snoc decimal_def [of "[_]"])
qed

lemma decimal_foldl: "foldl (\<lambda>n c. n * 10 + (c - 48)) n cs = n * 10 ^ length cs + decimal cs"
proof (induction cs arbitrary: n)
  case (Cons c cs)
  show ?case
    using Cons.IH [of "n * 10 + (c - 48)"] Cons.IH [of "c - 48"]
    by (simp add: decimal_def algebra_simps)
qed (simp add: decimal_def)

lemma decimal_Cons: "decimal (c # cs) = (c - 48) * 10 ^ length cs + decimal cs"
  using decimal_foldl [of "c - 48" cs] by (simp add: decimal_def)

lemma decimal_strip: "decimal (dropWhile (\<lambda>c. c = 48) cs) = decimal cs"
  by (induction cs) (simp_all add: decimal_Cons)

lemma decimal_zero: "decimal [] = 0" "decimal [48] = 0"
  by (simp_all add: decimal_def)

lemma decimal_long:
  assumes "list_all is_ascii_digit cs" and "dropWhile (\<lambda>c. c = 48) cs = d # ds"
  shows "10 ^ length ds \<le> decimal cs"
proof -
  from assms(2) have "d \<noteq> 48" "d \<in> set cs"
    by (auto simp: dropWhile_eq_Cons_conv intro: set_dropWhileD)
      (metis list.set_intros(1) set_dropWhileD assms(2))
  with assms(1) have "1 \<le> d - 48" by (auto simp: list_all_iff is_ascii_digit_def)
  then have "10 ^ length ds \<le> (d - 48) * 10 ^ length ds" by simp
  also have "\<dots> \<le> decimal (d # ds)" by (simp add: decimal_Cons)
  also have "\<dots> = decimal cs" using decimal_strip [of cs] assms(2) by simp
  finally show ?thesis .
qed

end
