(* ===== verification/Wc_Errors.thy ===== *)
theory Wc_Errors
  imports Py_Prelude
begin

text \<open>
  The exceptions of \<open>work_context.py\<close> (lines 142 to 157) and the built-in ones its callees
  raise. A \<open>msg\<close> is the message of the raise site: the text, with the \<open>name\<close> label, the
  quoted string or the number the f-string interpolates kept as data.
\<close>

datatype label =
    L string
  | Part label string          \<comment> \<open>\<open>f"{name} actions"\<close> and the like\<close>
  | Entry label nat            \<comment> \<open>\<open>f"{name}[{index}]"\<close>\<close>

datatype msg =
    Msg string
  | About label string         \<comment> \<open>\<open>f"{name} is required"\<close>\<close>
  | Exceeds label nat          \<comment> \<open>\<open>f"{name} exceeds {limit} bytes"\<close>\<close>
  | Quoting string pystr       \<comment> \<open>\<open>f"unknown key id {key_id!r}"\<close>\<close>
  | Numbered string int        \<comment> \<open>\<open>f"... returned HTTP {error.code}"\<close>\<close>

text \<open>
  \<open>WorkContextDenied\<close> and \<open>WorkContextUnavailable\<close> are subclasses of
  \<open>WorkContextError\<close>; \<open>UnicodeEncodeError\<close> is a subclass of \<open>ValueError\<close>.
  \<open>Unhandled\<close> is any other exception of a library call, which no \<open>except\<close> clause of
  the module names.
\<close>

datatype exn =
    WorkContextError msg
  | WorkContextDenied pystr pystr pystr
  | WorkContextUnavailable msg
  | ValueError | UnicodeEncodeError | TypeError | Unhandled

fun is_work_context_error :: "exn \<Rightarrow> bool" where
  "is_work_context_error (WorkContextError _) = True"
| "is_work_context_error (WorkContextDenied _ _ _) = True"
| "is_work_context_error (WorkContextUnavailable _) = True"
| "is_work_context_error _ = False"

fun is_value_error :: "exn \<Rightarrow> bool" where
  "is_value_error ValueError = True"
| "is_value_error UnicodeEncodeError = True"
| "is_value_error _ = False"

text \<open>\<open>WorkContextUnavailable(str(error))\<close>: the same message under the subclass.\<close>

fun as_unavailable :: "exn \<Rightarrow> exn" where
  "as_unavailable (WorkContextError r) = WorkContextUnavailable r"
| "as_unavailable e = e"

lemma is_work_context_error_as_unavailable [simp]:
  "is_work_context_error (as_unavailable e) = is_work_context_error e"
  by (cases e) simp_all

end
