(* ===== verification/Base64.thy ===== *)
theory Base64
  imports Wc_Errors
begin

text \<open>
  Raw (unpadded) base64url: \<open>_b64url_encode\<close>, \<open>_b64url_decode\<close> and
  \<open>_decode_canonical\<close> of \<open>work_context.py\<close>, over the standard library's
  \<open>binascii.b2a_base64\<close> and non-strict \<open>binascii.a2b_base64\<close>, which skips characters
  outside the alphabet. The interface \<open>segment_codec\<close> states what the token format relies
  on; it is interpreted on the encoder and decoder at the end.
\<close>

section \<open>binascii\<close>

definition b64_char :: "nat \<Rightarrow> nat" where
  "b64_char n = (if n < 26 then 65 + n else if n < 52 then 71 + n else if n < 62 then n - 4
     else if n = 62 then 43 else 47)"

definition b64_value :: "nat \<Rightarrow> nat option" where
  "b64_value c = (if 65 \<le> c \<and> c \<le> 90 then Some (c - 65) else if 97 \<le> c \<and> c \<le> 122 then Some (c - 71)
     else if 48 \<le> c \<and> c \<le> 57 then Some (c + 4) else if c = 43 then Some 62
     else if c = 47 then Some 63 else None)"

fun b2a_base64 :: "bytes \<Rightarrow> nat list" where
  "b2a_base64 [] = []"
| "b2a_base64 [a] = [b64_char (unat a div 4), b64_char (unat a mod 4 * 16), 61, 61]"
| "b2a_base64 [a, b] =
     [b64_char (unat a div 4), b64_char (unat a mod 4 * 16 + unat b div 16),
      b64_char (unat b mod 16 * 4), 61]"
| "b2a_base64 (a # b # c # bs) =
     b64_char (unat a div 4) # b64_char (unat a mod 4 * 16 + unat b div 16)
       # b64_char (unat b mod 16 * 4 + unat c div 64) # b64_char (unat c mod 64) # b2a_base64 bs"

text \<open>
  The decoder's loop: position in the quad, bits left over, pad characters seen since the
  last data character. A pad that completes a quad ends the loop; other characters outside
  the alphabet are skipped. \<open>None\<close> is \<open>binascii.Error\<close> (a \<open>ValueError\<close>).
\<close>

fun a2b_base64 :: "nat \<Rightarrow> nat \<Rightarrow> nat \<Rightarrow> nat list \<Rightarrow> bytes option" where
  "a2b_base64 quad left pads [] = (if quad = 0 then Some [] else None)"
| "a2b_base64 quad left pads (c # cs) =
     (if c = 61 then
        (if quad \<ge> 2
         then (if quad + (pads + 1) \<ge> 4 then Some [] else a2b_base64 quad left (pads + 1) cs)
         else a2b_base64 quad left pads cs)
      else case b64_value c of
        None \<Rightarrow> a2b_base64 quad left pads cs
      | Some v \<Rightarrow>
          if quad = 0 then a2b_base64 1 v 0 cs
          else if quad = 1 then map_option (Cons (word_of_nat (left * 4 + v div 16))) (a2b_base64 2 (v mod 16) 0 cs)
          else if quad = 2 then map_option (Cons (word_of_nat (left * 16 + v div 4))) (a2b_base64 3 (v mod 4) 0 cs)
          else map_option (Cons (word_of_nat (left * 64 + v))) (a2b_base64 0 0 0 cs))"

section \<open>The SDK's encoder and decoder\<close>

definition to_urlsafe :: "nat \<Rightarrow> nat" where
  "to_urlsafe c = (if c = 43 then 45 else if c = 47 then 95 else c)"

definition from_urlsafe :: "nat \<Rightarrow> nat" where
  "from_urlsafe c = (if c = 45 then 43 else if c = 95 then 47 else c)"

definition b64url_encode :: "bytes \<Rightarrow> pystr" where
  "b64url_encode raw = Str (rstrip_code 61 (map to_urlsafe (b2a_base64 raw)))"

text \<open>\<open>base64.urlsafe_b64decode\<close> of a \<open>str\<close>: only ASCII is accepted.\<close>

definition urlsafe_b64decode :: "nat list \<Rightarrow> bytes option" where
  "urlsafe_b64decode cs =
     (if \<forall>c \<in> set cs. c < 128 then a2b_base64 0 0 0 (map from_urlsafe cs) else None)"

definition pad_count :: "nat \<Rightarrow> nat" where
  "pad_count n = nat ((- int n) mod 4)"

definition b64url_decode :: "pystr \<Rightarrow> exn + bytes" where
  "b64url_decode segment =
     (case urlsafe_b64decode (codes segment @ replicate (pad_count (length (codes segment))) 61) of
        None \<Rightarrow> Inl (WorkContextError (Msg ''base64''))
      | Some b \<Rightarrow> Inr b)"

definition decode_canonical :: "pystr \<Rightarrow> label \<Rightarrow> exn + bytes" where
  "decode_canonical segment name =
     (case b64url_decode segment of
        Inl e \<Rightarrow> Inl (if is_work_context_error e then WorkContextError (About name ''base64 is invalid'') else e)
      | Inr decoded \<Rightarrow>
          if b64url_encode decoded \<noteq> segment then Inl (WorkContextError (About name ''is not canonical base64url''))
          else Inr decoded)"

section \<open>The decoder inverts the encoder\<close>

lemma b64_char_cases:
  assumes "n < 64"
  shows "b64_value (b64_char n) = Some n" "b64_char n \<noteq> 61"
    "from_urlsafe (to_urlsafe (b64_char n)) = b64_char n" "to_urlsafe (b64_char n) \<noteq> 61"
    "to_urlsafe (b64_char n) < 128" "to_urlsafe (b64_char n) \<noteq> 46"
  using assms by (auto simp: b64_char_def b64_value_def from_urlsafe_def to_urlsafe_def split: if_splits)

lemma unat_byte_less: "unat (x :: byte) < 256"
  using unsigned_less [of x] by simp

lemma byte_of_parts: "k > 0 \<Longrightarrow> word_of_nat (unat x div k * k + unat x mod k) = (x :: byte)"
  by simp

lemma sextet_bounds [simp]:
  "unat (a :: byte) div 4 < 64" "unat a mod 4 * 16 < 64" "unat a mod 4 * 16 + unat (b :: byte) div 16 < 64"
  "unat b mod 16 * 4 < 64" "unat b mod 16 * 4 + unat a div 64 < 64" "unat a mod 64 < 64"
  using unat_byte_less [of a] unat_byte_less [of b] by linarith+

lemma rejoin [simp]:
  fixes a b c :: byte
  shows "word_of_nat (unat a div 4 * 4 + (unat a mod 4 * 16 + unat b div 16) div 16) = a"
    "word_of_nat (unat a div 4 * 4 + unat a mod 4 * 16 div 16) = a"
    "(unat a mod 4 * 16 + unat b div 16) mod 16 = unat b div 16"
    "word_of_nat (unat b div 16 * 16 + (unat b mod 16 * 4 + unat c div 64) div 4) = b"
    "word_of_nat (unat b div 16 * 16 + unat b mod 16 * 4 div 4) = b"
    "(unat b mod 16 * 4 + unat c div 64) mod 4 = unat c div 64"
    "word_of_nat (unat c div 64 * 64 + unat c mod 64) = c"
proof -
  have q: "unat b div 16 < 16" "unat c div 64 < 4"
    using unat_byte_less [of b] unat_byte_less [of c] by linarith+
  have "(unat a mod 4 * 16 + unat b div 16) div 16 = unat a mod 4"
    "(unat b mod 16 * 4 + unat c div 64) div 4 = unat b mod 16"
    using q by simp_all
  then show "word_of_nat (unat a div 4 * 4 + (unat a mod 4 * 16 + unat b div 16) div 16) = a"
    "word_of_nat (unat b div 16 * 16 + (unat b mod 16 * 4 + unat c div 64) div 4) = b"
    by (simp_all only: byte_of_parts zero_less_numeral)
  show "(unat a mod 4 * 16 + unat b div 16) mod 16 = unat b div 16"
    "(unat b mod 16 * 4 + unat c div 64) mod 4 = unat c div 64"
    using q by simp_all
qed (simp_all only: byte_of_parts zero_less_numeral div_mult_self_is_m)

lemma a2b_data:
  "n < 64 \<Longrightarrow> a2b_base64 0 l p (b64_char n # cs) = a2b_base64 1 n 0 cs"
  "n < 64 \<Longrightarrow> a2b_base64 1 l p (b64_char n # cs) =
     map_option (Cons (word_of_nat (l * 4 + n div 16))) (a2b_base64 2 (n mod 16) 0 cs)"
  "n < 64 \<Longrightarrow> a2b_base64 2 l p (b64_char n # cs) =
     map_option (Cons (word_of_nat (l * 16 + n div 4))) (a2b_base64 3 (n mod 4) 0 cs)"
  "n < 64 \<Longrightarrow> a2b_base64 3 l p (b64_char n # cs) =
     map_option (Cons (word_of_nat (l * 64 + n))) (a2b_base64 0 0 0 cs)"
  by (simp_all add: b64_char_cases)

lemma a2b_pads:
  "a2b_base64 2 l 0 [61, 61] = Some []" "a2b_base64 3 l 0 [61] = Some []"
  by simp_all

lemma a2b_b2a: "a2b_base64 0 0 0 (b2a_base64 raw) = Some raw"
  by (induction raw rule: b2a_base64.induct)
    (simp_all only: b2a_base64.simps a2b_data a2b_pads sextet_bounds rejoin option.map a2b_base64.simps(1) simp_thms if_True)

section \<open>Shape of an encoding\<close>

text \<open>Padding the text again gives back the padded encoding, whatever the length.\<close>

lemma to_urlsafe_pad [simp]: "to_urlsafe 61 = 61" "from_urlsafe 61 = 61"
  by (simp_all add: to_urlsafe_def from_urlsafe_def)

definition b64_body :: "bytes \<Rightarrow> nat list" where
  "b64_body raw = codes (b64url_encode raw)"

lemma b2a_shape:
  "\<exists>body k. map to_urlsafe (b2a_base64 raw) = body @ replicate k 61
     \<and> map from_urlsafe body @ replicate k 61 = b2a_base64 raw
     \<and> (\<forall>c \<in> set body. c \<noteq> 61 \<and> c \<noteq> 46 \<and> c < 128)
     \<and> k = pad_count (length body) \<and> (raw \<noteq> [] \<longrightarrow> body \<noteq> [])"
proof (induction raw rule: b2a_base64.induct)
  case 1
  show ?case by (rule exI [of _ "[]"]) (simp add: pad_count_def)
next
  case (2 a)
  show ?case
    by (rule exI [of _ "map to_urlsafe [b64_char (unat a div 4), b64_char (unat a mod 4 * 16)]"], rule exI [of _ 2])
      (simp add: pad_count_def b64_char_cases numeral_2_eq_2)
next
  case (3 a b)
  show ?case
    by (rule exI [of _ "map to_urlsafe [b64_char (unat a div 4), b64_char (unat a mod 4 * 16 + unat b div 16),
          b64_char (unat b mod 16 * 4)]"], rule exI [of _ 1])
      (simp add: pad_count_def b64_char_cases)
next
  case (4 a b c bs)
  then obtain body k where IH:
    "map to_urlsafe (b2a_base64 bs) = body @ replicate k 61"
    "map from_urlsafe body @ replicate k 61 = b2a_base64 bs"
    "\<forall>c \<in> set body. c \<noteq> 61 \<and> c \<noteq> 46 \<and> c < 128" "k = pad_count (length body)"
    by blast
  have "pad_count (Suc (Suc (Suc (Suc (length body))))) = pad_count (length body)"
    unfolding pad_count_def by (rule arg_cong [of _ _ nat]) presburger
  with IH show ?case
    by (intro exI [of _ "map to_urlsafe [b64_char (unat a div 4), b64_char (unat a mod 4 * 16 + unat b div 16),
          b64_char (unat b mod 16 * 4 + unat c div 64), b64_char (unat c mod 64)] @ body"] exI [of _ k])
      (simp add: b64_char_cases)
qed

lemma b64url_encode_shape:
  obtains k where "b64url_encode raw = Str (b64_body raw)"
    "map from_urlsafe (b64_body raw @ replicate k 61) = b2a_base64 raw"
    "\<forall>c \<in> set (b64_body raw). c \<noteq> 61 \<and> c \<noteq> 46 \<and> c < 128"
    "k = pad_count (length (b64_body raw))" "raw \<noteq> [] \<longrightarrow> b64_body raw \<noteq> []"
proof -
  obtain body k where *:
    "map to_urlsafe (b2a_base64 raw) = body @ replicate k 61"
    "map from_urlsafe body @ replicate k 61 = b2a_base64 raw"
    "\<forall>c \<in> set body. c \<noteq> 61 \<and> c \<noteq> 46 \<and> c < 128" "k = pad_count (length body)" "raw \<noteq> [] \<longrightarrow> body \<noteq> []"
    using b2a_shape [of raw] by blast
  moreover from * have "b64_body raw = body"
    by (auto simp: b64_body_def b64url_encode_def intro!: rstrip_code_append)
  moreover have "b64url_encode raw = Str (b64_body raw)"
    by (simp add: b64_body_def)
  ultimately show thesis using that by simp
qed

lemma b64url_decode_encode [simp]: "b64url_decode (b64url_encode raw) = Inr raw"
proof -
  obtain k where *: "b64url_encode raw = Str (b64_body raw)"
    "map from_urlsafe (b64_body raw @ replicate k 61) = b2a_base64 raw"
    "\<forall>c \<in> set (b64_body raw). c \<noteq> 61 \<and> c \<noteq> 46 \<and> c < 128"
    "k = pad_count (length (b64_body raw))"
    by (rule b64url_encode_shape)
  then have "urlsafe_b64decode (b64_body raw @ replicate k 61) = Some raw"
    using a2b_b2a [of raw] by (auto simp: urlsafe_b64decode_def)
  with * show ?thesis by (simp add: b64url_decode_def)
qed

section \<open>The interface the token format uses\<close>

text \<open>
  A canonical decoder succeeds on encodings only, so two texts that decode to one value are
  equal. A segment codec is a canonical decoder of byte strings that also decodes every
  encoding; a token codec's encodings are ASCII text without the separator \<open>'.'\<close>, so
  two segments joined by one separator split again.
\<close>

locale canonical_decoder =
  fixes enc :: "'a \<Rightarrow> 's" and dec :: "'s \<Rightarrow> exn + 'a"
  assumes dec_only_enc: "dec s = Inr b \<Longrightarrow> s = enc b"
begin

lemma dec_inject: "dec s = Inr b \<Longrightarrow> dec t = Inr b \<Longrightarrow> s = t"
  using dec_only_enc [of s b] dec_only_enc [of t b] by simp

end

locale segment_codec = canonical_decoder enc dec
  for enc :: "bytes \<Rightarrow> pystr" and dec :: "pystr \<Rightarrow> exn + bytes" +
  assumes dec_enc: "dec (enc b) = Inr b"
begin

lemma dec_iff: "dec s = Inr b \<longleftrightarrow> s = enc b"
  using dec_enc dec_only_enc by auto

lemma enc_inject: "enc a = enc b \<longleftrightarrow> a = b"
  by (metis dec_enc sum.inject(2))

end

locale token_codec = segment_codec +
  assumes enc_ascii: "c \<in> set (codes (enc b)) \<Longrightarrow> c < 128"
    and enc_no_dot: "46 \<notin> set (codes (enc b))"
    and enc_nonempty: "b \<noteq> [] \<Longrightarrow> codes (enc b) \<noteq> []"

context token_codec
begin

lemma join_split:
  "split_once 46 (Str (codes (enc p) @ 46 # codes (enc s))) = (enc p, enc s)"
  using enc_no_dot by (simp add: split_once_append)

lemma join_count: "str_count 46 (Str (codes (enc p) @ 46 # codes (enc s))) = 1"
  using enc_no_dot by (simp add: str_count_def)

lemma join_utf8:
  "utf8_encode (Str (codes (enc p) @ 46 # codes (enc s)))
     = Some (map word_of_nat (codes (enc p) @ 46 # codes (enc s)))"
  by (rule utf8_encode_ascii) (auto dest: enc_ascii)

end

lemma decode_canonical_Inr: "decode_canonical s n = Inr b \<longleftrightarrow> s = b64url_encode b"
  by (auto simp: decode_canonical_def split: sum.splits if_splits)

lemma decode_canonical_Inl:
  "decode_canonical s n = Inl e \<Longrightarrow> is_work_context_error e"
  by (auto simp: decode_canonical_def b64url_decode_def split: sum.splits if_splits option.splits)

interpretation b64: token_codec b64url_encode "\<lambda>s. decode_canonical s n" for n
proof
  show "s = b64url_encode b" if "decode_canonical s n = Inr b" for s b
    using that by (simp add: decode_canonical_Inr)
  show "decode_canonical (b64url_encode b) n = Inr b" for b
    by (simp add: decode_canonical_Inr)
  show "c < 128" if "c \<in> set (codes (b64url_encode b))" for b c
    using that by (rule_tac b64url_encode_shape [of b]) auto
  show "46 \<notin> set (codes (b64url_encode b))" for b
    by (rule b64url_encode_shape [of b]) auto
  show "codes (b64url_encode b) \<noteq> []" if "b \<noteq> []" for b
    using that by (rule_tac b64url_encode_shape [of b]) auto
qed

section \<open>The round trip\<close>

text \<open>C28: \<open>_decode_canonical\<close> accepts a text exactly when it is the unpadded base64url
  encoding of the bytes it returns: encoding and decoding are inverse on the accepted texts,
  and no other spelling of the same bytes (padding, the standard alphabet, stray characters,
  non-zero trailing bits) is accepted.\<close>

theorem decode_canonical_exact:
  "decode_canonical segment name = Inr raw \<longleftrightarrow> segment = b64url_encode raw"
  by (rule decode_canonical_Inr)

end
