(* ===== verification/Claims.thy ===== *)
theory Claims
  imports Wc_Errors
begin

text \<open>
  The claims of a Work Context and everything \<open>work_context.py\<close> decides about them once
  they are read: the structural validation (\<open>_validate_work_context\<close> and the validators it
  calls), scope attenuation, the caller's expectations and \<open>require_scope\<close>.

  Each validator is translated as the loop it is; beside it stands a declarative predicate
  (\<open>wf_context\<close>, \<open>authority\<close>) and the lemma that the two agree. The interface
  \<open>claims_source\<close> is what a caller of a verifier may rely on.
\<close>

section \<open>Data\<close>

abbreviation MAX_ID_BYTES :: nat where "MAX_ID_BYTES \<equiv> 512"
abbreviation MAX_KIND_BYTES :: nat where "MAX_KIND_BYTES \<equiv> 128"
abbreviation MAX_SCOPES :: nat where "MAX_SCOPES \<equiv> 64"
abbreviation MAX_SCOPE_ENTRIES :: nat where "MAX_SCOPE_ENTRIES \<equiv> 256"
abbreviation MAX_ACTOR_DEPTH :: nat where "MAX_ACTOR_DEPTH \<equiv> 16"

definition WORK_CONTEXT_TYPE :: pystr where
  "WORK_CONTEXT_TYPE = lit ''codefly.work-context/v1''"

definition WORK_CONTEXT_ALGORITHM :: pystr where
  "WORK_CONTEXT_ALGORITHM = lit ''Ed25519''"

definition REPLAY_IDEMPOTENT :: pystr where
  "REPLAY_IDEMPOTENT = lit ''idempotent''"

definition REPLAY_SINGLE_USE :: pystr where
  "REPLAY_SINGLE_USE = lit ''single-use''"

text \<open>\<open>_MAX_TTL.total_seconds()\<close>.\<close>

definition MAX_TTL_SECONDS :: int where
  "MAX_TTL_SECONDS = 15 * 60"

record work_scope =
  resource_kind :: pystr
  actions :: "pystr list"
  resource_ids :: "pystr list"

record work_actor =
  principal_id :: pystr
  principal_kind :: pystr
  delegation_id :: pystr
  granted_scopes :: "work_scope list"

record work_context =
  wc_typ :: pystr
  algorithm :: pystr
  key_id :: pystr
  issuer :: pystr
  audience :: pystr
  not_before_unix :: int
  issued_at_unix :: int
  expires_at_unix :: int
  nonce :: pystr
  authorization_revision :: int
  replay_policy :: pystr
  tenant_id :: pystr
  owner_principal_id :: pystr
  task_id :: pystr
  session_id :: pystr
  parent_session_id :: "pystr option"
  authority_scopes :: "work_scope list"
  actor_chain :: "work_actor list"
  attribution_team_ids :: "pystr list"
  workspace_id :: "pystr option"
  project_id :: "pystr option"

definition effective_scopes :: "work_context \<Rightarrow> work_scope list" where
  "effective_scopes c =
     (if actor_chain c \<noteq> [] then granted_scopes (last (actor_chain c)) else authority_scopes c)"

record expectations =
  exp_issuer :: pystr
  exp_audience :: pystr
  exp_tenant_id :: pystr
  exp_owner_principal_id :: pystr
  exp_task_id :: pystr
  exp_session_id :: pystr
  exp_parent_session_id :: "pystr option"
  exp_authorization_revision :: "int option"

definition no_expectations :: expectations where
  "no_expectations = \<lparr>exp_issuer = Str [], exp_audience = Str [], exp_tenant_id = Str [],
     exp_owner_principal_id = Str [], exp_task_id = Str [], exp_session_id = Str [],
     exp_parent_session_id = None, exp_authorization_revision = None\<rparr>"

record scope_requirement =
  req_resource_kind :: pystr
  req_action :: pystr
  req_resource_id :: pystr
  require_explicit_resource :: bool

section \<open>Validators\<close>

definition validate_bounded :: "label \<Rightarrow> pystr \<Rightarrow> nat \<Rightarrow> bool \<Rightarrow> exn + unit" where
  "validate_bounded name value limit required =
     (if required \<and> value = Str [] then Inl (WorkContextError (About name ''is required''))
      else case utf8_encode value of
        None \<Rightarrow> Inl UnicodeEncodeError
      | Some b \<Rightarrow> if length b > limit then Inl (WorkContextError (Exceeds name limit)) else Inr ())"

fun sorted_unique_loop :: "label \<Rightarrow> nat \<Rightarrow> nat \<Rightarrow> pystr \<Rightarrow> pystr list \<Rightarrow> exn + unit" where
  "sorted_unique_loop name limit index previous [] = Inr ()"
| "sorted_unique_loop name limit index previous (value # values) =
     thenR (validate_bounded name value limit True)
       (if index > 0 \<and> previous \<ge> value
        then Inl (WorkContextError (About name ''must be sorted and unique''))
        else sorted_unique_loop name limit (index + 1) value values)"

definition validate_sorted_unique :: "label \<Rightarrow> pystr list \<Rightarrow> nat \<Rightarrow> exn + unit" where
  "validate_sorted_unique name values limit = sorted_unique_loop name limit 0 (Str []) values"

fun validate_scopes_loop :: "label \<Rightarrow> nat \<Rightarrow> pystr \<Rightarrow> work_scope list \<Rightarrow> exn + unit" where
  "validate_scopes_loop name index previous_kind [] = Inr ()"
| "validate_scopes_loop name index previous_kind (scope # scopes) =
     thenR (validate_bounded (Part name ''resource_kind'') (resource_kind scope) MAX_KIND_BYTES True)
       (if previous_kind \<ge> resource_kind scope
        then Inl (WorkContextError (About name ''resource kinds must be sorted and unique''))
        else if \<not> (1 \<le> length (actions scope) \<and> length (actions scope) \<le> MAX_SCOPE_ENTRIES)
        then Inl (WorkContextError (About (Entry name index) ''actions must contain 1..256 entries''))
        else thenR (validate_sorted_unique (Part name ''actions'') (actions scope) MAX_KIND_BYTES)
          (if length (resource_ids scope) > MAX_SCOPE_ENTRIES
           then Inl (WorkContextError (About (Entry name index) ''has too many resource IDs''))
           else thenR (validate_sorted_unique (Part name ''resource_ids'') (resource_ids scope) MAX_ID_BYTES)
             (validate_scopes_loop name (index + 1) (resource_kind scope) scopes)))"

definition validate_scopes :: "label \<Rightarrow> work_scope list \<Rightarrow> exn + unit" where
  "validate_scopes name scopes =
     (if length scopes > MAX_SCOPES then Inl (WorkContextError (About name ''exceeds 64 scopes''))
      else validate_scopes_loop name 0 (Str []) scopes)"

text \<open>\<open>all(value in parent_set for value in child)\<close>.\<close>

definition subset :: "pystr list \<Rightarrow> pystr list \<Rightarrow> bool" where
  "subset child parent = list_all (\<lambda>value. value \<in> set parent) child"

text \<open>The dictionary comprehension: of two scopes with one kind the later one stays.\<close>

definition parent_by_kind :: "work_scope list \<Rightarrow> (pystr \<rightharpoonup> work_scope)" where
  "parent_by_kind parent = map_of (rev (map (\<lambda>s. (resource_kind s, s)) parent))"

fun attenuate_loop :: "(pystr \<rightharpoonup> work_scope) \<Rightarrow> work_scope list \<Rightarrow> bool" where
  "attenuate_loop by_kind [] = True"
| "attenuate_loop by_kind (scope # scopes) =
     (case by_kind (resource_kind scope) of
        None \<Rightarrow> False
      | Some ancestor \<Rightarrow>
          if \<not> subset (actions scope) (actions ancestor) then False
          else if resource_ids ancestor \<noteq> []
               \<and> (resource_ids scope = [] \<or> \<not> subset (resource_ids scope) (resource_ids ancestor))
          then False
          else attenuate_loop by_kind scopes)"

definition scopes_attenuate :: "work_scope list \<Rightarrow> work_scope list \<Rightarrow> bool" where
  "scopes_attenuate parent child = attenuate_loop (parent_by_kind parent) child"

fun validate_chain :: "nat \<Rightarrow> work_scope list \<Rightarrow> work_actor list \<Rightarrow> exn + unit" where
  "validate_chain index previous [] = Inr ()"
| "validate_chain index previous (actor # actors) =
     thenR (validate_bounded (L ''actor principal_id'') (principal_id actor) MAX_ID_BYTES True)
     (thenR (validate_bounded (L ''actor principal_kind'') (principal_kind actor) MAX_KIND_BYTES True)
     (thenR (validate_bounded (L ''actor delegation_id'') (delegation_id actor) MAX_ID_BYTES True)
     (thenR (validate_scopes (Part (Entry (L ''actor_chain'') index) ''.granted_scopes'') (granted_scopes actor))
       (if \<not> scopes_attenuate previous (granted_scopes actor)
        then Inl (WorkContextError (About (Entry (L ''actor_chain'') index) ''widens authority''))
        else validate_chain (index + 1) (granted_scopes actor) actors))))"

text \<open>The two loops over the named fields, then the checks in source order.\<close>

definition required_fields :: "work_context \<Rightarrow> (label \<times> pystr \<times> nat) list" where
  "required_fields c =
     [(L ''key_id'', key_id c, MAX_KIND_BYTES), (L ''issuer'', issuer c, MAX_ID_BYTES),
      (L ''audience'', audience c, MAX_ID_BYTES), (L ''nonce'', nonce c, MAX_ID_BYTES),
      (L ''tenant_id'', tenant_id c, MAX_ID_BYTES),
      (L ''owner_principal_id'', owner_principal_id c, MAX_ID_BYTES),
      (L ''task_id'', task_id c, MAX_ID_BYTES), (L ''session_id'', session_id c, MAX_ID_BYTES)]"

definition optional_fields :: "work_context \<Rightarrow> (label \<times> pystr option) list" where
  "optional_fields c =
     [(L ''parent_session_id'', parent_session_id c), (L ''workspace_id'', workspace_id c),
      (L ''project_id'', project_id c)]"

definition validate_optional :: "label \<times> pystr option \<Rightarrow> exn + unit" where
  "validate_optional = (\<lambda>(name, value). case value of None \<Rightarrow> Inr ()
     | Some v \<Rightarrow> validate_bounded name v MAX_ID_BYTES True)"

definition validate_work_context :: "work_context \<Rightarrow> exn + unit" where
  "validate_work_context c =
     thenR (guardR (wc_typ c \<noteq> WORK_CONTEXT_TYPE) (WorkContextError (Quoting ''unsupported typ'' (wc_typ c))))
     (thenR (guardR (algorithm c \<noteq> WORK_CONTEXT_ALGORITHM)
        (WorkContextError (Quoting ''unsupported algorithm'' (algorithm c))))
     (thenR (eachR (\<lambda>(name, value, limit). validate_bounded name value limit True) (required_fields c))
     (thenR (eachR validate_optional (optional_fields c))
     (thenR (guardR (parent_session_id c = Some (session_id c))
        (WorkContextError (Msg ''parent session equals session'')))
     (thenR (guardR (replay_policy c \<noteq> REPLAY_IDEMPOTENT \<and> replay_policy c \<noteq> REPLAY_SINGLE_USE)
        (WorkContextError (Quoting ''unsupported replay policy'' (replay_policy c))))
     (thenR (guardR (not_before_unix c > expires_at_unix c)
        (WorkContextError (Msg ''not-before is after expiry'')))
     (thenR (guardR (issued_at_unix c > expires_at_unix c)
        (WorkContextError (Msg ''issued-at is after expiry'')))
     (thenR (let ttl = expires_at_unix c - issued_at_unix c in
        guardR (ttl \<le> 0 \<or> ttl > MAX_TTL_SECONDS)
          (WorkContextError (Msg ''lifetime must be positive and at most 0:15:00'')))
     (thenR (guardR (length (actor_chain c) > MAX_ACTOR_DEPTH)
        (WorkContextError (Msg ''actor chain exceeds depth 16'')))
     (thenR (guardR (length (attribution_team_ids c) > MAX_SCOPE_ENTRIES)
        (WorkContextError (Msg ''too many attribution teams'')))
     (thenR (validate_sorted_unique (L ''attribution_team_ids'') (attribution_team_ids c) MAX_ID_BYTES)
     (thenR (validate_scopes (L ''authority_scopes'') (authority_scopes c))
        (validate_chain 0 (authority_scopes c) (actor_chain c))))))))))))))"

section \<open>Expectations and scope requirements\<close>

definition expected_fields :: "work_context \<Rightarrow> expectations \<Rightarrow> (label \<times> pystr \<times> pystr) list" where
  "expected_fields c e =
     [(L ''issuer'', issuer c, exp_issuer e), (L ''audience'', audience c, exp_audience e),
      (L ''tenant'', tenant_id c, exp_tenant_id e),
      (L ''owner'', owner_principal_id c, exp_owner_principal_id e),
      (L ''task'', task_id c, exp_task_id e), (L ''session'', session_id c, exp_session_id e)]"

definition match_expectations :: "work_context \<Rightarrow> expectations \<Rightarrow> exn + unit" where
  "match_expectations c e =
     thenR (eachR (\<lambda>(name, got, want). guardR (truthy want \<and> got \<noteq> want)
        (WorkContextError (About name ''mismatch''))) (expected_fields c e))
     (thenR (case exp_parent_session_id e of None \<Rightarrow> Inr ()
       | Some want \<Rightarrow> guardR ((case parent_session_id c of None \<Rightarrow> Str [] | Some p \<Rightarrow> p) \<noteq> want)
           (WorkContextError (Msg ''parent session mismatch'')))
     (case exp_authorization_revision e of None \<Rightarrow> Inr ()
       | Some want \<Rightarrow> guardR (authorization_revision c \<noteq> want)
           (WorkContextError (Msg ''authorization revision mismatch''))))"

fun scope_granted :: "scope_requirement \<Rightarrow> work_scope list \<Rightarrow> bool" where
  "scope_granted r [] = False"
| "scope_granted r (scope # scopes) =
     (if resource_kind scope \<noteq> req_resource_kind r \<or> req_action r \<notin> set (actions scope)
      then scope_granted r scopes
      else if resource_ids scope = [] \<and> \<not> require_explicit_resource r then True
      else if truthy (req_resource_id r) \<and> req_resource_id r \<in> set (resource_ids scope) then True
      else scope_granted r scopes)"

definition require_scope :: "work_context \<Rightarrow> scope_requirement \<Rightarrow> exn + unit" where
  "require_scope claims r =
     thenR (validate_work_context claims)
     (thenR (validate_bounded (L ''required resource_kind'') (req_resource_kind r) MAX_KIND_BYTES True)
     (thenR (validate_bounded (L ''required action'') (req_action r) MAX_KIND_BYTES True)
     (thenR (validate_bounded (L ''required resource_id'') (req_resource_id r) MAX_ID_BYTES
        (require_explicit_resource r))
     (if scope_granted r (effective_scopes claims) then Inr ()
      else Inl (WorkContextDenied (req_resource_kind r) (req_action r) (req_resource_id r))))))"

section \<open>What the validators accept\<close>

definition bounded_str :: "nat \<Rightarrow> pystr \<Rightarrow> bool" where
  "bounded_str limit s \<longleftrightarrow>
     s \<noteq> Str [] \<and> (case utf8_encode s of None \<Rightarrow> False | Some b \<Rightarrow> length b \<le> limit)"

definition sorted_entries :: "nat \<Rightarrow> pystr list \<Rightarrow> bool" where
  "sorted_entries limit vs \<longleftrightarrow> list_all (bounded_str limit) vs \<and> sorted_wrt (<) vs"

definition wf_scope :: "work_scope \<Rightarrow> bool" where
  "wf_scope s \<longleftrightarrow> bounded_str MAX_KIND_BYTES (resource_kind s)
     \<and> actions s \<noteq> [] \<and> length (actions s) \<le> MAX_SCOPE_ENTRIES \<and> sorted_entries MAX_KIND_BYTES (actions s)
     \<and> length (resource_ids s) \<le> MAX_SCOPE_ENTRIES \<and> sorted_entries MAX_ID_BYTES (resource_ids s)"

definition wf_scopes :: "work_scope list \<Rightarrow> bool" where
  "wf_scopes ss \<longleftrightarrow> length ss \<le> MAX_SCOPES \<and> list_all wf_scope ss \<and> sorted_wrt (<) (map resource_kind ss)"

definition wf_actor :: "work_actor \<Rightarrow> bool" where
  "wf_actor a \<longleftrightarrow> bounded_str MAX_ID_BYTES (principal_id a) \<and> bounded_str MAX_KIND_BYTES (principal_kind a)
     \<and> bounded_str MAX_ID_BYTES (delegation_id a) \<and> wf_scopes (granted_scopes a)"

text \<open>The chain of scope lists a context carries: the owner's, then each actor's.\<close>

definition scope_chain :: "work_context \<Rightarrow> work_scope list list" where
  "scope_chain c = authority_scopes c # map granted_scopes (actor_chain c)"

definition wf_context :: "work_context \<Rightarrow> bool" where
  "wf_context c \<longleftrightarrow>
     wc_typ c = WORK_CONTEXT_TYPE \<and> algorithm c = WORK_CONTEXT_ALGORITHM
     \<and> list_all (\<lambda>(_, value, limit). bounded_str limit value) (required_fields c)
     \<and> list_all (\<lambda>(_, value). pred_option (bounded_str MAX_ID_BYTES) value) (optional_fields c)
     \<and> parent_session_id c \<noteq> Some (session_id c)
     \<and> replay_policy c \<in> {REPLAY_IDEMPOTENT, REPLAY_SINGLE_USE}
     \<and> not_before_unix c \<le> expires_at_unix c
     \<and> 0 < expires_at_unix c - issued_at_unix c \<and> expires_at_unix c - issued_at_unix c \<le> MAX_TTL_SECONDS
     \<and> length (actor_chain c) \<le> MAX_ACTOR_DEPTH
     \<and> length (attribution_team_ids c) \<le> MAX_SCOPE_ENTRIES
     \<and> sorted_entries MAX_ID_BYTES (attribution_team_ids c)
     \<and> wf_scopes (authority_scopes c) \<and> list_all wf_actor (actor_chain c)
     \<and> list_all (\<lambda>(p, q). scopes_attenuate p q) (zip (scope_chain c) (tl (scope_chain c)))"

lemma validate_bounded_Inr [res_iff]:
  "validate_bounded n v l True = Inr u \<longleftrightarrow> bounded_str l v"
  by (auto simp: validate_bounded_def bounded_str_def split: option.splits)

lemma validate_bounded_optional:
  "validate_bounded n v l r = Inr u \<longleftrightarrow> bounded_str l v \<or> \<not> r \<and> v = Str []"
  by (auto simp: validate_bounded_def bounded_str_def utf8_encode_def split: option.splits)

lemma sorted_wrt_less_Cons2:
  "sorted_wrt (<) (x # y # zs) \<longleftrightarrow> x < y \<and> sorted_wrt (<) (y # zs)" for x :: "'a :: order"
  by (rule sorted_wrt2) (rule transp_on_less)

lemma sorted_unique_loop_pos:
  "index > 0 \<Longrightarrow> sorted_unique_loop n l index previous vs = Inr u
     \<longleftrightarrow> list_all (bounded_str l) vs \<and> sorted_wrt (<) (previous # vs)"
proof (induction vs arbitrary: index previous)
  case (Cons v vs)
  then show ?case
    by (simp only: sorted_wrt_less_Cons2 sorted_unique_loop.simps list.pred_inject) (auto simp: res_iff)
qed simp

lemma validate_sorted_unique_Inr [res_iff]:
  "validate_sorted_unique n vs l = Inr u \<longleftrightarrow> sorted_entries l vs"
  by (cases vs) (auto simp: validate_sorted_unique_def sorted_entries_def sorted_unique_loop_pos res_iff)

lemma validate_scopes_loop_Inr:
  "validate_scopes_loop n index previous ss = Inr u
     \<longleftrightarrow> list_all wf_scope ss \<and> sorted_wrt (<) (previous # map resource_kind ss)"
proof (induction ss arbitrary: index previous)
  case (Cons s ss)
  then show ?case
    by (simp only: sorted_wrt_less_Cons2 validate_scopes_loop.simps list.pred_inject list.map)
      (auto simp: res_iff wf_scope_def [of s] Suc_le_eq)
qed simp

lemma bounded_str_gt_empty: "bounded_str l s \<Longrightarrow> Str [] < s"
  by (cases s) (auto simp: bounded_str_def less_le)

lemma validate_scopes_Inr [res_iff]: "validate_scopes n ss = Inr u \<longleftrightarrow> wf_scopes ss"
proof -
  have "sorted_wrt (<) (Str [] # map resource_kind ss) \<longleftrightarrow> sorted_wrt (<) (map resource_kind ss)"
    if "list_all wf_scope ss"
    using that by (auto simp: wf_scope_def list_all_iff intro: bounded_str_gt_empty)
  then show ?thesis
    by (auto simp: validate_scopes_def validate_scopes_loop_Inr wf_scopes_def)
qed

lemma validate_chain_Inr [res_iff]:
  "validate_chain index previous as = Inr u \<longleftrightarrow> list_all wf_actor as
     \<and> list_all (\<lambda>(p, q). scopes_attenuate p q) (zip (previous # map granted_scopes as) (map granted_scopes as))"
  by (induction as arbitrary: index previous) (auto simp: res_iff wf_actor_def)

lemma validate_optional_Inr [res_iff]:
  "validate_optional nv = Inr u \<longleftrightarrow> pred_option (bounded_str MAX_ID_BYTES) (snd nv)"
  by (cases nv) (auto simp: validate_optional_def res_iff split: option.splits)

lemma validate_work_context_wf: "validate_work_context c = Inr u \<longleftrightarrow> wf_context c"
  by (auto simp: validate_work_context_def wf_context_def res_iff list_all_iff Let_def scope_chain_def
      split: prod.splits)

lemma match_expectations_Inr [res_iff]:
  "match_expectations c e = Inr u \<longleftrightarrow>
     list_all (\<lambda>(_, got, want). want = Str [] \<or> got = want) (expected_fields c e)
     \<and> pred_option (\<lambda>want. case_option (Str []) id (parent_session_id c) = want) (exp_parent_session_id e)
     \<and> pred_option (\<lambda>want. authorization_revision c = want) (exp_authorization_revision e)"
  by (auto simp: match_expectations_def res_iff list_all_iff truthy_iff id_def split: option.splits prod.splits)

section \<open>Scopes as sets of permissions\<close>

text \<open>
  What a scope list authorises: triples of a resource kind, an action and a resource
  identifier. An empty \<open>resource_ids\<close> is the wildcard: every identifier.
\<close>

definition permits :: "work_scope \<Rightarrow> (pystr \<times> pystr \<times> pystr) set" where
  "permits s = {(k, a, r). k = resource_kind s \<and> a \<in> set (actions s)
     \<and> (resource_ids s = [] \<or> r \<in> set (resource_ids s))}"

definition authority :: "work_scope list \<Rightarrow> (pystr \<times> pystr \<times> pystr) set" where
  "authority ss = (\<Union>s \<in> set ss. permits s)"

definition narrows :: "work_scope \<Rightarrow> work_scope \<Rightarrow> bool" where
  "narrows anc s \<longleftrightarrow> set (actions s) \<subseteq> set (actions anc)
     \<and> (resource_ids anc = [] \<or> resource_ids s \<noteq> [] \<and> set (resource_ids s) \<subseteq> set (resource_ids anc))"

lemma subset_iff: "subset xs ys \<longleftrightarrow> set xs \<subseteq> set ys"
  by (auto simp: subset_def list_all_iff)

lemma attenuate_loop_iff:
  "attenuate_loop m ss \<longleftrightarrow>
     list_all (\<lambda>s. case m (resource_kind s) of None \<Rightarrow> False | Some anc \<Rightarrow> narrows anc s) ss"
  by (induction ss) (auto simp: subset_iff narrows_def split: option.splits)

lemma parent_by_kind_SomeD: "parent_by_kind ss k = Some s \<Longrightarrow> s \<in> set ss \<and> resource_kind s = k"
  unfolding parent_by_kind_def by (drule map_of_SomeD) auto

lemma parent_by_kind_distinct:
  "distinct (map resource_kind ss) \<Longrightarrow> s \<in> set ss \<Longrightarrow> parent_by_kind ss (resource_kind s) = Some s"
  unfolding parent_by_kind_def
  by (rule map_of_is_SomeI) (auto simp: rev_map [symmetric] comp_def distinct_rev)

lemma narrows_permits: "narrows anc s \<Longrightarrow> resource_kind s = resource_kind anc \<Longrightarrow> permits s \<subseteq> permits anc"
  by (auto simp: narrows_def permits_def)

text \<open>Attenuation never enlarges authority, with or without validation.\<close>

lemma scopes_attenuate_authority: "scopes_attenuate p c \<Longrightarrow> authority c \<subseteq> authority p"
proof -
  assume att: "scopes_attenuate p c"
  have "permits s \<subseteq> authority p" if "s \<in> set c" for s
  proof -
    from att that obtain anc where "parent_by_kind p (resource_kind s) = Some anc" "narrows anc s"
      by (auto simp: scopes_attenuate_def attenuate_loop_iff list_all_iff split: option.splits)
    then show ?thesis
      using narrows_permits [of anc s] parent_by_kind_SomeD [of p _ anc] by (auto simp: authority_def)
  qed
  then show ?thesis by (auto simp: authority_def)
qed

lemma permits_nonempty: "actions s \<noteq> [] \<Longrightarrow> \<exists>a r. (resource_kind s, a, r) \<in> permits s"
proof -
  assume "actions s \<noteq> []"
  then obtain a where "a \<in> set (actions s)" by (cases "actions s") auto
  moreover obtain r where "resource_ids s = [] \<or> r \<in> set (resource_ids s)"
    by (cases "resource_ids s") auto
  ultimately show ?thesis by (auto simp: permits_def)
qed

lemma permits_narrows:
  assumes sub: "permits s \<subseteq> permits anc" and ne: "actions s \<noteq> []"
  shows "narrows anc s"
proof -
  obtain r0 where r0: "resource_ids s = [] \<or> r0 \<in> set (resource_ids s)"
    by (cases "resource_ids s") auto
  obtain a0 where a0: "a0 \<in> set (actions s)" using ne by (cases "actions s") auto
  have acts: "set (actions s) \<subseteq> set (actions anc)"
    using sub r0 by (auto simp: permits_def subset_eq)
  have rids: "r \<in> set (resource_ids anc)"
    if "resource_ids anc \<noteq> []" "resource_ids s = [] \<or> r \<in> set (resource_ids s)" for r
    using sub a0 that by (auto simp: permits_def subset_eq)
  have "resource_ids s \<noteq> []" if "resource_ids anc \<noteq> []"
    using rids [OF that] fresh_pystr [of "resource_ids anc"] by auto
  with acts rids show ?thesis by (auto simp: narrows_def)
qed

text \<open>
  On scope lists as the validator admits them, the loop decides exactly the inclusion of
  the permissions.
\<close>

lemma authority_scopes_attenuate:
  assumes dist: "distinct (map resource_kind p)" and ne: "\<forall>s \<in> set c. actions s \<noteq> []"
    and sub: "authority c \<subseteq> authority p"
  shows "scopes_attenuate p c"
proof -
  have "\<exists>anc. parent_by_kind p (resource_kind s) = Some anc \<and> narrows anc s" if s: "s \<in> set c" for s
  proof -
    from ne s obtain a r where ar: "(resource_kind s, a, r) \<in> permits s"
      using permits_nonempty by blast
    with s sub have "(resource_kind s, a, r) \<in> authority p" by (auto simp: authority_def)
    then obtain anc where anc: "anc \<in> set p" "resource_kind anc = resource_kind s"
      by (auto simp: authority_def permits_def)
    have only: "anc' = anc" if "anc' \<in> set p" "resource_kind anc' = resource_kind s" for anc'
      using dist anc that by (auto simp: distinct_map inj_on_def)
    have "permits s \<subseteq> permits anc"
    proof
      fix x assume x: "x \<in> permits s"
      with s sub obtain anc' where "anc' \<in> set p" "x \<in> permits anc'" by (auto simp: authority_def)
      moreover from x this have "resource_kind anc' = resource_kind s" by (auto simp: permits_def)
      ultimately show "x \<in> permits anc" using only by blast
    qed
    with ne s have "narrows anc s" by (auto intro: permits_narrows)
    with anc dist show ?thesis using parent_by_kind_distinct [of p anc] by auto
  qed
  then show ?thesis
    by (fastforce simp: scopes_attenuate_def attenuate_loop_iff list_all_iff)
qed

lemma wf_scopes_distinct: "wf_scopes ss \<Longrightarrow> distinct (map resource_kind ss)"
  by (auto simp: wf_scopes_def strict_sorted_iff)

lemma wf_scopes_actions: "wf_scopes ss \<Longrightarrow> \<forall>s \<in> set ss. actions s \<noteq> []"
  by (auto simp: wf_scopes_def wf_scope_def list_all_iff)

text \<open>Along a validated chain every link narrows, so the last link is within the first.\<close>

lemma chain_authority:
  "list_all (\<lambda>(p, q). scopes_attenuate p q) (zip (x # xs) xs) \<Longrightarrow> y \<in> set (x # xs) \<Longrightarrow>
     authority (last (x # xs)) \<subseteq> authority y \<and> authority y \<subseteq> authority x"
proof (induction xs arbitrary: x y)
  case (Cons z zs)
  then have xz: "authority z \<subseteq> authority x" by (auto dest: scopes_attenuate_authority)
  from Cons.prems have zs: "list_all (\<lambda>(p, q). scopes_attenuate p q) (zip (z # zs) zs)" by simp
  then have last: "authority (last (z # zs)) \<subseteq> authority z" using Cons.IH [of z z] by simp
  show ?case
  proof (cases "y = x")
    case True
    with xz last show ?thesis by auto
  next
    case False
    with Cons.prems have "y \<in> set (z # zs)" by auto
    with Cons.IH [OF zs] xz show ?thesis by auto
  qed
qed simp

lemma effective_scopes_last: "effective_scopes c = last (scope_chain c)"
  by (simp add: effective_scopes_def scope_chain_def last_map)

lemma wf_context_attenuates:
  assumes "wf_context c" and "ss \<in> set (scope_chain c)"
  shows "authority (effective_scopes c) \<subseteq> authority ss"
    and "authority ss \<subseteq> authority (authority_scopes c)"
proof -
  from assms(1) have "list_all (\<lambda>(p, q). scopes_attenuate p q)
      (zip (authority_scopes c # map granted_scopes (actor_chain c)) (map granted_scopes (actor_chain c)))"
    by (simp add: wf_context_def scope_chain_def)
  from chain_authority [OF this, of ss] assms(2)
  show "authority (effective_scopes c) \<subseteq> authority ss" "authority ss \<subseteq> authority (authority_scopes c)"
    by (simp_all add: effective_scopes_last scope_chain_def)
qed

section \<open>Scope requirements\<close>

definition allows :: "scope_requirement \<Rightarrow> work_scope \<Rightarrow> bool" where
  "allows r s \<longleftrightarrow> resource_kind s = req_resource_kind r \<and> req_action r \<in> set (actions s)
     \<and> (resource_ids s = [] \<and> \<not> require_explicit_resource r
        \<or> req_resource_id r \<noteq> Str [] \<and> req_resource_id r \<in> set (resource_ids s))"

definition wf_requirement :: "scope_requirement \<Rightarrow> bool" where
  "wf_requirement r \<longleftrightarrow> bounded_str MAX_KIND_BYTES (req_resource_kind r)
     \<and> bounded_str MAX_KIND_BYTES (req_action r)
     \<and> (bounded_str MAX_ID_BYTES (req_resource_id r)
        \<or> \<not> require_explicit_resource r \<and> req_resource_id r = Str [])"

lemma scope_granted_iff: "scope_granted r ss \<longleftrightarrow> list_ex (allows r) ss"
  by (induction ss) (auto simp: allows_def truthy_iff)

lemma require_scope_Inr:
  "require_scope c r = Inr u \<longleftrightarrow>
     wf_context c \<and> wf_requirement r \<and> list_ex (allows r) (effective_scopes c)"
  by (auto simp: require_scope_def res_iff validate_work_context_wf validate_bounded_optional
      scope_granted_iff wf_requirement_def)

lemma allows_permits:
  "allows r s \<Longrightarrow> req_resource_id r \<noteq> Str [] \<Longrightarrow>
     (req_resource_kind r, req_action r, req_resource_id r) \<in> permits s"
  "allows r s \<Longrightarrow> req_resource_id r = Str [] \<Longrightarrow> (req_resource_kind r, req_action r, x) \<in> permits s"
  by (auto simp: allows_def permits_def)

text \<open>A granted requirement names a permission; without a resource id, one on every resource.\<close>

lemma require_scope_authority:
  assumes "require_scope c r = Inr u" and "req_resource_id r \<in> {Str [], x}"
  shows "(req_resource_kind r, req_action r, x) \<in> authority (effective_scopes c)"
proof -
  from assms(1) obtain s where "s \<in> set (effective_scopes c)" "allows r s"
    by (auto simp: require_scope_Inr list_ex_iff)
  with assms(2) allows_permits [of r s] show ?thesis by (auto simp: authority_def)
qed

section \<open>The interface of a verifier\<close>

text \<open>
  What a service relies on when it receives claims from a verifier, whichever one it is:
  claims that come back are structurally valid and meet the caller's expectations. Then a
  scope check on them can only grant what the owner, and every actor on the way, holds.
\<close>

locale claims_source =
  fixes source :: "'s \<Rightarrow> pystr \<Rightarrow> expectations \<Rightarrow> exn + work_context"
  assumes source_valid: "source s token e = Inr c \<Longrightarrow> validate_work_context c = Inr ()"
    and source_expected: "source s token e = Inr c \<Longrightarrow> match_expectations c e = Inr ()"
begin

lemma source_wf: "source s token e = Inr c \<Longrightarrow> wf_context c"
  using source_valid validate_work_context_wf by blast

lemma authorised_within_chain:
  assumes "source s token e = Inr c" and "require_scope c r = Inr u"
    and "ss \<in> set (scope_chain c)" and "req_resource_id r \<in> {Str [], x}"
  shows "(req_resource_kind r, req_action r, x) \<in> authority ss"
  using require_scope_authority [OF assms(2,4)] wf_context_attenuates(1) [OF source_wf [OF assms(1)] assms(3)]
  by blast

lemma audience_bound:
  "source s token e = Inr c \<Longrightarrow> exp_audience e \<noteq> Str [] \<Longrightarrow> audience c = exp_audience e"
  by (drule source_expected) (auto simp: res_iff expected_fields_def)

lemma lifetime_bound:
  "source s token e = Inr c \<Longrightarrow> expires_at_unix c \<le> issued_at_unix c + MAX_TTL_SECONDS"
  by (drule source_wf) (simp add: wf_context_def)

end

section \<open>Properties of the validators\<close>

text \<open>C18: the validation loops accept exactly the contexts the declarative contract
  describes: type, algorithm, bounded identifiers, replay policy, times and lifetime,
  depth, sorted entries, well-formed scopes, and attenuation between neighbours.\<close>

theorem validate_work_context_exact: "validate_work_context c = Inr () \<longleftrightarrow> wf_context c"
  by (rule validate_work_context_wf)

text \<open>C19: on scope lists the validator admits, \<open>_scopes_attenuate\<close> decides exactly the
  inclusion of what the child authorises in what the parent authorises, the wildcard of an
  empty \<open>resource_ids\<close> included.\<close>

theorem scopes_attenuate_exact:
  assumes "wf_scopes parent" and "wf_scopes child"
  shows "scopes_attenuate parent child \<longleftrightarrow> authority child \<subseteq> authority parent"
  using scopes_attenuate_authority
    authority_scopes_attenuate [OF wf_scopes_distinct [OF assms(1)] wf_scopes_actions [OF assms(2)]]
  by blast

definition wildcard_scope :: work_scope where
  "wildcard_scope = \<lparr>resource_kind = lit ''doc'', actions = [lit ''read'', lit ''write''], resource_ids = []\<rparr>"

definition narrow_scope :: work_scope where
  "narrow_scope = \<lparr>resource_kind = lit ''doc'', actions = [lit ''read''], resource_ids = [lit ''7'']\<rparr>"

lemma scope_examples: "wf_scopes [wildcard_scope]" "wf_scopes [narrow_scope]"
  by code_simp+

theorem scopes_attenuate_exact_witness:
  "scopes_attenuate [wildcard_scope] [narrow_scope] \<and> \<not> authority [wildcard_scope] \<subseteq> authority [narrow_scope]"
proof
  show "scopes_attenuate [wildcard_scope] [narrow_scope]" by code_simp
  have "\<not> scopes_attenuate [narrow_scope] [wildcard_scope]" by code_simp
  then show "\<not> authority [wildcard_scope] \<subseteq> authority [narrow_scope]"
    using scopes_attenuate_exact [OF scope_examples(2,1)] by simp
qed

text \<open>\<open>require_scope\<close> returns exactly for a valid context and a well-formed requirement
  of which one effective scope has the kind and the action, and either is unrestricted
  (where no explicit resource is demanded) or names the required resource.\<close>

theorem require_scope_exact:
  "require_scope c r = Inr () \<longleftrightarrow> wf_context c \<and> wf_requirement r
     \<and> (\<exists>s \<in> set (effective_scopes c). allows r s)"
  by (simp add: require_scope_Inr list_ex_iff)

end
