(* ===== verification/Token.thy ===== *)
theory Token
  imports Base64 Claims
begin

text \<open>
  The presented token: its two-segment shape, the canonical core payload, and
  \<open>Verifier\<close>, which checks a token against a fixed set of Ed25519 keys.

  The protobuf runtime and the Ed25519 primitive are third-party code: they are the
  parameters of a \<open>library\<close> record. The message type \<open>WorkContextV1\<close> has the fields of
  \<open>_gen/work_context_pb2.pyi\<close>, integers at their wire width; \<open>None\<close> is an optional field
  that is not present. Clock readings are whole microseconds (Python's resolution), so
  \<open>now().timestamp()\<close> and \<open>total_seconds()\<close> are read exactly.
\<close>

section \<open>Token text\<close>

abbreviation MAX_TOKEN_BYTES :: nat where "MAX_TOKEN_BYTES \<equiv> 32768"
abbreviation ED25519_PUBLIC_KEY_SIZE :: nat where "ED25519_PUBLIC_KEY_SIZE \<equiv> 32"
abbreviation ED25519_SIGNATURE_SIZE :: nat where "ED25519_SIGNATURE_SIZE \<equiv> 64"

text \<open>The code point of \<open>"."\<close>.\<close>

abbreviation DOT :: nat where "DOT \<equiv> 46"

definition validate_token_shape :: "pystr \<Rightarrow> exn + unit" where
  "validate_token_shape encoded =
     (if \<not> truthy encoded then Inl (WorkContextError (Msg ''empty token''))
      else case utf8_encode encoded of
        None \<Rightarrow> Inl UnicodeEncodeError
      | Some b \<Rightarrow>
          if length b > MAX_TOKEN_BYTES then Inl (WorkContextError (Msg ''token exceeds 32768 bytes''))
          else if str_count DOT encoded \<noteq> 1
          then Inl (WorkContextError (Msg ''token must have exactly two segments''))
          else Inr ())"

definition decode_token :: "pystr \<Rightarrow> exn + (bytes \<times> bytes)" where
  "decode_token encoded =
     thenR (validate_token_shape encoded)
       (let (payload_segment, signature_segment) = split_once DOT encoded in
        bindR (decode_canonical payload_segment (L ''payload'')) (\<lambda>payload.
        bindR (decode_canonical signature_segment (L ''signature'')) (\<lambda>signature.
          if length signature \<noteq> ED25519_SIGNATURE_SIZE
          then Inl (WorkContextError (Msg ''signature must be 64 bytes''))
          else Inr (payload, signature))))"

text \<open>The wire form the module documents: \<open>base64url(payload).base64url(sig)\<close>.\<close>

definition wire_token :: "bytes \<Rightarrow> bytes \<Rightarrow> pystr" where
  "wire_token payload signature =
     Str (codes (b64url_encode payload) @ DOT # codes (b64url_encode signature))"

lemma validate_token_shape_Inr [res_iff]:
  "validate_token_shape t = Inr u \<longleftrightarrow> t \<noteq> Str [] \<and> str_count DOT t = 1
     \<and> (case utf8_encode t of None \<Rightarrow> False | Some b \<Rightarrow> length b \<le> MAX_TOKEN_BYTES)"
  by (auto simp: validate_token_shape_def truthy_iff split: option.splits)

lemma wire_token_facts:
  "split_once DOT (wire_token p s) = (b64url_encode p, b64url_encode s)"
  "str_count DOT (wire_token p s) = 1"
  "utf8_encode (wire_token p s) = Some (map word_of_nat (codes (wire_token p s)))"
  "wire_token p s \<noteq> Str []"
  using b64.join_split b64.join_count b64.join_utf8 by (simp_all add: wire_token_def)

lemma wire_token_inject: "wire_token p s = wire_token p' s' \<longleftrightarrow> p = p' \<and> s = s'"
proof
  assume eq: "wire_token p s = wire_token p' s'"
  have "(b64url_encode p, b64url_encode s) = (b64url_encode p', b64url_encode s')"
    using wire_token_facts(1) [of p s] wire_token_facts(1) [of p' s'] unfolding eq by metis
  then show "p = p' \<and> s = s'" by (simp add: b64.enc_inject)
qed simp

text \<open>Exactly the wire forms within the size bound decode, each to its own bytes.\<close>

lemma decode_token_Inr:
  "decode_token t = Inr (p, s) \<longleftrightarrow>
     t = wire_token p s \<and> length s = ED25519_SIGNATURE_SIZE \<and> length (codes t) \<le> MAX_TOKEN_BYTES"
proof
  assume d: "decode_token t = Inr (p, s)"
  then have segs: "split_once DOT t = (b64url_encode p, b64url_encode s)" and len: "length s = ED25519_SIGNATURE_SIZE"
    by (auto simp: decode_token_def res_iff b64.dec_iff split: prod.splits if_splits)
  from d have shape: "validate_token_shape t = Inr ()" by (auto simp: decode_token_def res_iff)
  then have "DOT \<in> set (codes t)" by (auto simp: res_iff str_count_def intro: ccontr)
  from split_once_join [OF this] segs have t: "t = wire_token p s"
    by (cases t) (simp add: wire_token_def)
  with shape have "length (codes t) \<le> MAX_TOKEN_BYTES" by (auto simp: res_iff wire_token_facts)
  with t len show "t = wire_token p s \<and> length s = ED25519_SIGNATURE_SIZE \<and> length (codes t) \<le> MAX_TOKEN_BYTES"
    by simp
next
  assume "t = wire_token p s \<and> length s = ED25519_SIGNATURE_SIZE \<and> length (codes t) \<le> MAX_TOKEN_BYTES"
  then show "decode_token t = Inr (p, s)"
    by (auto simp: decode_token_def res_iff b64.dec_iff wire_token_facts)
qed

section \<open>The core message\<close>

record core_scope =
  pb_resource_kind :: pystr
  pb_actions :: "pystr list"
  pb_resource_ids :: "pystr list"

record core_actor =
  pb_principal_id :: pystr
  pb_principal_kind :: pystr
  pb_delegation_id :: pystr
  pb_granted_scopes :: "core_scope list"
  pb_agent_id :: "pystr option"
  pb_actor_organization_id :: "pystr option"
  pb_actor_principal_epoch :: "64 word"

record core_seal =
  pb_principal_epoch :: "64 word"
  pb_installation_id :: pystr
  pb_installation_revision :: "64 word"

record core_operation_binding =
  pb_binding_id :: pystr
  pb_revision :: "64 word"
  pb_incarnation :: "64 word"

record core_approver =
  pb_approver_principal_id :: pystr
  pb_approver_principal_kind :: pystr

record core_grant_hop =
  pb_grant_id :: pystr
  pb_approvers :: "core_approver list"
  pb_granted_scope :: "core_scope option"
  pb_subject :: pystr
  pb_request_digest :: pystr

record core_context =
  pb_typ :: pystr
  pb_algorithm :: pystr
  pb_key_id :: pystr
  pb_issuer :: pystr
  pb_audience :: pystr
  pb_not_before_unix :: "64 word"
  pb_issued_at_unix :: "64 word"
  pb_expires_at_unix :: "64 word"
  pb_nonce :: pystr
  pb_authorization_revision :: "64 word"
  pb_replay_policy :: pystr
  pb_tenant_id :: pystr
  pb_owner_principal_id :: pystr
  pb_task_id :: pystr
  pb_session_id :: pystr
  pb_parent_session_id :: "pystr option"
  pb_authority_scopes :: "core_scope list"
  pb_actor_chain :: "core_actor list"
  pb_attribution_team_ids :: "pystr list"
  pb_workspace_id :: "pystr option"
  pb_project_id :: "pystr option"
  pb_owner_principal_kind :: "pystr option"
  pb_owner_agent_id :: "pystr option"
  pb_organization_id :: "pystr option"
  pb_grant_hop :: "core_grant_hop option"
  pb_seal :: "core_seal option"
  pb_operation_binding :: "core_operation_binding option"
  pb_unknown_fields :: bytes

text \<open>
  The library calls: \<open>ParseFromString\<close> (\<open>None\<close> when it raises),
  \<open>DiscardUnknownFields\<close>, \<open>SerializeToString(deterministic=True)\<close>,
  \<open>Ed25519PublicKey.from_public_bytes\<close> and \<open>verify\<close> (\<open>False\<close> for \<open>InvalidSignature\<close>).
\<close>

record 'key library =
  lib_parse :: "bytes \<Rightarrow> core_context option"
  lib_discard_unknown :: "core_context \<Rightarrow> core_context"
  lib_serialize :: "core_context \<Rightarrow> bytes"
  lib_load_key :: "bytes \<Rightarrow> exn + 'key"
  lib_verify :: "'key \<Rightarrow> bytes \<Rightarrow> bytes \<Rightarrow> bool"

definition decode_core_payload :: "'key library \<Rightarrow> bytes \<Rightarrow> exn + core_context" where
  "decode_core_payload lib payload =
     (if take 1 payload = [0x7B]
      then Inl (WorkContextError (Msg ''payload is a JSON object, not a core Work Context''))
      else case lib_parse lib payload of
        None \<Rightarrow> Inl (WorkContextError (Msg ''payload is not a WorkContextV1''))
      | Some parsed \<Rightarrow>
          let context = lib_discard_unknown lib parsed in
          if lib_serialize lib context \<noteq> payload
          then Inl (WorkContextError (Msg ''payload is not the canonical encoding of its claims''))
          else Inr context)"

definition probe_key_id :: "'key library \<Rightarrow> bytes \<Rightarrow> exn + pystr" where
  "probe_key_id lib payload =
     bindR (decode_core_payload lib payload) (\<lambda>context.
     thenR (validate_bounded (L ''key_id'') (pb_key_id context) MAX_KIND_BYTES True)
       (Inr (pb_key_id context)))"

definition scopes_of :: "core_scope list \<Rightarrow> work_scope list" where
  "scopes_of = map (\<lambda>s. \<lparr>resource_kind = pb_resource_kind s, actions = pb_actions s,
     resource_ids = pb_resource_ids s\<rparr>)"

definition work_context_of :: "core_context \<Rightarrow> work_context" where
  "work_context_of m = \<lparr>wc_typ = pb_typ m, algorithm = pb_algorithm m, key_id = pb_key_id m,
     issuer = pb_issuer m, audience = pb_audience m,
     not_before_unix = sint (pb_not_before_unix m), issued_at_unix = sint (pb_issued_at_unix m),
     expires_at_unix = sint (pb_expires_at_unix m), nonce = pb_nonce m,
     authorization_revision = uint (pb_authorization_revision m), replay_policy = pb_replay_policy m,
     tenant_id = pb_tenant_id m, owner_principal_id = pb_owner_principal_id m,
     task_id = pb_task_id m, session_id = pb_session_id m, parent_session_id = None,
     authority_scopes = scopes_of (pb_authority_scopes m),
     actor_chain = map (\<lambda>a. \<lparr>principal_id = pb_principal_id a, principal_kind = pb_principal_kind a,
       delegation_id = pb_delegation_id a, granted_scopes = scopes_of (pb_granted_scopes a)\<rparr>)
       (pb_actor_chain m),
     attribution_team_ids = pb_attribution_team_ids m,
     workspace_id = pb_workspace_id m, project_id = pb_project_id m\<rparr>"

definition unmarshal :: "'key library \<Rightarrow> bytes \<Rightarrow> exn + work_context" where
  "unmarshal lib payload = bindR (decode_core_payload lib payload) (\<lambda>m. Inr (work_context_of m))"

section \<open>Verifier\<close>

text \<open>\<open>_CLOCK_SKEW\<close>, in microseconds.\<close>

definition CLOCK_SKEW :: int where
  "CLOCK_SKEW = 60 * 1000000"

record 'key verifier =
  ver_keys :: "pystr \<rightharpoonup> 'key"
  ver_clock_skew :: int

fun load_keys :: "'key library \<Rightarrow> (pystr \<times> bytes) list \<Rightarrow> (pystr \<rightharpoonup> 'key) \<Rightarrow> exn + (pystr \<rightharpoonup> 'key)" where
  "load_keys lib [] keys = Inr keys"
| "load_keys lib ((kid, raw) # rest) keys =
     thenR (validate_bounded (L ''key_id'') kid MAX_KIND_BYTES True)
     (thenR (guardR (length raw \<noteq> ED25519_PUBLIC_KEY_SIZE)
        (WorkContextError (Quoting ''public key must be 32 bytes'' kid)))
     (bindR (lib_load_key lib raw) (\<lambda>key. load_keys lib rest (keys(kid \<mapsto> key)))))"

text \<open>\<open>Verifier.__init__\<close>; the dictionary is given as its items in order.\<close>

definition verifier_init :: "'key library \<Rightarrow> (pystr \<times> bytes) list \<Rightarrow> int \<Rightarrow> exn + 'key verifier" where
  "verifier_init lib public_keys skew =
     thenR (guardR (public_keys = []) (WorkContextError (Msg ''no public verification keys'')))
     (bindR (load_keys lib public_keys Map.empty) (\<lambda>keys.
      thenR (guardR (skew < 0 \<or> skew > CLOCK_SKEW)
        (WorkContextError (Msg ''clock skew must be between zero and 0:01:00'')))
      (Inr \<lparr>ver_keys = keys, ver_clock_skew = skew\<rparr>)))"

definition validate_time :: "'key verifier \<Rightarrow> int \<Rightarrow> work_context \<Rightarrow> exn + unit" where
  "validate_time v now c =
     (let skew = ver_clock_skew v in
      if now < not_before_unix c * 1000000 - skew
      then Inl (WorkContextError (Msg ''token is not active yet''))
      else if issued_at_unix c * 1000000 > now + skew
      then Inl (WorkContextError (Msg ''token was issued in the future''))
      else if now > expires_at_unix c * 1000000 + skew
      then Inl (WorkContextError (Msg ''token expired''))
      else Inr ())"

text \<open>\<open>Verifier.verify\<close>; \<open>now\<close> is the clock reading \<open>_validate_time\<close> takes.\<close>

definition verify :: "'key library \<Rightarrow> 'key verifier \<Rightarrow> int \<Rightarrow> pystr \<Rightarrow> expectations \<Rightarrow> exn + work_context" where
  "verify lib v now encoded expected =
     bindR (decode_token encoded) (\<lambda>(payload, signature).
     bindR (probe_key_id lib payload) (\<lambda>kid.
     case ver_keys v kid of
       None \<Rightarrow> Inl (WorkContextError (Quoting ''unknown key id'' kid))
     | Some public_key \<Rightarrow>
         thenR (guardR (\<not> lib_verify lib public_key signature payload)
           (WorkContextError (Msg ''signature verification failed'')))
         (bindR (unmarshal lib payload) (\<lambda>context.
          thenR (validate_work_context context)
          (thenR (validate_time v now context)
          (thenR (match_expectations context expected) (Inr context)))))))"

section \<open>What a verifier accepts\<close>

text \<open>The payload is the canonical encoding of the message \<open>m\<close>.\<close>

definition canonical_payload :: "'key library \<Rightarrow> bytes \<Rightarrow> core_context \<Rightarrow> bool" where
  "canonical_payload lib payload m \<longleftrightarrow> take 1 payload \<noteq> [0x7B]
     \<and> map_option (lib_discard_unknown lib) (lib_parse lib payload) = Some m \<and> lib_serialize lib m = payload"

definition in_window :: "int \<Rightarrow> int \<Rightarrow> work_context \<Rightarrow> bool" where
  "in_window skew now c \<longleftrightarrow> not_before_unix c * 1000000 - skew \<le> now
     \<and> issued_at_unix c * 1000000 \<le> now + skew \<and> now \<le> expires_at_unix c * 1000000 + skew"

definition meets :: "expectations \<Rightarrow> work_context \<Rightarrow> bool" where
  "meets e c \<longleftrightarrow> list_all (\<lambda>(_, got, want). want = Str [] \<or> got = want) (expected_fields c e)
     \<and> pred_option (\<lambda>want. case_option (Str []) id (parent_session_id c) = want) (exp_parent_session_id e)
     \<and> pred_option (\<lambda>want. authorization_revision c = want) (exp_authorization_revision e)"

lemma decode_core_payload_Inr [res_iff]:
  "decode_core_payload lib p = Inr m \<longleftrightarrow> canonical_payload lib p m"
  by (auto simp: decode_core_payload_def canonical_payload_def Let_def split: option.splits)

interpretation payload: canonical_decoder "lib_serialize lib" "decode_core_payload lib" for lib
  by unfold_locales (simp add: res_iff canonical_payload_def)

lemma probe_key_id_Inr [res_iff]:
  "probe_key_id lib p = Inr kid \<longleftrightarrow>
     (\<exists>m. canonical_payload lib p m \<and> kid = pb_key_id m \<and> bounded_str MAX_KIND_BYTES kid)"
  by (auto simp: probe_key_id_def res_iff)

lemma unmarshal_Inr [res_iff]:
  "unmarshal lib p = Inr c \<longleftrightarrow> (\<exists>m. canonical_payload lib p m \<and> c = work_context_of m)"
  by (auto simp: unmarshal_def res_iff)

lemma canonical_payload_unique:
  "canonical_payload lib p m \<Longrightarrow> canonical_payload lib p m' \<Longrightarrow> m = m'"
  by (auto simp: canonical_payload_def)

lemma validate_time_Inr [res_iff]:
  "validate_time v now c = Inr u \<longleftrightarrow> in_window (ver_clock_skew v) now c"
  by (auto simp: validate_time_def in_window_def Let_def)

lemma match_expectations_meets: "match_expectations c e = Inr u \<longleftrightarrow> meets e c"
  by (simp add: res_iff meets_def)

text \<open>
  The facts a successful verification establishes, in one predicate: the signed bytes are
  the canonical payload of the claims and the signature is by the key the payload names.
\<close>

definition accepts :: "'key library \<Rightarrow> 'key verifier \<Rightarrow> int \<Rightarrow> expectations \<Rightarrow>
    bytes \<Rightarrow> bytes \<Rightarrow> core_context \<Rightarrow> bool" where
  "accepts lib v now e payload signature m \<longleftrightarrow>
     canonical_payload lib payload m \<and> bounded_str MAX_KIND_BYTES (pb_key_id m)
     \<and> (case ver_keys v (pb_key_id m) of None \<Rightarrow> False | Some key \<Rightarrow> lib_verify lib key signature payload)
     \<and> wf_context (work_context_of m) \<and> in_window (ver_clock_skew v) now (work_context_of m)
     \<and> meets e (work_context_of m)"

lemma accepts_iff:
  "accepts lib v now e payload signature m \<longleftrightarrow>
     (\<exists>key. canonical_payload lib payload m \<and> ver_keys v (key_id (work_context_of m)) = Some key
        \<and> lib_verify lib key signature payload \<and> wf_context (work_context_of m)
        \<and> in_window (ver_clock_skew v) now (work_context_of m) \<and> meets e (work_context_of m))"
proof -
  have "bounded_str MAX_KIND_BYTES (pb_key_id m)" if "wf_context (work_context_of m)"
    using that by (simp add: wf_context_def required_fields_def work_context_of_def)
  moreover have "key_id (work_context_of m) = pb_key_id m" by (simp add: work_context_of_def)
  ultimately show ?thesis by (auto simp: accepts_def split: option.splits)
qed

lemma verify_Inr:
  "verify lib v now t e = Inr c \<longleftrightarrow>
     (\<exists>payload signature m. t = wire_token payload signature
        \<and> length signature = ED25519_SIGNATURE_SIZE \<and> length (codes t) \<le> MAX_TOKEN_BYTES
        \<and> accepts lib v now e payload signature m \<and> c = work_context_of m)"
  (is "?L \<longleftrightarrow> ?R")
proof
  assume ?L
  then obtain p s where d: "decode_token t = Inr (p, s)"
    by (auto simp: verify_def res_iff)
  with \<open>?L\<close> obtain m m' key where "canonical_payload lib p m" "canonical_payload lib p m'"
    "bounded_str MAX_KIND_BYTES (pb_key_id m)" "ver_keys v (pb_key_id m) = Some key" "lib_verify lib key s p"
    "c = work_context_of m'" "wf_context c" "in_window (ver_clock_skew v) now c" "meets e c"
    by (auto simp: verify_def res_iff validate_work_context_wf meets_def split: option.splits)
  then have "accepts lib v now e p s m" "c = work_context_of m"
    by (auto simp: accepts_def dest: canonical_payload_unique)
  with d show ?R by (auto simp: decode_token_Inr)
next
  assume ?R
  then obtain p s m where *: "decode_token t = Inr (p, s)" "accepts lib v now e p s m" "c = work_context_of m"
    by (auto simp: decode_token_Inr)
  then have "probe_key_id lib p = Inr (pb_key_id m)" "unmarshal lib p = Inr c"
    by (auto simp: res_iff accepts_def)
  with * show ?L
    by (auto simp: verify_def accepts_def validate_work_context_wf match_expectations_meets res_iff
        split: option.splits)
qed

interpretation fixed_keys: claims_source "\<lambda>(v, now). verify lib v now" for lib
proof
  fix s token e c
  assume "(case s of (v, now) \<Rightarrow> verify lib v now) token e = Inr c"
  then obtain m where "wf_context c" "meets e c"
    by (auto simp: verify_Inr accepts_def split: prod.splits)
  then show "validate_work_context c = Inr ()" "match_expectations c e = Inr ()"
    by (simp_all add: validate_work_context_wf match_expectations_meets)
qed

text \<open>The claims never carry a parent session, whatever the message says.\<close>

lemma verify_no_parent: "verify lib v now t e = Inr c \<Longrightarrow> parent_session_id c = None"
  by (auto simp: verify_Inr work_context_of_def)

section \<open>How verification fails\<close>

text \<open>
  Every string of the claims has a UTF-8 encoding. The strings of a parsed message do
  (proto3 strings are UTF-8); a context built by hand may hold a lone surrogate.
\<close>

definition encodable_scopes :: "work_scope list \<Rightarrow> bool" where
  "encodable_scopes = list_all (\<lambda>s. encodable (resource_kind s) \<and> list_all encodable (actions s)
     \<and> list_all encodable (resource_ids s))"

definition encodable_actor :: "work_actor \<Rightarrow> bool" where
  "encodable_actor a \<longleftrightarrow> encodable (principal_id a) \<and> encodable (principal_kind a)
     \<and> encodable (delegation_id a) \<and> encodable_scopes (granted_scopes a)"

definition encodable_context :: "work_context \<Rightarrow> bool" where
  "encodable_context c \<longleftrightarrow> list_all (\<lambda>(_, value, _). encodable value) (required_fields c)
     \<and> list_all (\<lambda>(_, value). pred_option encodable value) (optional_fields c)
     \<and> list_all encodable (attribution_team_ids c) \<and> encodable_scopes (authority_scopes c)
     \<and> list_all encodable_actor (actor_chain c)"

lemma validate_bounded_raises [raises]:
  "encodable v \<Longrightarrow> raises_only is_work_context_error (validate_bounded n v l r)"
  using utf8_encode_Some_iff [of v] by (auto simp: validate_bounded_def split: option.splits)

lemma sorted_unique_loop_raises:
  "list_all encodable vs \<Longrightarrow> raises_only is_work_context_error (sorted_unique_loop n l i p vs)"
  by (induction vs arbitrary: i p) (auto intro!: raises)

lemma validate_sorted_unique_raises [raises]:
  "list_all encodable vs \<Longrightarrow> raises_only is_work_context_error (validate_sorted_unique n vs l)"
  unfolding validate_sorted_unique_def by (rule sorted_unique_loop_raises)

lemma validate_scopes_loop_raises:
  "encodable_scopes ss \<Longrightarrow> raises_only is_work_context_error (validate_scopes_loop n i p ss)"
  by (induction ss arbitrary: i p) (auto simp: encodable_scopes_def intro!: raises)

lemma validate_scopes_raises [raises]:
  "encodable_scopes ss \<Longrightarrow> raises_only is_work_context_error (validate_scopes n ss)"
  by (simp add: validate_scopes_def validate_scopes_loop_raises)

lemma validate_chain_raises [raises]:
  "list_all encodable_actor as \<Longrightarrow> raises_only is_work_context_error (validate_chain i p as)"
  by (induction as arbitrary: i p) (auto simp: encodable_actor_def intro!: raises)

lemma validate_work_context_raises [raises]:
  "encodable_context c \<Longrightarrow> raises_only is_work_context_error (validate_work_context c)"
  unfolding validate_work_context_def Let_def
  by (intro raises)
    (auto simp: encodable_context_def validate_optional_def optional_fields_def list_all_iff intro!: raises
      split: option.splits)

lemma match_expectations_raises [raises]:
  "raises_only is_work_context_error (match_expectations c e)"
  by (auto simp: match_expectations_def intro!: raises split: option.splits)

lemma decode_canonical_raises [raises]: "raises_only is_work_context_error (decode_canonical s n)"
  by (auto simp: decode_canonical_def b64url_decode_def split: option.splits)

lemma decode_token_raises [raises]: "encodable t \<Longrightarrow> raises_only is_work_context_error (decode_token t)"
  using utf8_encode_Some_iff [of t]
  by (auto simp: decode_token_def validate_token_shape_def intro!: raises split: prod.splits option.splits)

lemma decode_core_payload_raises [raises]: "raises_only is_work_context_error (decode_core_payload lib p)"
  by (auto simp: decode_core_payload_def Let_def split: option.splits)

lemma validate_time_raises [raises]: "raises_only is_work_context_error (validate_time v now c)"
  by (simp add: validate_time_def Let_def)

text \<open>\<open>parses_utf8\<close>: the parser returns messages whose strings are UTF-8.\<close>

definition parses_utf8 :: "'key library \<Rightarrow> bool" where
  "parses_utf8 lib \<longleftrightarrow> (\<forall>p m. canonical_payload lib p m \<longrightarrow> encodable_context (work_context_of m))"

lemma probe_key_id_raises [raises]:
  "parses_utf8 lib \<Longrightarrow> raises_only is_work_context_error (probe_key_id lib p)"
  by (auto simp: probe_key_id_def res_iff parses_utf8_def encodable_context_def required_fields_def
      work_context_of_def intro!: raises)

lemma unmarshal_raises [raises]: "raises_only is_work_context_error (unmarshal lib p)"
  by (auto simp: unmarshal_def intro!: raises)

lemma verify_raises [raises]:
  "encodable t \<Longrightarrow> parses_utf8 lib \<Longrightarrow> raises_only is_work_context_error (verify lib v now t e)"
  by (auto simp: verify_def res_iff parses_utf8_def intro!: raises split: option.splits)

section \<open>Properties of the token text\<close>

text \<open>C24: \<open>_decode_token\<close> returns a payload and a signature exactly for the one text
  \<open>base64url(payload).base64url(signature)\<close> with a 64-byte signature, within 32 KiB: a token
  decodes to what was encoded, and tokens are not malleable as text.\<close>

theorem decode_token_exact:
  "decode_token encoded = Inr (payload, signature) \<longleftrightarrow>
     encoded = wire_token payload signature \<and> length signature = ED25519_SIGNATURE_SIZE
     \<and> length (codes encoded) \<le> MAX_TOKEN_BYTES"
  by (rule decode_token_Inr)

end
