(* ===== verification/Json.thy ===== *)
theory Json
  imports Wc_Errors
begin

text \<open>
  JSON values as \<open>json.loads\<close> returns them, and the JSON field helpers of
  \<open>work_context.py\<close> (lines 785 to 838). A JSON object is its items; \<open>jget\<close> is
  \<open>dict.get\<close>. A float keeps its text, since nothing in the SDK computes with one.
\<close>

datatype json =
    JNull
  | JBool bool
  | JInt int
  | JFloat pystr
  | JStr pystr
  | JArr "json list"
  | JObj "(pystr \<times> json) list"

definition jget :: "(pystr \<times> json) list \<Rightarrow> string \<Rightarrow> json \<Rightarrow> json" where
  "jget document key dflt =
     (case map_of document (lit key) of None \<Rightarrow> dflt | Some value \<Rightarrow> value)"

section \<open>Field helpers\<close>

text \<open>\<open>_reject_unknown\<close>: the least unknown field is named.\<close>

definition reject_unknown :: "(pystr \<times> json) list \<Rightarrow> pystr list \<Rightarrow> string \<Rightarrow> exn + unit" where
  "reject_unknown document allowed wher =
     (case sort (filter (\<lambda>k. k \<notin> set allowed) (map fst document)) of
        [] \<Rightarrow> Inr ()
      | k # _ \<Rightarrow> Inl (WorkContextError (Quoting (''unknown field of '' @ wher) k)))"

definition require_str :: "(pystr \<times> json) list \<Rightarrow> pystr \<Rightarrow> exn + pystr" where
  "require_str document key =
     (case map_of document key of
        None \<Rightarrow> Inr (Str [])
      | Some (JStr s) \<Rightarrow> Inr s
      | Some _ \<Rightarrow> Inl (WorkContextError (Quoting ''must be a string'' key)))"

definition optional_str :: "(pystr \<times> json) list \<Rightarrow> pystr \<Rightarrow> exn + pystr option" where
  "optional_str document key =
     (case map_of document key of
        None \<Rightarrow> Inr None
      | Some (JStr s) \<Rightarrow> Inr (Some s)
      | Some _ \<Rightarrow> Inl (WorkContextError (Quoting ''must be a string'' key)))"

text \<open>\<open>True\<close> and \<open>False\<close> are instances of \<open>int\<close> in Python; the helper refuses them.\<close>

definition require_int :: "(pystr \<times> json) list \<Rightarrow> pystr \<Rightarrow> exn + int" where
  "require_int document key =
     (case map_of document key of
        None \<Rightarrow> Inr 0
      | Some (JInt i) \<Rightarrow> Inr i
      | Some _ \<Rightarrow> Inl (WorkContextError (Quoting ''must be an integer'' key)))"

fun all_strings :: "json list \<Rightarrow> pystr list option" where
  "all_strings [] = Some []"
| "all_strings (JStr s # vs) = map_option (Cons s) (all_strings vs)"
| "all_strings (_ # vs) = None"

definition require_str_list :: "(pystr \<times> json) list \<Rightarrow> pystr \<Rightarrow> exn + pystr list" where
  "require_str_list document key =
     (case map_of document key of
        None \<Rightarrow> Inr []
      | Some (JArr vs) \<Rightarrow>
          (case all_strings vs of
             None \<Rightarrow> Inl (WorkContextError (Quoting ''must be an array of strings'' key))
           | Some ss \<Rightarrow> Inr ss)
      | Some _ \<Rightarrow> Inl (WorkContextError (Quoting ''must be an array of strings'' key)))"

section \<open>Decimal uint64\<close>

definition UINT64_MAX :: nat where
  "UINT64_MAX = 2 ^ 64 - 1"

definition parse_uint64 :: "pystr \<Rightarrow> exn + nat" where
  "parse_uint64 value =
     (if \<not> truthy value \<or> \<not> list_all (\<lambda>c. c < 128) (codes value) \<or> \<not> list_all is_ascii_digit (codes value)
      then Inl (WorkContextError (Msg ''authorization_revision must be a uint64 decimal''))
      else
        let stripped = dropWhile (\<lambda>c. c = 48) (codes value);
            normalized = (if stripped = [] then [48] else stripped)
        in if length normalized > 20 \<or> decimal normalized > UINT64_MAX
           then Inl (WorkContextError (Msg ''authorization_revision must be a uint64 decimal''))
           else Inr (decimal normalized))"

lemma parse_uint64_Inr:
  "parse_uint64 s = Inr n \<longleftrightarrow>
     codes s \<noteq> [] \<and> list_all is_ascii_digit (codes s) \<and> n = decimal (codes s) \<and> n < 2 ^ 64"
proof (cases "codes s \<noteq> [] \<and> list_all is_ascii_digit (codes s)")
  case True
  then have ascii: "list_all (\<lambda>c. c < 128) (codes s)"
    by (auto simp: list_all_iff is_ascii_digit_def)
  define str where "str = dropWhile (\<lambda>c. c = 48) (codes s)"
  define norm where "norm = (if str = [] then [48] else str)"
  have dec: "decimal norm = decimal (codes s)"
    using decimal_strip [of "codes s", folded str_def] decimal_zero by (auto simp only: norm_def split: if_splits)
  have long: "2 ^ 64 \<le> decimal (codes s)" if "length norm > 20"
  proof -
    from that obtain d ds where "str = d # ds" "20 \<le> length ds"
      by (cases str) (auto simp: norm_def)
    have "(10 :: nat) ^ 20 \<le> 10 ^ length ds"
      by (rule power_increasing) (use \<open>20 \<le> length ds\<close> in simp_all)
    moreover have "10 ^ length ds \<le> decimal (codes s)"
      using decimal_long [of "codes s" d ds] True \<open>str = d # ds\<close> by (simp add: str_def)
    moreover have "(2 :: nat) ^ 64 \<le> 10 ^ 20" by simp
    ultimately show ?thesis by linarith
  qed
  have "parse_uint64 s = (if length norm > 20 \<or> decimal norm > UINT64_MAX
      then Inl (WorkContextError (Msg ''authorization_revision must be a uint64 decimal''))
      else Inr (decimal norm))"
    using True ascii by (simp add: parse_uint64_def truthy_def Let_def norm_def str_def)
  with True long dec show ?thesis by (auto simp: UINT64_MAX_def)
qed (auto simp: parse_uint64_def truthy_def)

section \<open>Printing\<close>

text \<open>\<open>NaN\<close> and the infinities are floats that JSON has no text for.\<close>

definition finite_float :: "pystr \<Rightarrow> bool" where
  "finite_float t \<longleftrightarrow> t \<notin> {lit ''NaN'', lit ''Infinity'', lit ''-Infinity''}"

text \<open>
  \<open>json.dumps(value, allow_nan=False, separators=(",", ":"))\<close>, with \<open>ensure_ascii\<close> at its
  default: \<open>None\<close> is the \<open>ValueError\<close> for a float that is not finite and for an integer of
  more than 4300 digits.
\<close>

definition hex_char :: "nat \<Rightarrow> nat" where
  "hex_char n = (if n < 10 then 48 + n else 87 + n)"

definition u_escape :: "nat \<Rightarrow> nat list" where
  "u_escape c = [92, 117, hex_char (c div 4096 mod 16), hex_char (c div 256 mod 16),
     hex_char (c div 16 mod 16), hex_char (c mod 16)]"

definition escape_char :: "nat \<Rightarrow> nat list" where
  "escape_char c =
     (if c = 34 then [92, 34] else if c = 92 then [92, 92] else if c = 10 then [92, 110]
      else if c = 13 then [92, 114] else if c = 9 then [92, 116] else if c = 12 then [92, 102]
      else if c = 8 then [92, 98] else if 32 \<le> c \<and> c \<le> 126 then [c]
      else if c < 0x10000 then u_escape c
      else u_escape (0xD800 + (c - 0x10000) div 1024) @ u_escape (0xDC00 + (c - 0x10000) mod 1024))"

definition dumps_str :: "pystr \<Rightarrow> nat list" where
  "dumps_str s = 34 # concat (map escape_char (codes s)) @ [34]"

definition dumps_int :: "int \<Rightarrow> nat list option" where
  "dumps_int i =
     (let ds = digits (nat \<bar>i\<bar>) in
      if length ds > 4300 then None else Some (if i < 0 then 45 # ds else ds))"

fun dumps :: "json \<Rightarrow> nat list option" and
    dumps_list :: "json list \<Rightarrow> nat list option" and
    dumps_items :: "(pystr \<times> json) list \<Rightarrow> nat list option" where
  "dumps JNull = Some (codes (lit ''null''))"
| "dumps (JBool b) = Some (codes (lit (if b then ''true'' else ''false'')))"
| "dumps (JInt i) = dumps_int i"
| "dumps (JFloat t) = (if finite_float t then Some (codes t) else None)"
| "dumps (JStr s) = Some (dumps_str s)"
| "dumps (JArr vs) = map_option (\<lambda>body. 91 # body @ [93]) (dumps_list vs)"
| "dumps (JObj items) = map_option (\<lambda>body. 123 # body @ [125]) (dumps_items items)"
| "dumps_list [] = Some []"
| "dumps_list (v # vs) =
     (case (dumps v, dumps_list vs) of
        (Some a, Some b) \<Rightarrow> Some (a @ (if vs = [] then [] else 44 # b)) | _ \<Rightarrow> None)"
| "dumps_items [] = Some []"
| "dumps_items ((k, v) # items) =
     (case (dumps v, dumps_items items) of
        (Some a, Some b) \<Rightarrow> Some (dumps_str k @ 58 # a @ (if items = [] then [] else 44 # b)) | _ \<Rightarrow> None)"

text \<open>Arrays and objects, empty ones included, at most \<open>d\<close> deep.\<close>

fun nested :: "nat \<Rightarrow> json \<Rightarrow> bool" where
  "nested d (JArr vs) \<longleftrightarrow> 0 < d \<and> list_all (nested (d - 1)) vs"
| "nested d (JObj items) \<longleftrightarrow> 0 < d \<and> list_all (\<lambda>(_, v). nested (d - 1) v) items"
| "nested d _ = True"

end
