(* ===== verification/Url.thy ===== *)
theory Url
  imports Py_Prelude
begin

text \<open>
  \<open>urllib.parse.urlsplit\<close> and the properties of its result the SDK reads (\<open>hostname\<close>,
  \<open>username\<close>, \<open>password\<close>, \<open>port\<close>, \<open>geturl\<close>), as CPython's \<open>urllib/parse.py\<close> has them.
  Two tables of the standard library stay parameters: \<open>netloc_ok\<close>, the checks on a
  network location that depend on the Unicode database and on \<open>ipaddress\<close> (NFKC
  characters, bracketed hosts), and \<open>lower\<close>, \<open>str.lower\<close> on a host name.
\<close>

section \<open>Splitting text\<close>

text \<open>\<open>s.partition(c)\<close> without the separator; \<open>s.rpartition(c)\<close> likewise.\<close>

definition partition_code :: "nat \<Rightarrow> nat list \<Rightarrow> nat list \<times> nat list" where
  "partition_code c cs = (takeWhile (\<lambda>x. x \<noteq> c) cs, drop 1 (dropWhile (\<lambda>x. x \<noteq> c) cs))"

definition rpartition_code :: "nat \<Rightarrow> nat list \<Rightarrow> nat list \<times> nat list" where
  "rpartition_code c cs =
     (if c \<in> set cs then (let (a, b) = partition_code c (rev cs) in (rev b, rev a)) else ([], cs))"

definition is_ascii_alpha :: "nat \<Rightarrow> bool" where
  "is_ascii_alpha c \<longleftrightarrow> 65 \<le> c \<and> c \<le> 90 \<or> 97 \<le> c \<and> c \<le> 122"

section \<open>urlsplit\<close>

record url_tables =
  netloc_ok :: "nat list \<Rightarrow> bool"
  lower :: "pystr \<Rightarrow> pystr"

record url =
  u_scheme :: "nat list"
  u_netloc :: "nat list"
  u_path :: "nat list"
  u_query :: "nat list"
  u_fragment :: "nat list"

definition scheme_char :: "nat \<Rightarrow> bool" where
  "scheme_char c \<longleftrightarrow> is_ascii_alpha c \<or> is_ascii_digit c \<or> c \<in> {43, 45, 46}"

definition split_scheme :: "nat list \<Rightarrow> nat list \<times> nat list" where
  "split_scheme cs =
     (let (s, rest) = partition_code 58 cs in
      if 58 \<in> set cs \<and> s \<noteq> [] \<and> is_ascii_alpha (hd s) \<and> list_all scheme_char s
      then (codes (lower_ascii (Str s)), rest) else ([], cs))"

text \<open>The delimiters that end a network location: slash, question mark, hash.\<close>

definition netloc_end :: "nat \<Rightarrow> bool" where
  "netloc_end c \<longleftrightarrow> c \<in> {47, 63, 35}"

definition split_netloc :: "nat list \<Rightarrow> nat list \<times> nat list" where
  "split_netloc cs =
     (if take 2 cs = [47, 47]
      then (takeWhile (\<lambda>c. \<not> netloc_end c) (drop 2 cs), dropWhile (\<lambda>c. \<not> netloc_end c) (drop 2 cs))
      else ([], cs))"

definition url_text :: "nat list \<Rightarrow> nat list" where
  "url_text cs = filter (\<lambda>c. c \<notin> {9, 10, 13}) (dropWhile (\<lambda>c. c \<le> 32) cs)"

definition urlsplit :: "url_tables \<Rightarrow> pystr \<Rightarrow> url option" where
  "urlsplit tables raw =
     (let (scheme, rest) = split_scheme (url_text (codes raw));
          (netloc, rest) = split_netloc rest;
          (rest, fragment) = partition_code 35 rest;
          (path, query) = partition_code 63 rest
      in if (91 \<in> set netloc) \<noteq> (93 \<in> set netloc) \<or> \<not> netloc_ok tables netloc then None
         else Some \<lparr>u_scheme = scheme, u_netloc = netloc, u_path = path, u_query = query, u_fragment = fragment\<rparr>)"

section \<open>What is read from the parts\<close>

definition userinfo :: "url \<Rightarrow> nat list option" where
  "userinfo u = (if 64 \<in> set (u_netloc u) then Some (fst (rpartition_code 64 (u_netloc u))) else None)"

definition username :: "url \<Rightarrow> pystr option" where
  "username u = map_option (\<lambda>i. Str (fst (partition_code 58 i))) (userinfo u)"

definition password :: "url \<Rightarrow> pystr option" where
  "password u = (case userinfo u of None \<Rightarrow> None
     | Some i \<Rightarrow> if 58 \<in> set i then Some (Str (snd (partition_code 58 i))) else None)"

text \<open>\<open>_hostinfo\<close>: the host, and the port text where it is not empty.\<close>

definition hostinfo :: "url \<Rightarrow> nat list \<times> nat list option" where
  "hostinfo u =
     (let info = snd (rpartition_code 64 (u_netloc u));
          (host, port) =
            (if 91 \<in> set info
             then let (h, rest) = partition_code 93 (snd (partition_code 91 info))
                  in (h, snd (partition_code 58 rest))
             else partition_code 58 info)
      in (host, if port = [] then None else Some port))"

definition hostname :: "url_tables \<Rightarrow> url \<Rightarrow> pystr option" where
  "hostname tables u =
     (let host = fst (hostinfo u) in
      if host = [] then None
      else Some (Str (codes (lower tables (Str (takeWhile (\<lambda>c. c \<noteq> 37) host))) @ dropWhile (\<lambda>c. c \<noteq> 37) host)))"

text \<open>\<open>None\<close> is the \<open>ValueError\<close> of a port that is no number up to 65535.\<close>

definition port_of :: "url \<Rightarrow> nat option option" where
  "port_of u =
     (case snd (hostinfo u) of
        None \<Rightarrow> Some None
      | Some p \<Rightarrow>
          if list_all is_ascii_digit p \<and> decimal p \<le> 65535 then Some (Some (decimal p)) else None)"

definition geturl :: "url \<Rightarrow> pystr" where
  "geturl u =
     (let path = u_path u;
          path = (if path \<noteq> [] \<and> hd path \<noteq> 47 then 47 # path else path);
          text = (if u_netloc u \<noteq> [] then [47, 47] @ u_netloc u @ path else u_path u);
          text = (if u_scheme u \<noteq> [] then u_scheme u @ 58 # text else text);
          text = (if u_query u \<noteq> [] then text @ 63 # u_query u else text)
      in Str (if u_fragment u \<noteq> [] then text @ 35 # u_fragment u else text))"

text \<open>\<open>geturl\<close> is called with a network location present.\<close>

section \<open>Splitting again\<close>

lemma partition_code_fst: "c \<notin> set p \<Longrightarrow> partition_code c (p @ c # q) = (p, q)"
  by (simp add: partition_code_def takeWhile_append dropWhile_append)

lemma partition_code_none: "c \<notin> set p \<Longrightarrow> partition_code c p = (p, [])"
  by (induction p) (auto simp: partition_code_def)

lemma set_partition_code:
  "partition_code c cs = (a, b) \<Longrightarrow> set a \<subseteq> set cs \<and> set b \<subseteq> set cs \<and> c \<notin> set a"
  by (auto simp: partition_code_def dest: set_takeWhileD in_set_dropD set_dropWhileD)

text \<open>What holds of the parts of any text with a network location.\<close>

definition clean_parts :: "url_tables \<Rightarrow> url \<Rightarrow> bool" where
  "clean_parts tables u \<longleftrightarrow> (\<forall>c \<in> set (u_netloc u). \<not> netloc_end c)
     \<and> (\<forall>c \<in> set (u_netloc u) \<union> set (u_path u). c \<notin> {9, 10, 13})
     \<and> (u_path u = [] \<or> hd (u_path u) = 47) \<and> 35 \<notin> set (u_path u) \<and> 63 \<notin> set (u_path u)
     \<and> (91 \<in> set (u_netloc u)) = (93 \<in> set (u_netloc u)) \<and> netloc_ok tables (u_netloc u)"

lemma urlsplit_clean:
  assumes "urlsplit tables raw = Some u" and "u_netloc u \<noteq> []"
  shows "clean_parts tables u"
proof -
  obtain scheme r1 where 1: "split_scheme (url_text (codes raw)) = (scheme, r1)" by fastforce
  obtain netloc r2 where 2: "split_netloc r1 = (netloc, r2)" by fastforce
  obtain r3 fragment where 3: "partition_code 35 r2 = (r3, fragment)" by fastforce
  obtain path query where 4: "partition_code 63 r3 = (path, query)" by fastforce
  from assms(1) 1 2 3 4 have u: "u = \<lparr>u_scheme = scheme, u_netloc = netloc, u_path = path, u_query = query, u_fragment = fragment\<rparr>"
    and ok: "(91 \<in> set netloc) = (93 \<in> set netloc)" "netloc_ok tables netloc"
    by (auto simp: urlsplit_def Let_def split: if_splits)
  from assms(2) u 2 have n: "netloc = takeWhile (\<lambda>c. \<not> netloc_end c) (drop 2 r1)"
    "r2 = dropWhile (\<lambda>c. \<not> netloc_end c) (drop 2 r1)"
    by (auto simp: split_netloc_def split: if_splits)
  have "set r1 \<subseteq> set (url_text (codes raw))"
    using 1 set_partition_code [of 58 "url_text (codes raw)"]
    by (auto simp: split_scheme_def split: prod.splits if_splits)
  then have chars: "c \<notin> {9, 10, 13}" if "c \<in> set r1" for c
    using that by (auto simp: url_text_def)
  have sub: "set netloc \<subseteq> set r1" "set r2 \<subseteq> set r1"
    unfolding n by (auto dest: set_takeWhileD set_dropWhileD in_set_dropD)
  have "path = [] \<or> hd path = 47"
  proof (cases r2)
    case (Cons c cs)
    then have "netloc_end c" using n(2) hd_dropWhile [of "\<lambda>c. \<not> netloc_end c" "drop 2 r1"] by simp
    then consider "c = 35" | "c = 63" | "c = 47" by (auto simp: netloc_end_def)
    then show ?thesis using 3 4 Cons by cases (auto simp: partition_code_def)
  qed (use 3 4 in \<open>auto simp: partition_code_def\<close>)
  moreover have "35 \<notin> set path" "63 \<notin> set path" "set path \<subseteq> set r1"
    using set_partition_code [OF 3] set_partition_code [OF 4] sub by auto
  ultimately show ?thesis
    using u ok chars sub by (auto simp: clean_parts_def n(1) dest: set_takeWhileD)
qed

text \<open>A text in normal form splits into the parts it is made of.\<close>

lemma urlsplit_compose:
  assumes scheme: "i \<noteq> []" "is_ascii_alpha (hd i)" "list_all scheme_char i"
    and clean: "clean_parts tables \<lparr>u_scheme = s, u_netloc = n, u_path = p, u_query = q, u_fragment = f\<rparr>"
  shows "urlsplit tables (Str (i @ 58 # 47 # 47 # n @ p))
     = Some \<lparr>u_scheme = codes (lower_ascii (Str i)), u_netloc = n, u_path = p, u_query = [], u_fragment = []\<rparr>"
proof -
  let ?text = "i @ 58 # 47 # 47 # n @ p"
  have schar: "c \<notin> {9, 10, 13, 58}" if "c \<in> set i" for c
    using that scheme(3) by (auto simp: list_all_iff scheme_char_def is_ascii_alpha_def is_ascii_digit_def)
  have "hd i > 32" using scheme(2) by (auto simp: is_ascii_alpha_def)
  then have "url_text ?text = ?text"
    using clean scheme(1) schar by (cases i) (auto simp: url_text_def clean_parts_def filter_id_conv)
  moreover have "partition_code 58 ?text = (i, 47 # 47 # n @ p)"
    by (rule partition_code_fst) (use schar in auto)
  then have "split_scheme ?text = (codes (lower_ascii (Str i)), 47 # 47 # n @ p)"
    using scheme by (simp add: split_scheme_def)
  moreover have "split_netloc (47 # 47 # n @ p) = (n, p)"
    using clean by (cases p)
      (auto simp: split_netloc_def clean_parts_def takeWhile_append dropWhile_append netloc_end_def)
  moreover have "partition_code 35 p = (p, [])" "partition_code 63 p = (p, [])"
    using clean by (auto simp: clean_parts_def intro!: partition_code_none)
  ultimately show ?thesis
    using clean by (simp add: urlsplit_def Let_def clean_parts_def)
qed

lemma urlsplit_geturl:
  assumes clean: "clean_parts tables u" and "u_netloc u \<noteq> []"
    and scheme: "u_scheme u \<in> {codes (lit ''http''), codes (lit ''https'')}"
    and "u_query u = []" and "u_fragment u = []"
  shows "urlsplit tables (geturl u) = Some u"
proof -
  have path: "u_path u = [] \<or> hd (u_path u) = 47" using clean by (simp add: clean_parts_def)
  then have "geturl u = Str (u_scheme u @ 58 # 47 # 47 # u_netloc u @ u_path u)"
    using assms(2,4,5) scheme by (auto simp: geturl_def Let_def)
  moreover have "u_scheme u \<noteq> []" "is_ascii_alpha (hd (u_scheme u))" "list_all scheme_char (u_scheme u)"
    "codes (lower_ascii (Str (u_scheme u))) = u_scheme u"
    using scheme by (auto simp: is_ascii_alpha_def scheme_char_def lower_ascii_def)
  moreover have "clean_parts tables \<lparr>u_scheme = [], u_netloc = u_netloc u, u_path = u_path u, u_query = [], u_fragment = []\<rparr>"
    using clean by (simp add: clean_parts_def)
  moreover have "u = \<lparr>u_scheme = u_scheme u, u_netloc = u_netloc u, u_path = u_path u, u_query = [], u_fragment = []\<rparr>"
    using assms(4,5) by simp
  ultimately show ?thesis using urlsplit_compose [of "u_scheme u" tables] by metis
qed

text \<open>A printable text without query and fragment delimiters is its parts put together.\<close>

lemma urlsplit_decompose:
  assumes split: "urlsplit tables v = Some u" and "u_scheme u \<noteq> []" and "u_netloc u \<noteq> []"
    and print: "\<forall>c \<in> set (codes v). 32 < c \<and> c \<noteq> 35 \<and> c \<noteq> 63"
  obtains i where "codes v = i @ 58 # 47 # 47 # u_netloc u @ u_path u"
    "i \<noteq> []" "is_ascii_alpha (hd i)" "list_all scheme_char i" "u_scheme u = codes (lower_ascii (Str i))"
proof -
  have tx: "url_text (codes v) = codes v"
    using print by (cases "codes v") (auto simp: url_text_def filter_id_conv)
  obtain i rest where i: "partition_code 58 (codes v) = (i, rest)" by fastforce
  from split assms(2) have s: "58 \<in> set (codes v)" "i \<noteq> []" "is_ascii_alpha (hd i)" "list_all scheme_char i"
      "u_scheme u = codes (lower_ascii (Str i))"
    and scheme: "split_scheme (codes v) = (u_scheme u, rest)"
    unfolding urlsplit_def tx split_scheme_def i by (auto simp: Let_def split: if_splits prod.splits)
  have whole: "codes v = i @ 58 # rest"
    using takeWhile_drop_join [OF s(1)] i by (auto simp: partition_code_def)
  obtain n r2 where n: "split_netloc rest = (n, r2)" by fastforce
  have no: "35 \<notin> set r2" "63 \<notin> set r2"
    using n whole print by (auto simp: split_netloc_def dest!: set_dropWhileD in_set_dropD split: if_splits)
  from split have eq: "\<lparr>u_scheme = u_scheme u, u_netloc = n, u_path = r2, u_query = [], u_fragment = []\<rparr> = u"
    using partition_code_none [OF no(1)] partition_code_none [OF no(2)]
    by (simp add: urlsplit_def tx scheme n Let_def split: if_splits)
  have u: "u_netloc u = n" "u_path u = r2"
    using arg_cong [OF eq, of u_netloc] arg_cong [OF eq, of u_path] by simp_all
  with assms(3) n have "take 2 rest = [47, 47]"
    "n = takeWhile (\<lambda>c. \<not> netloc_end c) (drop 2 rest)" "r2 = dropWhile (\<lambda>c. \<not> netloc_end c) (drop 2 rest)"
    by (auto simp: split_netloc_def split: if_splits)
  then have "take 2 rest = [47, 47]" "n @ r2 = drop 2 rest" by simp_all
  then have "rest = 47 # 47 # n @ r2" by (metis append_Cons append_Nil append_take_drop_id)
  with whole u s show thesis using that by simp
qed

text \<open>The definitions a concrete URL is evaluated with.\<close>

lemmas url_eval = urlsplit_def url_text_def split_scheme_def split_netloc_def partition_code_def
  rpartition_code_def netloc_end_def is_ascii_alpha_def scheme_char_def is_ascii_digit_def
  lower_ascii_def hostname_def hostinfo_def username_def password_def userinfo_def port_of_def
  geturl_def is_space_def

text \<open>After two slashes, a text without delimiters is the network location.\<close>

lemma urlsplit_bare_netloc:
  assumes "\<forall>c \<in> set cs. 32 < c \<and> c \<notin> {47, 63, 35}" and "urlsplit tables (Str (47 # 47 # cs)) = Some u"
  shows "u = \<lparr>u_scheme = [], u_netloc = cs, u_path = [], u_query = [], u_fragment = []\<rparr>"
proof -
  have "url_text (47 # 47 # cs) = 47 # 47 # cs"
    using assms(1) by (auto simp: url_text_def filter_id_conv)
  moreover have "split_scheme (47 # 47 # cs) = ([], 47 # 47 # cs)"
    by (simp add: split_scheme_def partition_code_def is_ascii_alpha_def)
  moreover have "takeWhile (\<lambda>c. \<not> netloc_end c) cs = cs" "dropWhile (\<lambda>c. \<not> netloc_end c) cs = []"
    using assms(1) unfolding takeWhile_eq_all_conv dropWhile_eq_Nil_conv by (auto simp: netloc_end_def)
  then have "split_netloc (47 # 47 # cs) = (cs, [])" by (simp only: split_netloc_def) simp
  ultimately show ?thesis
    using assms(2) by (simp add: urlsplit_def partition_code_def Let_def split: if_splits)
qed

end
