(* ===== verification/Machines.thy ===== *)
theory Machines
  imports Main
begin

text \<open>
  State machines in general: an invariant kept by every step holds in every state a run
  reaches (\<open>invariant_machine\<close>); when each step pays for its cost out of a bounded credit or
  an income, the cost of a whole run is bounded (\<open>amortised_machine\<close>).
\<close>

locale invariant_machine =
  fixes step :: "'s \<Rightarrow> 's \<Rightarrow> bool" and inv :: "'s \<Rightarrow> bool"
  assumes step_inv: "step s t \<Longrightarrow> inv s \<Longrightarrow> inv t"
begin

lemma run_inv: "step\<^sup>*\<^sup>* s t \<Longrightarrow> inv s \<Longrightarrow> inv t"
  by (induction rule: rtranclp_induct) (auto intro: step_inv)

end

text \<open>\<open>income\<close> never falls; a unit of income pays for \<open>rate\<close> units of cost.\<close>

locale amortised_machine = invariant_machine step inv
  for step :: "'s \<Rightarrow> 's \<Rightarrow> bool" and inv :: "'s \<Rightarrow> bool" +
  fixes cost credit income :: "'s \<Rightarrow> nat" and rate :: nat
  assumes step_cost: "step s t \<Longrightarrow> inv s \<Longrightarrow>
      cost t + credit t + rate * income s \<le> cost s + credit s + rate * income t"
    and step_income: "step s t \<Longrightarrow> income s \<le> income t"
begin

lemma run_income: "step\<^sup>*\<^sup>* s t \<Longrightarrow> income s \<le> income t"
  by (induction rule: rtranclp_induct) (auto dest: step_income)

lemma run_cost:
  "step\<^sup>*\<^sup>* s t \<Longrightarrow> inv s \<Longrightarrow>
     cost t + credit t + rate * income s \<le> cost s + credit s + rate * income t"
proof (induction rule: rtranclp_induct)
  case (step t u)
  have "inv t" using step.hyps(1) step.prems by (rule run_inv)
  with step step_cost [of t u] show ?case by simp
qed simp

text \<open>A run without income costs at most the credit it starts with.\<close>

lemma run_without_income:
  "step\<^sup>*\<^sup>* s t \<Longrightarrow> inv s \<Longrightarrow> income t = income s \<Longrightarrow> cost t \<le> cost s + credit s"
  using run_cost [of s t] by simp

end

end
