(* ===== verification/Jwks.thy ===== *)
theory Jwks
  imports Token Json Url Machines
begin

text \<open>
  \<open>JWKSVerifier\<close>: the published key set (\<open>_parse_jwks\<close>), one fetch (\<open>_fetch\<close>), the
  cached state and its operations \<open>refresh\<close>, \<open>_current\<close>, \<open>_refresh_unknown\<close> and
  \<open>verify\<close>. An operation takes the state and returns the new state with its result or
  exception, since a failed refresh also writes to the state.

  The HTTP reply, the clock readings and \<open>json.loads\<close> are inputs. The field
  \<open>jw_requests\<close> has no Python counterpart: it counts the GET requests issued.
\<close>

section \<open>The key set document\<close>

abbreviation JWKS_MAX_BYTES :: nat where "JWKS_MAX_BYTES \<equiv> 262144"
abbreviation JWKS_MAX_KEYS :: nat where "JWKS_MAX_KEYS \<equiv> 64"

definition jwk_is_ed25519 :: "(pystr \<times> json) list \<Rightarrow> bool" where
  "jwk_is_ed25519 key \<longleftrightarrow> jget key ''kty'' JNull = JStr (lit ''OKP'')
     \<and> jget key ''crv'' JNull = JStr (lit ''Ed25519'')
     \<and> jget key ''alg'' (JStr (lit [])) \<in> {JStr (lit []), JStr (lit ''EdDSA'')}
     \<and> jget key ''use'' (JStr (lit [])) \<in> {JStr (lit []), JStr (lit ''sig'')}"

definition jwk_public_key :: "json \<Rightarrow> bytes" where
  "jwk_public_key x =
     (case x of JStr s \<Rightarrow> (case b64url_decode s of Inl _ \<Rightarrow> [] | Inr decoded \<Rightarrow> decoded) | _ \<Rightarrow> [])"

fun parse_keys :: "json list \<Rightarrow> (pystr \<times> bytes) list \<Rightarrow> exn + (pystr \<times> bytes) list" where
  "parse_keys [] result = Inr result"
| "parse_keys (JObj key # keys) result =
     (if \<not> jwk_is_ed25519 key
      then Inl (WorkContextError (Msg ''JWKS contains a non-Ed25519 signing key''))
      else case jget key ''kid'' (JStr (lit [])) of
        JStr kid \<Rightarrow>
          thenR (validate_bounded (L ''key_id'') kid MAX_KIND_BYTES True)
            (let decoded = jwk_public_key (jget key ''x'' (JStr (lit []))) in
             if length decoded \<noteq> ED25519_PUBLIC_KEY_SIZE
             then Inl (WorkContextError (Quoting ''JWKS key has an invalid Ed25519 public key'' kid))
             else if kid \<in> set (map fst result)
             then Inl (WorkContextError (Quoting ''JWKS has duplicate key id'' kid))
             else parse_keys keys (result @ [(kid, decoded)]))
      | _ \<Rightarrow> Inl (WorkContextError (Msg ''JWKS key id must be a string'')))"
| "parse_keys (_ # keys) result = Inl (WorkContextError (Msg ''JWKS contains a non-object key''))"

definition parse_jwks :: "(bytes \<Rightarrow> exn + json) \<Rightarrow> bytes \<Rightarrow> exn + (pystr \<times> bytes) list" where
  "parse_jwks json_loads payload =
     bindR (catchR is_value_error (json_loads payload)
              (\<lambda>_. WorkContextError (Msg ''decode Work Context JWKS'')))
       (\<lambda>document. case (case document of JObj d \<Rightarrow> jget d ''keys'' JNull | _ \<Rightarrow> JNull) of
          JArr keys \<Rightarrow>
            if \<not> (1 \<le> length keys \<and> length keys \<le> JWKS_MAX_KEYS)
            then Inl (WorkContextError (Msg ''Work Context JWKS must contain between 1 and 64 keys''))
            else parse_keys keys []
        | _ \<Rightarrow> Inl (WorkContextError (Msg ''Work Context JWKS must contain between 1 and 64 keys'')))"

section \<open>One fetch\<close>

text \<open>
  What the opener and the response can do: an \<open>HTTPError\<close>, an \<open>OSError\<close> (which
  \<open>URLError\<close> is), another exception, or a response whose body is read or whose read raises.
\<close>

datatype body = Read bytes | ReadRaises exn

datatype reply =
    HttpError int
  | OpenOSError
  | OpenRaises exn
  | Response "pystr option" body

definition json_content_type :: "pystr option \<Rightarrow> bool" where
  "json_content_type ct =
     (case ct of None \<Rightarrow> True
      | Some v \<Rightarrow> \<not> truthy v
          \<or> lower_ascii (strip (fst (split_once 59 v))) = lit ''application/json'')"

definition fetch :: "(bytes \<Rightarrow> exn + json) \<Rightarrow> reply \<Rightarrow> exn + (pystr \<times> bytes) list" where
  "fetch json_loads reply =
     (case reply of
        HttpError code \<Rightarrow> Inl (WorkContextUnavailable (Numbered ''Work Context JWKS returned HTTP'' code))
      | OpenOSError \<Rightarrow> Inl (WorkContextUnavailable (Msg ''fetch Work Context JWKS''))
      | OpenRaises e \<Rightarrow> Inl e
      | Response content_type data \<Rightarrow>
          if \<not> json_content_type content_type
          then Inl (WorkContextUnavailable (Msg ''Work Context JWKS is not application/json''))
          else case data of
            ReadRaises e \<Rightarrow> Inl e
          | Read content \<Rightarrow>
              let payload = take (JWKS_MAX_BYTES + 1) content in
              if length payload > JWKS_MAX_BYTES
              then Inl (WorkContextUnavailable (Msg ''Work Context JWKS exceeds 262144 bytes''))
              else catchR is_work_context_error (parse_jwks json_loads payload) as_unavailable)"

section \<open>The verifier's configuration and state\<close>

text \<open>Durations and clock readings in microseconds.\<close>

definition JWKS_MAX_CACHE_TTL :: int where
  "JWKS_MAX_CACHE_TTL = 24 * 3600 * 1000000"

definition JWKS_MAX_REQUEST_TIMEOUT :: int where
  "JWKS_MAX_REQUEST_TIMEOUT = 30 * 1000000"

definition JWKS_FAILED_REFRESH_BACKOFF :: int where
  "JWKS_FAILED_REFRESH_BACKOFF = 5 * 1000000"

definition validate_jwks_url :: "url_tables \<Rightarrow> pystr \<Rightarrow> exn + pystr" where
  "validate_jwks_url tables raw =
     (case urlsplit tables (strip raw) of
        None \<Rightarrow> Inl ValueError
      | Some parts \<Rightarrow>
          if u_scheme parts \<notin> {codes (lit ''http''), codes (lit ''https'')}
             \<or> \<not> (case hostname tables parts of None \<Rightarrow> False | Some h \<Rightarrow> truthy h)
             \<or> username parts \<noteq> None \<or> password parts \<noteq> None
             \<or> u_query parts \<noteq> [] \<or> u_fragment parts \<noteq> []
          then Inl (WorkContextError (Msg ''Work Context JWKS URL must be an absolute HTTP(S) URL without credentials, query, or fragment''))
          else Inr (geturl parts))"

record jwks_config =
  cfg_url :: pystr
  cfg_cache_ttl :: int
  cfg_request_timeout :: int
  cfg_clock_skew :: int

record 'key jwks =
  jw_verifier :: "'key verifier option"
  jw_key_ids :: "pystr list"
  jw_expires_at :: int
  jw_generation :: int
  jw_unknown_refresh_generation :: int
  jw_retry_after :: int
  jw_last_error :: "exn option"
  jw_requests :: nat

text \<open>\<open>JWKSVerifier.__init__\<close>: the checks in order, then the empty cache.\<close>

definition jwks_config_of :: "url_tables \<Rightarrow> pystr \<Rightarrow> int \<Rightarrow> int \<Rightarrow> int \<Rightarrow> exn + jwks_config" where
  "jwks_config_of tables url cache_ttl request_timeout skew =
     bindR (validate_jwks_url tables url) (\<lambda>u.
     thenR (guardR (cache_ttl < 1000000 \<or> cache_ttl > JWKS_MAX_CACHE_TTL)
       (WorkContextError (Msg ''JWKS cache TTL must be between 1s and 1 day, 0:00:00'')))
     (thenR (guardR (request_timeout < 1000 \<or> request_timeout > JWKS_MAX_REQUEST_TIMEOUT)
       (WorkContextError (Msg ''JWKS request timeout must be between 1ms and 0:00:30'')))
     (thenR (guardR (skew < 0 \<or> skew > CLOCK_SKEW)
       (WorkContextError (Msg ''clock skew must be between zero and 0:01:00'')))
     (Inr \<lparr>cfg_url = u, cfg_cache_ttl = cache_ttl, cfg_request_timeout = request_timeout,
           cfg_clock_skew = skew\<rparr>))))"

text \<open>The defaults of the constructor.\<close>

definition JWKS_DEFAULT_CACHE_TTL :: int where
  "JWKS_DEFAULT_CACHE_TTL = 5 * 60 * 1000000"

definition JWKS_DEFAULT_REQUEST_TIMEOUT :: int where
  "JWKS_DEFAULT_REQUEST_TIMEOUT = 2 * 1000000"

definition default_jwks_config :: "url_tables \<Rightarrow> pystr \<Rightarrow> exn + jwks_config" where
  "default_jwks_config tables url =
     jwks_config_of tables url JWKS_DEFAULT_CACHE_TTL JWKS_DEFAULT_REQUEST_TIMEOUT CLOCK_SKEW"

lemma default_jwks_config_Inr:
  "default_jwks_config tables url = Inr cfg \<longleftrightarrow>
     validate_jwks_url tables url = Inr (cfg_url cfg) \<and> cfg_cache_ttl cfg = JWKS_DEFAULT_CACHE_TTL
     \<and> cfg_request_timeout cfg = JWKS_DEFAULT_REQUEST_TIMEOUT \<and> cfg_clock_skew cfg = CLOCK_SKEW"
  by (cases "validate_jwks_url tables url"; cases cfg)
    (auto simp: default_jwks_config_def jwks_config_of_def JWKS_DEFAULT_CACHE_TTL_def JWKS_DEFAULT_REQUEST_TIMEOUT_def
      JWKS_MAX_CACHE_TTL_def JWKS_MAX_REQUEST_TIMEOUT_def CLOCK_SKEW_def)

definition jwks_empty :: "'key jwks" where
  "jwks_empty = \<lparr>jw_verifier = None, jw_key_ids = [], jw_expires_at = 0, jw_generation = 0,
     jw_unknown_refresh_generation = 0, jw_retry_after = 0, jw_last_error = None, jw_requests = 0\<rparr>"

section \<open>Operations\<close>

type_synonym 'key snapshot = "'key verifier \<times> pystr list \<times> int"

text \<open>The outside world during one refresh: the reply, and the clock after it.\<close>

record refresh_io =
  io_reply :: reply
  io_done :: int

record 'key env =
  env_lib :: "'key library"
  env_json_loads :: "bytes \<Rightarrow> exn + json"
  env_config :: jwks_config

definition build_keys :: "'key env \<Rightarrow> reply \<Rightarrow> exn + ((pystr \<times> bytes) list \<times> 'key verifier)" where
  "build_keys env reply =
     bindR (fetch (env_json_loads env) reply) (\<lambda>keys.
     bindR (catchR is_work_context_error
              (verifier_init (env_lib env) keys (cfg_clock_skew (env_config env))) as_unavailable)
       (\<lambda>v. Inr (keys, v)))"

definition refresh_locked :: "'key env \<Rightarrow> refresh_io \<Rightarrow> 'key jwks \<Rightarrow> 'key jwks \<times> (exn + 'key snapshot)" where
  "refresh_locked env io st =
     (let st = st\<lparr>jw_requests := jw_requests st + 1\<rparr> in
      case build_keys env (io_reply io) of
        Inl e \<Rightarrow>
          (if is_work_context_error e
           then (st\<lparr>jw_retry_after := io_done io + JWKS_FAILED_REFRESH_BACKOFF, jw_last_error := Some e\<rparr>, Inl e)
           else (st, Inl e))
      | Inr (keys, v) \<Rightarrow>
          let st = st\<lparr>jw_verifier := Some v, jw_key_ids := map fst keys,
                jw_expires_at := io_done io + cfg_cache_ttl (env_config env),
                jw_retry_after := 0, jw_last_error := None, jw_generation := jw_generation st + 1\<rparr>
          in (st, Inr (v, jw_key_ids st, jw_generation st)))"

definition refresh :: "'key env \<Rightarrow> refresh_io \<Rightarrow> 'key jwks \<Rightarrow> 'key jwks \<times> (exn + unit)" where
  "refresh env io st =
     (case refresh_locked env io st of
        (st, Inl e) \<Rightarrow> (st, Inl e)
      | (st, Inr _) \<Rightarrow> (st\<lparr>jw_unknown_refresh_generation := 0\<rparr>, Inr ()))"

definition current :: "'key env \<Rightarrow> int \<Rightarrow> refresh_io \<Rightarrow> 'key jwks \<Rightarrow> 'key jwks \<times> (exn + 'key snapshot)" where
  "current env now io st =
     (case (if now < jw_expires_at st then jw_verifier st else None) of
        Some v \<Rightarrow> (st, Inr (v, jw_key_ids st, jw_generation st))
      | None \<Rightarrow>
          if now < jw_retry_after st
          then (st, Inl (case jw_last_error st of Some e \<Rightarrow> e | None \<Rightarrow> TypeError))
          else case refresh_locked env io st of
            (st, Inl e) \<Rightarrow> (st, Inl e)
          | (st, Inr snap) \<Rightarrow> (st\<lparr>jw_unknown_refresh_generation := 0\<rparr>, Inr snap))"

definition refresh_unknown :: "'key env \<Rightarrow> refresh_io \<Rightarrow> int \<Rightarrow> 'key jwks \<Rightarrow> 'key jwks \<times> (exn + 'key snapshot)" where
  "refresh_unknown env io observed_generation st =
     (case (if jw_generation st \<noteq> observed_generation
               \<or> jw_unknown_refresh_generation st = jw_generation st then jw_verifier st else None) of
        Some v \<Rightarrow> (st, Inr (v, jw_key_ids st, jw_generation st))
      | None \<Rightarrow>
          (case refresh_locked env io (st\<lparr>jw_unknown_refresh_generation := jw_generation st\<rparr>) of
             (st, Inl e) \<Rightarrow> (st, Inl e)
           | (st, Inr (v, kids, generation)) \<Rightarrow>
               (st\<lparr>jw_unknown_refresh_generation := generation\<rparr>, Inr (v, kids, generation))))"

text \<open>The key id a token names, before anything about it is trusted.\<close>

definition token_key_id :: "'key library \<Rightarrow> pystr \<Rightarrow> exn + pystr" where
  "token_key_id lib encoded = bindR (decode_token encoded) (\<lambda>(payload, _). probe_key_id lib payload)"

text \<open>\<open>verify\<close>, with the clock readings and replies its calls meet.\<close>

record verify_io =
  vio_now :: int
  vio_refresh :: refresh_io
  vio_unknown :: refresh_io
  vio_validate :: int

definition jwks_verify :: "'key env \<Rightarrow> verify_io \<Rightarrow> pystr \<Rightarrow> expectations \<Rightarrow> 'key jwks
    \<Rightarrow> 'key jwks \<times> (exn + work_context)" where
  "jwks_verify env io encoded expected st =
     (case token_key_id (env_lib env) encoded of
        Inl e \<Rightarrow> (st, Inl e)
      | Inr kid \<Rightarrow>
          (case current env (vio_now io) (vio_refresh io) st of
             (st, Inl e) \<Rightarrow> (st, Inl e)
           | (st, Inr (v, kids, generation)) \<Rightarrow>
               if kid \<in> set kids then (st, verify (env_lib env) v (vio_validate io) encoded expected)
               else case refresh_unknown env (vio_unknown io) generation st of
                 (st, Inl e) \<Rightarrow> (st, Inl e)
               | (st, Inr (v, _, _)) \<Rightarrow> (st, verify (env_lib env) v (vio_validate io) encoded expected)))"

section \<open>What a published key set is\<close>

definition wf_keys :: "(pystr \<times> bytes) list \<Rightarrow> bool" where
  "wf_keys keys \<longleftrightarrow> keys \<noteq> [] \<and> length keys \<le> JWKS_MAX_KEYS \<and> distinct (map fst keys)
     \<and> list_all (\<lambda>(kid, raw). bounded_str MAX_KIND_BYTES kid \<and> length raw = ED25519_PUBLIC_KEY_SIZE) keys"

lemma parse_keys_Inr:
  "parse_keys ks result = Inr out \<Longrightarrow> distinct (map fst result) \<Longrightarrow>
     \<exists>new. out = result @ new \<and> length new = length ks \<and> distinct (map fst out)
       \<and> list_all (\<lambda>(kid, raw). bounded_str MAX_KIND_BYTES kid \<and> length raw = ED25519_PUBLIC_KEY_SIZE) new"
proof (induction ks result rule: parse_keys.induct)
  case (2 key keys result)
  from "2.prems"(1) obtain kid where kid: "jget key ''kid'' (JStr (lit [])) = JStr kid"
    "bounded_str MAX_KIND_BYTES kid" "jwk_is_ed25519 key"
    by (auto simp: res_iff split: if_splits json.splits)
  let ?d = "jwk_public_key (jget key ''x'' (JStr (lit [])))"
  from "2.prems"(1) kid have len: "length ?d = ED25519_PUBLIC_KEY_SIZE" and new: "kid \<notin> set (map fst result)"
    and rec: "parse_keys keys (result @ [(kid, ?d)]) = Inr out"
    by (auto simp: res_iff Let_def split: if_splits)
  from new "2.prems"(2) have "distinct (map fst (result @ [(kid, ?d)]))" by simp
  with "2.IH" kid len new rec obtain new' where "out = result @ [(kid, ?d)] @ new'" "length new' = length keys"
    "distinct (map fst out)"
    "list_all (\<lambda>(kid, raw). bounded_str MAX_KIND_BYTES kid \<and> length raw = ED25519_PUBLIC_KEY_SIZE) new'"
    by fastforce
  with kid len show ?case by (intro exI [of _ "(kid, ?d) # new'"]) simp
qed (auto split: if_splits)

lemma parse_jwks_Inr:
  assumes "parse_jwks json_loads p = Inr keys"
  obtains ks where "1 \<le> length ks" "length ks \<le> JWKS_MAX_KEYS" "parse_keys ks [] = Inr keys"
proof -
  from assms obtain document where d: "json_loads p = Inr document"
    by (auto simp: parse_jwks_def res_iff)
  let ?k = "case document of JObj d \<Rightarrow> jget d ''keys'' JNull | _ \<Rightarrow> JNull"
  from assms d obtain ks where "?k = JArr ks" by (cases ?k) (simp_all add: parse_jwks_def)
  with assms d that [of ks] show thesis by (simp add: parse_jwks_def split: if_splits)
qed

lemma parse_jwks_wf: "parse_jwks json_loads p = Inr keys \<Longrightarrow> wf_keys keys"
  by (erule parse_jwks_Inr) (fastforce simp: wf_keys_def dest: parse_keys_Inr)

lemma fetch_Inr:
  "fetch json_loads r = Inr keys \<longleftrightarrow> (\<exists>ct data. r = Response ct (Read data) \<and> json_content_type ct
     \<and> length data \<le> JWKS_MAX_BYTES \<and> parse_jwks json_loads data = Inr keys)"
  by (auto simp: fetch_def res_iff Let_def split: reply.splits body.splits if_splits)

lemma fetch_wf: "fetch json_loads r = Inr keys \<Longrightarrow> wf_keys keys"
  by (auto simp: fetch_Inr dest: parse_jwks_wf)

lemma load_keys_dom: "load_keys lib keys m = Inr m' \<Longrightarrow> dom m' = dom m \<union> fst ` set keys"
proof (induction keys arbitrary: m)
  case (Cons k keys)
  obtain kid raw where k: "k = (kid, raw)" by (cases k)
  with Cons.prems obtain key where "load_keys lib keys (m(kid \<mapsto> key)) = Inr m'" by (auto simp: res_iff)
  then have "dom m' = dom (m(kid \<mapsto> key)) \<union> fst ` set keys" by (rule Cons.IH)
  with k show ?case by simp
qed simp

lemma verifier_init_Inr:
  assumes "verifier_init lib keys skew = Inr v"
  shows "dom (ver_keys v) = fst ` set keys" "ver_clock_skew v = skew" "0 \<le> skew" "skew \<le> CLOCK_SKEW"
proof -
  from assms obtain m where m: "load_keys lib keys Map.empty = Inr m"
    "v = \<lparr>ver_keys = m, ver_clock_skew = skew\<rparr>" "0 \<le> skew" "skew \<le> CLOCK_SKEW"
    by (auto simp: verifier_init_def res_iff)
  then show "dom (ver_keys v) = fst ` set keys" "ver_clock_skew v = skew" "0 \<le> skew" "skew \<le> CLOCK_SKEW"
    using load_keys_dom [OF m(1)] by simp_all
qed

text \<open>
  A parsed key set passes every check of \<open>Verifier.__init__\<close>: what is left to fail is the
  cryptography library refusing a 32-byte key.
\<close>

lemma load_keys_raises:
  "list_all (\<lambda>(kid, raw). bounded_str MAX_KIND_BYTES kid \<and> length raw = ED25519_PUBLIC_KEY_SIZE) keys \<Longrightarrow>
     (\<And>raw. raises_only P (lib_load_key lib raw)) \<Longrightarrow> raises_only P (load_keys lib keys m)"
proof (induction keys arbitrary: m)
  case (Cons k keys)
  obtain kid raw where k: "k = (kid, raw)" by (cases k)
  with Cons.prems have "validate_bounded (L ''key_id'') kid MAX_KIND_BYTES True = Inr ()" by (simp add: res_iff)
  with k Cons show ?case by (auto intro!: raises)
qed simp

lemma load_keys_total:
  "list_all (\<lambda>(kid, raw). bounded_str MAX_KIND_BYTES kid \<and> length raw = ED25519_PUBLIC_KEY_SIZE) keys \<Longrightarrow>
     (\<And>raw. length raw = ED25519_PUBLIC_KEY_SIZE \<Longrightarrow> \<exists>key. lib_load_key lib raw = Inr key) \<Longrightarrow>
     \<exists>m'. load_keys lib keys m = Inr m'"
proof (induction keys arbitrary: m)
  case (Cons k keys)
  obtain kid raw where k: "k = (kid, raw)" by (cases k)
  with Cons.prems obtain key where "lib_load_key lib raw = Inr key" by auto
  moreover from k Cons.prems have "validate_bounded (L ''key_id'') kid MAX_KIND_BYTES True = Inr ()"
    by (simp add: res_iff)
  moreover have "\<exists>m'. load_keys lib keys (m(kid \<mapsto> key)) = Inr m'"
    by (rule Cons.IH) (use Cons.prems in auto)
  ultimately show ?case using k Cons.prems(1) by simp
qed simp

lemma verifier_init_raises:
  "wf_keys keys \<Longrightarrow> 0 \<le> skew \<Longrightarrow> skew \<le> CLOCK_SKEW \<Longrightarrow>
     (\<And>raw. raises_only P (lib_load_key lib raw)) \<Longrightarrow> raises_only P (verifier_init lib keys skew)"
  by (auto simp: verifier_init_def wf_keys_def not_less intro!: raises load_keys_raises)

lemma build_keys_Inr:
  "build_keys env r = Inr (keys, v) \<longleftrightarrow> fetch (env_json_loads env) r = Inr keys
     \<and> verifier_init (env_lib env) keys (cfg_clock_skew (env_config env)) = Inr v"
  by (auto simp: build_keys_def res_iff)

lemma build_keys_dom:
  "build_keys env r = Inr (keys, v) \<Longrightarrow> dom (ver_keys v) = set (map fst keys)"
  using verifier_init_Inr(1) [of "env_lib env" keys "cfg_clock_skew (env_config env)" v]
  by (simp add: build_keys_Inr)

section \<open>The cache invariant\<close>

text \<open>
  \<open>published env v kids\<close>: \<open>v\<close> verifies against a key set some reply published whole, and
  \<open>kids\<close> are its key ids.
\<close>

definition published :: "'key env \<Rightarrow> 'key verifier \<Rightarrow> pystr list \<Rightarrow> bool" where
  "published env v kids \<longleftrightarrow> (\<exists>r keys. build_keys env r = Inr (keys, v) \<and> kids = map fst keys)"

lemma publishedI [intro]: "build_keys env r = Inr (keys, v) \<Longrightarrow> published env v (map fst keys)"
  by (auto simp: published_def)

definition cache_inv :: "'key env \<Rightarrow> 'key jwks \<Rightarrow> bool" where
  "cache_inv env st \<longleftrightarrow> 0 \<le> jw_generation st
     \<and> 0 \<le> jw_unknown_refresh_generation st \<and> jw_unknown_refresh_generation st \<le> jw_generation st
     \<and> (jw_verifier st = None \<longleftrightarrow> jw_generation st = 0)
     \<and> pred_option (\<lambda>v. published env v (jw_key_ids st)) (jw_verifier st)
     \<and> (jw_last_error st = None \<longrightarrow> jw_retry_after st = 0)
     \<and> pred_option is_work_context_error (jw_last_error st)"

text \<open>The unknown-key refresh the current generation may still spend.\<close>

definition refresh_credit :: "'key jwks \<Rightarrow> nat" where
  "refresh_credit st =
     (if jw_verifier st \<noteq> None \<and> jw_unknown_refresh_generation st \<noteq> jw_generation st then 1 else 0)"

text \<open>The three outcomes of a refresh.\<close>

lemma refresh_locked_cases:
  assumes "refresh_locked env io st = (st', res)"
  obtains (published) keys v where "build_keys env (io_reply io) = Inr (keys, v)"
      "st' = st\<lparr>jw_requests := jw_requests st + 1, jw_verifier := Some v, jw_key_ids := map fst keys,
         jw_expires_at := io_done io + cfg_cache_ttl (env_config env), jw_retry_after := 0,
         jw_last_error := None, jw_generation := jw_generation st + 1\<rparr>"
      "res = Inr (v, map fst keys, jw_generation st + 1)"
  | (unavailable) e where "build_keys env (io_reply io) = Inl e" "is_work_context_error e"
      "st' = st\<lparr>jw_requests := jw_requests st + 1, jw_last_error := Some e,
         jw_retry_after := io_done io + JWKS_FAILED_REFRESH_BACKOFF\<rparr>" "res = Inl e"
  | (raised) e where "build_keys env (io_reply io) = Inl e" "\<not> is_work_context_error e"
      "st' = st\<lparr>jw_requests := jw_requests st + 1\<rparr>" "res = Inl e"
  using assms by (auto simp: refresh_locked_def Let_def split: sum.splits prod.splits if_splits)

lemma current_cases:
  assumes "current env now io st = (st', res)"
  obtains (cached) v where "now < jw_expires_at st" "jw_verifier st = Some v" "st' = st"
      "res = Inr (v, jw_key_ids st, jw_generation st)"
  | (backoff) "jw_verifier st = None \<or> jw_expires_at st \<le> now" "now < jw_retry_after st" "st' = st"
      "res = Inl (case jw_last_error st of Some e \<Rightarrow> e | None \<Rightarrow> TypeError)"
  | (failed) e where "jw_verifier st = None \<or> jw_expires_at st \<le> now" "jw_retry_after st \<le> now"
      "refresh_locked env io st = (st', Inl e)" "res = Inl e"
  | (fetched) st1 snap where "jw_verifier st = None \<or> jw_expires_at st \<le> now" "jw_retry_after st \<le> now"
      "refresh_locked env io st = (st1, Inr snap)" "st' = st1\<lparr>jw_unknown_refresh_generation := 0\<rparr>"
      "res = Inr snap"
proof (cases "now < jw_expires_at st \<and> jw_verifier st \<noteq> None")
  case True
  then obtain v where "jw_verifier st = Some v" by auto
  with True assms show thesis by (intro cached [of v]) (auto simp: current_def)
next
  case stale: False
  then have fetching: "(if now < jw_expires_at st then jw_verifier st else None) = None" by auto
  show thesis
  proof (cases "now < jw_retry_after st")
    case True
    with stale fetching assms show thesis by (intro backoff) (auto simp: current_def)
  next
    case False
    obtain st1 r where r: "refresh_locked env io st = (st1, r)" by (cases "refresh_locked env io st")
    show thesis
    proof (cases r)
      case (Inl e)
      with stale False fetching assms r show thesis by (intro failed [of e]) (auto simp: current_def)
    next
      case (Inr snap)
      with stale False fetching assms r show thesis by (intro fetched [of st1 snap]) (auto simp: current_def)
    qed
  qed
qed

lemma refresh_unknown_cases:
  assumes "refresh_unknown env io g st = (st', res)"
  obtains (cached) v where "jw_generation st \<noteq> g \<or> jw_unknown_refresh_generation st = jw_generation st"
      "jw_verifier st = Some v" "st' = st" "res = Inr (v, jw_key_ids st, jw_generation st)"
  | (failed) e where
      "jw_verifier st = None \<or> jw_generation st = g \<and> jw_unknown_refresh_generation st \<noteq> jw_generation st"
      "refresh_locked env io (st\<lparr>jw_unknown_refresh_generation := jw_generation st\<rparr>) = (st', Inl e)"
      "res = Inl e"
  | (fetched) st1 v kids g' where
      "jw_verifier st = None \<or> jw_generation st = g \<and> jw_unknown_refresh_generation st \<noteq> jw_generation st"
      "refresh_locked env io (st\<lparr>jw_unknown_refresh_generation := jw_generation st\<rparr>) = (st1, Inr (v, kids, g'))"
      "st' = st1\<lparr>jw_unknown_refresh_generation := g'\<rparr>" "res = Inr (v, kids, g')"
proof (cases "(jw_generation st \<noteq> g \<or> jw_unknown_refresh_generation st = jw_generation st) \<and> jw_verifier st \<noteq> None")
  case True
  then obtain v where "jw_verifier st = Some v" by auto
  with True assms show thesis by (intro cached [of v]) (auto simp: refresh_unknown_def)
next
  case miss: False
  let ?st = "st\<lparr>jw_unknown_refresh_generation := jw_generation st\<rparr>"
  from miss have fetching: "(if jw_generation st \<noteq> g \<or> jw_unknown_refresh_generation st = jw_generation st
      then jw_verifier st else None) = None" by auto
  obtain st1 r where r: "refresh_locked env io ?st = (st1, r)" by (cases "refresh_locked env io ?st")
  show thesis
  proof (cases r)
    case (Inl e)
    from assms have "st1 = st'" "res = Inl e"
      unfolding refresh_unknown_def fetching r Inl by simp_all
    with miss r Inl show thesis by (intro failed [of e]) auto
  next
    case (Inr snap)
    obtain v kids g' where snap: "snap = (v, kids, g')" by (cases snap)
    from assms have "st' = st1\<lparr>jw_unknown_refresh_generation := g'\<rparr>" "res = Inr (v, kids, g')"
      unfolding refresh_unknown_def fetching r Inr snap by simp_all
    with miss r Inr snap show thesis by (intro fetched [of st1 v kids g']) auto
  qed
qed

lemma refresh_cases:
  assumes "refresh env io st = (st', res)"
  obtains (failed) e where "refresh_locked env io st = (st', Inl e)" "res = Inl e"
  | (fetched) st1 snap where "refresh_locked env io st = (st1, Inr snap)"
      "st' = st1\<lparr>jw_unknown_refresh_generation := 0\<rparr>" "res = Inr ()"
  using assms by (auto simp: refresh_def split: sum.split_asm prod.split_asm)

subsection \<open>Every operation keeps it\<close>

lemma cache_inv_empty: "cache_inv env jwks_empty"
  by (simp add: cache_inv_def jwks_empty_def)

lemma refresh_locked_inv: "refresh_locked env io st = (st', res) \<Longrightarrow> cache_inv env st \<Longrightarrow> cache_inv env st'"
  by (erule refresh_locked_cases) (auto simp: cache_inv_def)

text \<open>Writing the unknown-refresh mark keeps the invariant wherever the code writes it.\<close>

lemma mark_inv:
  "cache_inv env st \<Longrightarrow> 0 \<le> n \<Longrightarrow> n \<le> jw_generation st \<Longrightarrow>
     cache_inv env (st\<lparr>jw_unknown_refresh_generation := n\<rparr>)"
  by (auto simp: cache_inv_def)

lemma cache_inv_generation: "cache_inv env st \<Longrightarrow> 0 \<le> jw_generation st"
  by (simp add: cache_inv_def)

lemma refresh_locked_snapshot:
  "refresh_locked env io st = (st', Inr (v, kids, g)) \<Longrightarrow>
     published env v kids \<and> jw_verifier st' = Some v \<and> jw_key_ids st' = kids \<and> jw_generation st' = g
     \<and> g = jw_generation st + 1"
  by (erule refresh_locked_cases) auto

lemma refresh_inv: "refresh env io st = (st', res) \<Longrightarrow> cache_inv env st \<Longrightarrow> cache_inv env st'"
  by (erule refresh_cases) (auto dest: refresh_locked_inv cache_inv_generation intro!: mark_inv)

lemma current_inv: "current env now io st = (st', res) \<Longrightarrow> cache_inv env st \<Longrightarrow> cache_inv env st'"
  by (erule current_cases) (auto dest: refresh_locked_inv cache_inv_generation intro!: mark_inv)

lemma refresh_unknown_inv:
  assumes "refresh_unknown env io g st = (st', res)" and "cache_inv env st"
  shows "cache_inv env st'"
proof -
  have marked: "cache_inv env (st\<lparr>jw_unknown_refresh_generation := jw_generation st\<rparr>)"
    using assms(2) by (auto intro: mark_inv cache_inv_generation)
  from assms(1) show ?thesis
  proof (cases rule: refresh_unknown_cases)
    case (fetched st1 v kids g')
    then have "cache_inv env st1" "g' = jw_generation st1"
      using refresh_locked_inv [OF _ marked] refresh_locked_snapshot by blast+
    with fetched show ?thesis by (auto intro: mark_inv cache_inv_generation)
  qed (use assms(2) refresh_locked_inv [OF _ marked] in auto)
qed

subsection \<open>What each operation costs\<close>

lemma refresh_locked_frame:
  "refresh_locked env io st = (st', res) \<Longrightarrow> jw_requests st' = jw_requests st + 1
     \<and> jw_unknown_refresh_generation st' = jw_unknown_refresh_generation st
     \<and> jw_generation st \<le> jw_generation st'
     \<and> (\<forall>e. res = Inl e \<longrightarrow> jw_generation st' = jw_generation st \<and> jw_verifier st' = jw_verifier st)"
  by (erule refresh_locked_cases) auto

lemma refresh_credit_le: "refresh_credit st \<le> 1"
  by (simp add: refresh_credit_def)

lemma refresh_cost:
  assumes "refresh env io st = (st', res)"
  shows "jw_requests st' = jw_requests st + 1" "jw_generation st \<le> jw_generation st'"
  using assms by (cases rule: refresh_cases; auto dest: refresh_locked_frame)+

lemma current_cost:
  assumes "current env now io st = (st', res)"
  shows "st' = st \<or> jw_requests st' = jw_requests st + 1" "jw_generation st \<le> jw_generation st'"
  using assms by (cases rule: current_cases; auto dest: refresh_locked_frame)+

lemma refresh_unknown_cost:
  assumes "refresh_unknown env io g st = (st', res)" and inv: "cache_inv env st" and g: "1 \<le> g" "g \<le> jw_generation st"
  shows "jw_requests st' + refresh_credit st' \<le> jw_requests st + refresh_credit st"
    and "jw_generation st \<le> jw_generation st'"
proof -
  from inv g have v: "jw_verifier st \<noteq> None" by (auto simp: cache_inv_def)
  show "jw_requests st' + refresh_credit st' \<le> jw_requests st + refresh_credit st"
    using assms(1) by (cases rule: refresh_unknown_cases)
      (use v in \<open>auto simp: refresh_credit_def dest: refresh_locked_frame refresh_locked_snapshot\<close>)
  show "jw_generation st \<le> jw_generation st'"
    using assms(1) by (cases rule: refresh_unknown_cases) (auto dest: refresh_locked_frame)
qed

text \<open>A snapshot an operation returns is a published key set of the state's generation.\<close>

lemma cached_snapshot: "cache_inv env st \<Longrightarrow> jw_verifier st = Some v \<Longrightarrow> published env v (jw_key_ids st)"
  by (simp add: cache_inv_def)

lemma current_snapshot:
  assumes "current env now io st = (st', Inr (v, kids, g))" and inv: "cache_inv env st"
  shows "published env v kids" "g = jw_generation st'" "1 \<le> g"
proof -
  show "published env v kids" "g = jw_generation st'"
    using assms(1) by (cases rule: current_cases; use inv in \<open>auto dest: cached_snapshot refresh_locked_snapshot\<close>)+
  show "1 \<le> g" using assms(1)
    by (cases rule: current_cases) (use inv in \<open>auto simp: cache_inv_def dest: refresh_locked_snapshot\<close>)
qed

lemma refresh_unknown_snapshot:
  assumes "refresh_unknown env io g st = (st', Inr (v, kids, g'))" and inv: "cache_inv env st"
  shows "published env v kids" "g' = jw_generation st'"
  using assms(1) by (cases rule: refresh_unknown_cases;
    use inv in \<open>auto dest: cached_snapshot refresh_locked_snapshot\<close>)+

section \<open>Threads\<close>

text \<open>
  The lock makes \<open>refresh\<close>, \<open>_current\<close> and \<open>_refresh_unknown\<close> atomic; between the last
  two a thread in \<open>verify\<close> holds only the generation it observed, and other threads run.
  A system state is the shared cache, what each thread holds, and the number of scheduled
  fetches so far (by \<open>refresh\<close> or by \<open>_current\<close> on a stale cache), an observation.
  A thread that is idle starts a call; one whose key id the cache did not know retries.
\<close>

datatype pc = Idle | UnknownKey pystr expectations int

record 'key jsys =
  sys_cache :: "'key jwks"
  sys_pc :: "nat \<Rightarrow> pc"
  sys_scheduled :: nat

definition jsys_init :: "'key jsys" where
  "jsys_init = \<lparr>sys_cache = jwks_empty, sys_pc = (\<lambda>_. Idle), sys_scheduled = 0\<rparr>"

inductive jstep :: "'key env \<Rightarrow> 'key jsys \<Rightarrow> 'key jsys \<Rightarrow> bool" for env where
  Refresh: "refresh env io (sys_cache s) = (st, r) \<Longrightarrow>
     jstep env s (s\<lparr>sys_cache := st, sys_scheduled := sys_scheduled s + 1\<rparr>)"
| Known: "sys_pc s i = Idle \<Longrightarrow> token_key_id (env_lib env) token = Inr kid \<Longrightarrow>
     current env now io (sys_cache s) = (st, r) \<Longrightarrow>
     (\<forall>v kids g. r = Inr (v, kids, g) \<longrightarrow> kid \<in> set kids) \<Longrightarrow>
     jstep env s (s\<lparr>sys_cache := st,
       sys_scheduled := sys_scheduled s + (jw_requests st - jw_requests (sys_cache s))\<rparr>)"
| Unknown: "sys_pc s i = Idle \<Longrightarrow> token_key_id (env_lib env) token = Inr kid \<Longrightarrow>
     current env now io (sys_cache s) = (st, Inr (v, kids, g)) \<Longrightarrow> kid \<notin> set kids \<Longrightarrow>
     jstep env s (s\<lparr>sys_cache := st, sys_pc := (sys_pc s)(i := UnknownKey token expected g),
       sys_scheduled := sys_scheduled s + (jw_requests st - jw_requests (sys_cache s))\<rparr>)"
| Retry: "sys_pc s i = UnknownKey token expected g \<Longrightarrow>
     refresh_unknown env io g (sys_cache s) = (st, r) \<Longrightarrow>
     jstep env s (s\<lparr>sys_cache := st, sys_pc := (sys_pc s)(i := Idle)\<rparr>)"

inductive_cases jstep_elim: "jstep env s t"

text \<open>Beside the cache's own invariant: an observed generation is one the cache has had.\<close>

definition sys_inv :: "'key env \<Rightarrow> 'key jsys \<Rightarrow> bool" where
  "sys_inv env s \<longleftrightarrow> cache_inv env (sys_cache s)
     \<and> (\<forall>i token e g. sys_pc s i = UnknownKey token e g \<longrightarrow> 1 \<le> g \<and> g \<le> jw_generation (sys_cache s))"

lemma sys_inv_init: "sys_inv env jsys_init"
  by (simp add: sys_inv_def jsys_init_def cache_inv_empty)

lemma sys_inv_observed:
  "sys_inv env s \<Longrightarrow> sys_pc s i = UnknownKey token e g \<Longrightarrow> 1 \<le> g \<and> g \<le> jw_generation (sys_cache s)"
  by (auto simp: sys_inv_def)

lemma sys_inv_update:
  assumes "sys_inv env s" and "cache_inv env st" and "jw_generation (sys_cache s) \<le> jw_generation st"
    and "\<And>i token e g. p i = UnknownKey token e g \<Longrightarrow>
           sys_pc s i = UnknownKey token e g \<or> 1 \<le> g \<and> g = jw_generation st"
  shows "sys_inv env (s\<lparr>sys_cache := st, sys_pc := p, sys_scheduled := n\<rparr>)"
  using assms by (fastforce simp: sys_inv_def)

lemma sys_inv_cache:
  "sys_inv env s \<Longrightarrow> cache_inv env st \<Longrightarrow> jw_generation (sys_cache s) \<le> jw_generation st \<Longrightarrow>
     sys_inv env (s\<lparr>sys_cache := st, sys_scheduled := n\<rparr>)"
  using sys_inv_update [of env s st "sys_pc s" n] by simp

lemma sys_inv_cacheD: "sys_inv env s \<Longrightarrow> cache_inv env (sys_cache s)"
  by (simp add: sys_inv_def)

lemma jstep_inv: "jstep env s t \<Longrightarrow> sys_inv env s \<Longrightarrow> sys_inv env t"
proof (induction rule: jstep.induct)
  case (Refresh io s st r)
  show ?case
    using refresh_inv [OF Refresh.hyps sys_inv_cacheD [OF Refresh.prems]] refresh_cost(2) [OF Refresh.hyps]
    by (rule sys_inv_cache [OF Refresh.prems])
next
  case (Known s i token kid now io st r)
  show ?case
    using current_inv [OF Known.hyps(3) sys_inv_cacheD [OF Known.prems]] current_cost(2) [OF Known.hyps(3)]
    by (rule sys_inv_cache [OF Known.prems])
next
  case (Unknown s i token kid now io st v kids g expected)
  then have inv: "cache_inv env (sys_cache s)" by (simp add: sys_inv_def)
  show ?case
    by (rule sys_inv_update [OF Unknown.prems current_inv [OF Unknown.hyps(3) inv] current_cost(2) [OF Unknown.hyps(3)]])
      (use current_snapshot [OF Unknown.hyps(3) inv] in \<open>auto split: if_splits\<close>)
next
  case (Retry s i token expected g io st r)
  then have inv: "cache_inv env (sys_cache s)" by (simp add: sys_inv_def)
  have "jw_generation (sys_cache s) \<le> jw_generation st"
    using refresh_unknown_cost(2) [OF Retry.hyps(2) inv] sys_inv_observed [OF Retry.prems Retry.hyps(1)] by blast
  then have "sys_inv env (s\<lparr>sys_cache := st, sys_pc := (sys_pc s)(i := Idle), sys_scheduled := sys_scheduled s\<rparr>)"
    by (intro sys_inv_update Retry.prems refresh_unknown_inv [OF Retry.hyps(2) inv]) (auto split: if_splits)
  then show ?case by simp
qed

abbreviation sys_requests :: "'key jsys \<Rightarrow> nat" where
  "sys_requests s \<equiv> jw_requests (sys_cache s)"

abbreviation sys_credit :: "'key jsys \<Rightarrow> nat" where
  "sys_credit s \<equiv> refresh_credit (sys_cache s)"

lemma current_charge:
  assumes "current env now io st = (st', r)"
  shows "jw_requests st' + refresh_credit st' + 2 * n \<le> jw_requests st + refresh_credit st
     + 2 * (n + (jw_requests st' - jw_requests st))"
  using current_cost(1) [OF assms] refresh_credit_le [of st'] by auto

lemma jstep_cost:
  "jstep env s t \<Longrightarrow> sys_inv env s \<Longrightarrow>
     sys_requests t + sys_credit t + 2 * sys_scheduled s \<le> sys_requests s + sys_credit s + 2 * sys_scheduled t"
proof (induction rule: jstep.induct)
  case (Refresh io s st r)
  then show ?case using refresh_cost(1) [of env io "sys_cache s" st r] refresh_credit_le [of st] by simp
next
  case (Known s i token kid now io st r)
  then show ?case using current_charge by fastforce
next
  case (Unknown s i token kid now io st v kids g expected)
  then show ?case using current_charge by fastforce
next
  case (Retry s i token expected g io st r)
  then have "cache_inv env (sys_cache s)" by (simp add: sys_inv_def)
  with Retry sys_inv_observed [OF Retry.prems Retry.hyps(1)] show ?case
    using refresh_unknown_cost(1) [of env io g "sys_cache s" st r] by simp
qed

lemma jstep_scheduled: "jstep env s t \<Longrightarrow> sys_scheduled s \<le> sys_scheduled t"
  by (induction rule: jstep.induct) simp_all

interpretation threads: amortised_machine "jstep env" "sys_inv env" sys_requests sys_credit sys_scheduled 2 for env
  by unfold_locales (blast intro: jstep_inv jstep_cost jstep_scheduled)+

section \<open>A whole call of verify\<close>

lemma token_key_id_Inr:
  "token_key_id lib t = Inr kid \<longleftrightarrow> (\<exists>p s m. decode_token t = Inr (p, s) \<and> canonical_payload lib p m
     \<and> kid = pb_key_id m \<and> bounded_str MAX_KIND_BYTES kid)"
  by (auto simp: token_key_id_def res_iff)

lemma verify_token_key_id: "verify lib v now t e = Inr c \<Longrightarrow> token_key_id lib t = Inr (key_id c)"
  by (fastforce simp: verify_Inr token_key_id_Inr decode_token_Inr accepts_def work_context_of_def)

lemma jwks_verify_inv:
  assumes "jwks_verify env io t e st = (st', res)" and "cache_inv env st"
  shows "cache_inv env st'"
  using assms
  by (auto simp: jwks_verify_def split: sum.split_asm prod.split_asm if_split_asm
      dest: current_inv refresh_unknown_inv)

text \<open>Whatever a call returns, it is what \<open>Verifier\<close> returns on some published key set.\<close>

lemma jwks_verify_Inr:
  assumes "jwks_verify env io t e st = (st', Inr c)" and "cache_inv env st"
  obtains v kids where "published env v kids" "verify (env_lib env) v (vio_validate io) t e = Inr c"
  using assms
  by (auto simp: jwks_verify_def split: sum.split_asm prod.split_asm if_split_asm
      dest: current_inv current_snapshot refresh_unknown_snapshot)

lemma jwks_verify_some_verifier:
  "snd (jwks_verify env io t e st) = Inr c \<Longrightarrow> \<exists>v now. verify (env_lib env) v now t e = Inr c"
  by (auto simp: jwks_verify_def split: prod.split_asm sum.split_asm if_split_asm)

interpretation discovered_keys:
  claims_source "\<lambda>(env, io, st) t e. snd (jwks_verify env io t e st)"
proof
  fix s t e c
  assume a: "(case s of (env, io, st) \<Rightarrow> \<lambda>t e. snd (jwks_verify env io t e st)) t e = Inr c"
  obtain env io st where "s = (env, io, st)" by (cases s)
  with a obtain v now where "verify (env_lib env) v now t e = Inr c"
    using jwks_verify_some_verifier [of env io t e st c] by auto
  then show "validate_work_context c = Inr ()" "match_expectations c e = Inr ()"
    using fixed_keys.source_valid [of "env_lib env" "(v, now)" t e c]
      fixed_keys.source_expected [of "env_lib env" "(v, now)" t e c] by simp_all
qed

section \<open>Properties of a fetch\<close>

text \<open>The document an authority publishes for a key set (RFC 8037 members).\<close>

definition jwk_of :: "pystr \<times> bytes \<Rightarrow> json" where
  "jwk_of = (\<lambda>(kid, raw). JObj [(lit ''kty'', JStr (lit ''OKP'')), (lit ''crv'', JStr (lit ''Ed25519'')),
     (lit ''alg'', JStr (lit ''EdDSA'')), (lit ''use'', JStr (lit ''sig'')), (lit ''kid'', JStr kid),
     (lit ''x'', JStr (b64url_encode raw))])"

definition jwks_of :: "(pystr \<times> bytes) list \<Rightarrow> json" where
  "jwks_of keys = JObj [(lit ''keys'', JArr (map jwk_of keys))]"

lemma parse_keys_jwk_of:
  "distinct (map fst (result @ keys)) \<Longrightarrow>
     list_all (\<lambda>(kid, raw). bounded_str MAX_KIND_BYTES kid \<and> length raw = ED25519_PUBLIC_KEY_SIZE) keys \<Longrightarrow>
     parse_keys (map jwk_of keys) result = Inr (result @ keys)"
proof (induction keys arbitrary: result)
  case (Cons k keys)
  obtain kid raw where k: "k = (kid, raw)" by (cases k)
  with Cons.prems have "validate_bounded (L ''key_id'') kid MAX_KIND_BYTES True = Inr ()"
    "kid \<notin> set (map fst result)" "length raw = ED25519_PUBLIC_KEY_SIZE"
    by (auto simp: res_iff)
  with k Cons.IH [of "result @ [k]"] Cons.prems show ?case
    by (simp add: jwk_of_def jwk_is_ed25519_def jget_def jwk_public_key_def)
qed simp

lemma parse_jwks_jwks_of:
  "json_loads payload = Inr (jwks_of keys) \<Longrightarrow> wf_keys keys \<Longrightarrow> parse_jwks json_loads payload = Inr keys"
  using parse_keys_jwk_of [of "[]" keys]
  by (simp add: wf_keys_def parse_jwks_def jwks_of_def jget_def Suc_le_eq)

text \<open>C29: a published document is read back as the key set it was made from exactly when
  that set is one the SDK admits: 1 to 64 keys, distinct bounded key ids, 32-byte keys.\<close>

theorem parse_jwks_roundtrip:
  "parse_jwks (\<lambda>_. Inr (jwks_of keys)) payload = Inr keys \<longleftrightarrow> wf_keys keys"
  using parse_jwks_jwks_of [of "\<lambda>_. Inr (jwks_of keys)" payload keys]
    parse_jwks_wf [of "\<lambda>_. Inr (jwks_of keys)" payload keys] by iprover

definition plain_or_unicode :: "exn \<Rightarrow> bool" where
  "plain_or_unicode e \<longleftrightarrow> (\<exists>m. e = WorkContextError m) \<or> e = UnicodeEncodeError"

lemma plain_or_unicode_plain [simp]: "plain_or_unicode (WorkContextError m)"
  by (simp add: plain_or_unicode_def)

lemma validate_bounded_plain [raises]: "raises_only plain_or_unicode (validate_bounded n v l r)"
  by (simp add: validate_bounded_def plain_or_unicode_def split: option.split)

lemma parse_keys_plain: "raises_only plain_or_unicode (parse_keys ks result)"
proof (induction ks result rule: parse_keys.induct)
  case (2 key keys result)
  show ?case
  proof (cases "jget key ''kid'' (JStr (lit []))")
    case (JStr kid)
    note IH = "2.IH" [OF _ JStr]
    show ?thesis
    proof (cases "jwk_is_ed25519 key")
      case True
      show ?thesis
        using True JStr IH by (auto simp: Let_def intro!: raises_thenR validate_bounded_plain)
    qed simp
  qed (simp_all add: plain_or_unicode_def)
qed (simp_all add: plain_or_unicode_def)

lemma parse_jwks_Inl:
  assumes "parse_jwks json_loads p = Inl e"
  shows "(\<exists>m. e = WorkContextError m) \<or> e = UnicodeEncodeError \<or> json_loads p = Inl e \<and> \<not> is_value_error e"
proof (cases "json_loads p")
  case (Inl e')
  with assms show ?thesis by (auto simp: parse_jwks_def split: if_splits)
next
  case (Inr document)
  let ?k = "case document of JObj d \<Rightarrow> jget d ''keys'' JNull | _ \<Rightarrow> JNull"
  show ?thesis
  proof (cases ?k)
    case (JArr ks)
    with assms Inr have "plain_or_unicode e"
      using raises_onlyD [OF parse_keys_plain, of ks "[]" e]
      by (auto simp add: parse_jwks_def plain_or_unicode_def split: if_splits)
    then show ?thesis by (auto simp: plain_or_unicode_def)
  qed (use assms Inr in \<open>auto simp: parse_jwks_def\<close>)
qed

text \<open>C30: a fetch that fails raises \<open>WorkContextUnavailable\<close>, but for what it lets through:
  an exception of the open or of the body read outside its \<open>except\<close> clauses, a
  \<open>json.loads\<close> exception that is no \<open>ValueError\<close>, and \<open>UnicodeEncodeError\<close> on a key id
  with a lone surrogate.\<close>

theorem fetch_failures:
  assumes "fetch json_loads r = Inl e"
  shows "(\<exists>m. e = WorkContextUnavailable m) \<or> r = OpenRaises e \<or> (\<exists>ct. r = Response ct (ReadRaises e))
     \<or> e = UnicodeEncodeError \<or> (\<exists>data. json_loads data = Inl e \<and> \<not> is_value_error e)"
proof (cases r)
  case (Response ct b)
  show ?thesis
  proof (cases b)
    case (Read data)
    show ?thesis
    proof (cases "json_content_type ct \<and> length data \<le> JWKS_MAX_BYTES")
      case True
      with assms Response Read obtain e' where e': "parse_jwks json_loads data = Inl e'"
        "e = (if is_work_context_error e' then as_unavailable e' else e')"
        by (auto simp: fetch_def catchR_Inl)
      from parse_jwks_Inl [OF e'(1)] e' show ?thesis
        by (cases e') (auto split: if_splits)
    qed (use assms Response Read in \<open>auto simp: fetch_def Let_def split: if_splits\<close>)
  qed (use assms Response in \<open>auto simp: fetch_def split: if_splits\<close>)
qed (use assms in \<open>auto simp: fetch_def\<close>)

theorem fetch_failures_witness:
  "\<exists>m. fetch (\<lambda>_. Inl ValueError) (Response None (Read [])) = Inl (WorkContextUnavailable m)"
proof -
  obtain e where e: "fetch (\<lambda>_. Inl ValueError) (Response None (Read [])) = Inl e"
    by (simp add: fetch_def json_content_type_def parse_jwks_def)
  from fetch_failures [OF e] e show ?thesis
    by (auto simp: fetch_def json_content_type_def parse_jwks_def)
qed

section \<open>Properties of the configuration\<close>

lemma hostname_netloc: "hostname tables u = Some h \<Longrightarrow> u_netloc u \<noteq> []"
  by (auto simp: hostname_def hostinfo_def rpartition_code_def partition_code_def Let_def)

definition bare_http_url :: "url_tables \<Rightarrow> url \<Rightarrow> bool" where
  "bare_http_url tables u \<longleftrightarrow> u_scheme u \<in> {codes (lit ''http''), codes (lit ''https'')}
     \<and> hostname tables u \<noteq> None \<and> username u = None \<and> password u = None
     \<and> u_query u = [] \<and> u_fragment u = []"

lemma validate_jwks_url_Inr:
  assumes "validate_jwks_url tables raw = Inr v"
  shows "\<exists>u. urlsplit tables v = Some u \<and> bare_http_url tables u"
proof (cases "urlsplit tables (strip raw)")
  case (Some u)
  have bare: "bare_http_url tables u" and v: "v = geturl u"
    using assms unfolding validate_jwks_url_def Some option.case bare_http_url_def
    by (cases "hostname tables u"; simp split: if_split_asm)+
  then obtain h where "hostname tables u = Some h" by (auto simp: bare_http_url_def)
  then have "u_netloc u \<noteq> []" by (rule hostname_netloc)
  then have "urlsplit tables v = Some u"
    using urlsplit_geturl [OF urlsplit_clean [OF Some]] bare v by (simp add: bare_http_url_def)
  with bare show ?thesis by blast
qed (use assms in \<open>simp add: validate_jwks_url_def\<close>)

text \<open>C34: the URL a \<open>JWKSVerifier\<close> keeps, once split again, still has the HTTP(S) scheme, a
  host, and neither credentials nor query nor fragment; the TTL, the timeout and the clock
  skew it keeps are inside their bounds.\<close>

theorem jwks_config_sound:
  assumes "jwks_config_of tables url ttl timeout skew = Inr cfg"
  shows "(\<exists>u. urlsplit tables (cfg_url cfg) = Some u \<and> bare_http_url tables u)
     \<and> 1000000 \<le> cfg_cache_ttl cfg \<and> cfg_cache_ttl cfg \<le> 86400 * 1000000
     \<and> 1000 \<le> cfg_request_timeout cfg \<and> cfg_request_timeout cfg \<le> 30 * 1000000
     \<and> 0 \<le> cfg_clock_skew cfg \<and> cfg_clock_skew cfg \<le> 60 * 1000000"
proof -
  from assms obtain v where "validate_jwks_url tables url = Inr v" "cfg_url cfg = v"
    by (auto simp: jwks_config_of_def res_iff)
  with validate_jwks_url_Inr have "\<exists>u. urlsplit tables (cfg_url cfg) = Some u \<and> bare_http_url tables u" by simp
  with assms show ?thesis
    by (auto simp: jwks_config_of_def res_iff JWKS_MAX_CACHE_TTL_def JWKS_MAX_REQUEST_TIMEOUT_def CLOCK_SKEW_def)
qed

text \<open>Tables on which a host name is ASCII and every network location is admitted.\<close>

definition ascii_tables :: url_tables where
  "ascii_tables = \<lparr>netloc_ok = (\<lambda>_. True), lower = lower_ascii\<rparr>"

theorem jwks_config_sound_witness:
  "\<exists>u. urlsplit ascii_tables (lit ''https://h/j'') = Some u \<and> bare_http_url ascii_tables u"
proof -
  have "validate_jwks_url ascii_tables (lit '' https://h/j#'') = Inr (lit ''https://h/j'')"
    by (simp add: validate_jwks_url_def url_eval strip_def ascii_tables_def lit_def)
  then have "jwks_config_of ascii_tables (lit '' https://h/j#'') 1000000 1000 0
      = Inr \<lparr>cfg_url = lit ''https://h/j'', cfg_cache_ttl = 1000000, cfg_request_timeout = 1000, cfg_clock_skew = 0\<rparr>"
    by (simp add: jwks_config_of_def JWKS_MAX_CACHE_TTL_def JWKS_MAX_REQUEST_TIMEOUT_def CLOCK_SKEW_def)
  from jwks_config_sound [OF this] show ?thesis by simp
qed

end
