(* ===== verification/Mint.thy ===== *)
theory Mint
  imports Token
begin

text \<open>
  The mint side of \<open>work_context.py\<close>: the request each method of \<open>Client\<close> sends to the
  accounts \<open>WorkContextService\<close>, the TTL rule, the wrapping of gateway failures, and the
  header that carries an issued token (\<open>attach\<close>, \<open>token_from_headers\<close>).

  The gateway is an argument: a function of the procedure, the request and the bearer. A
  method returns the calls it made with its result, so that "no RPC" can be stated.
  Messages are those of \<open>_gen/work_contexts_pb2.pyi\<close>; the protobuf runtime's own checks of
  assigned values are not modelled.
\<close>

section \<open>Messages\<close>

record api_scope =
  api_resource_kind :: pystr
  api_actions :: "pystr list"
  api_resource_ids :: "pystr list"

datatype replay_choice = ReplayUnspecified | ReplayIdempotent | ReplaySingleUse

record start_task_request =
  st_org_id :: pystr
  st_task_id :: pystr
  st_session_id :: pystr
  st_actor_principal_id :: pystr
  st_authority_scopes :: "api_scope list"
  st_audience :: pystr
  st_replay_policy :: replay_choice
  st_ttl_seconds :: int
  st_workspace_id :: "pystr option"
  st_project_id :: "pystr option"

record exchange_request =
  ex_org_id :: pystr
  ex_parent_token :: pystr
  ex_audience :: pystr
  ex_attenuated_scopes :: "api_scope list"
  ex_replay_policy :: replay_choice
  ex_ttl_seconds :: int

record renew_request =
  rn_org_id :: pystr
  rn_parent_token :: pystr
  rn_audience :: "pystr option"
  rn_attenuated_scopes :: "api_scope list"
  rn_replay_policy :: replay_choice
  rn_ttl_seconds :: int

datatype mint_request =
    StartTask start_task_request
  | ExchangeAudience exchange_request
  | RenewWorkContext renew_request

record issued_context =
  iss_token :: pystr
  iss_org_id :: pystr
  iss_owner_principal_id :: pystr
  iss_task_id :: pystr
  iss_session_id :: pystr
  iss_parent_session_id :: "pystr option"
  iss_current_actor_principal_id :: pystr
  iss_authorization_revision :: "64 word"
  iss_expires_at :: "(64 word \<times> 32 word) option"
  iss_workspace_id :: "pystr option"
  iss_project_id :: "pystr option"

section \<open>Failures\<close>

text \<open>
  \<open>MintError procedure cause\<close> is \<open>WorkContextMintError\<close>; \<open>MintRaised\<close> is any other
  exception of the gateway.
\<close>

datatype 'x mint_exn =
    MintError string "'x mint_exn option"
  | MintTypeError
  | MintValueError
  | MintRaised 'x

record mint_call =
  mc_procedure :: string
  mc_request :: mint_request
  mc_bearer :: pystr

type_synonym 'x gateway = "mint_call \<Rightarrow> 'x mint_exn + issued_context"

section \<open>TTL\<close>

text \<open>Durations in microseconds.\<close>

definition DEFAULT_TTL :: int where
  "DEFAULT_TTL = 5 * 60 * 1000000"

definition MAX_TTL :: int where
  "MAX_TTL = 15 * 60 * 1000000"

text \<open>\<open>round(ttl.total_seconds())\<close>: to the nearest second, ties to even.\<close>

definition round_seconds :: "int \<Rightarrow> int" where
  "round_seconds us =
     (let q = us div 1000000; r = us mod 1000000 in
      if 2 * r < 1000000 then q
      else if 2 * r > 1000000 then q + 1
      else if even q then q else q + 1)"

definition ttl_seconds :: "int option \<Rightarrow> 'x mint_exn + int" where
  "ttl_seconds ttl =
     (let resolved = (case ttl of None \<Rightarrow> DEFAULT_TTL | Some t \<Rightarrow> if t = 0 then DEFAULT_TTL else t);
          seconds = round_seconds resolved
      in if \<not> (0 < seconds \<and> seconds \<le> round_seconds MAX_TTL) then Inl MintValueError
         else Inr seconds)"

section \<open>Client\<close>

text \<open>\<open>new(gateway)\<close>: a client keeps its gateway, the first argument of the methods below.\<close>

record 'x mint_client =
  mcl_gateway :: "'x gateway"

definition new_client :: "'x gateway \<Rightarrow> 'x mint_client" where
  "new_client unary = \<lparr>mcl_gateway = unary\<rparr>"

definition SERVICE :: string where
  "SERVICE = ''/saas.accounts.v1.WorkContextService/''"

definition mint :: "'x gateway \<Rightarrow> string \<Rightarrow> mint_request \<Rightarrow> pystr
    \<Rightarrow> mint_call list \<times> ('x mint_exn + issued_context)" where
  "mint unary method request bearer =
     (let call = \<lparr>mc_procedure = SERVICE @ method, mc_request = request, mc_bearer = bearer\<rparr> in
      ([call],
       case unary call of
         Inr issued \<Rightarrow> Inr issued
       | Inl (MintError p c) \<Rightarrow> Inl (MintError p c)
       | Inl MintTypeError \<Rightarrow> Inl MintTypeError
       | Inl err \<Rightarrow> Inl (MintError method (Some err))))"

text \<open>A request is built first; a TTL outside the bounds ends the method before any call.\<close>

definition mint_with :: "'x mint_exn + mint_request \<Rightarrow> 'x gateway \<Rightarrow> string \<Rightarrow> pystr
    \<Rightarrow> mint_call list \<times> ('x mint_exn + issued_context)" where
  "mint_with built unary method bearer =
     (case built of Inl e \<Rightarrow> ([], Inl e) | Inr request \<Rightarrow> mint unary method request bearer)"

definition present :: "pystr \<Rightarrow> pystr option" where
  "present s = (if truthy s then Some s else None)"

record start_task_args =
  sa_org_id :: pystr
  sa_task_id :: pystr
  sa_session_id :: pystr
  sa_audience :: pystr
  sa_scopes :: "api_scope list"
  sa_actor_principal_id :: pystr
  sa_ttl :: "int option"
  sa_replay_policy :: replay_choice
  sa_workspace_id :: pystr
  sa_project_id :: pystr

definition start_task_request_of :: "start_task_args \<Rightarrow> 'x mint_exn + mint_request" where
  "start_task_request_of a =
     bindR (ttl_seconds (sa_ttl a)) (\<lambda>ttl. Inr (StartTask
       \<lparr>st_org_id = sa_org_id a, st_task_id = sa_task_id a, st_session_id = sa_session_id a,
        st_actor_principal_id = (if truthy (sa_actor_principal_id a) then sa_actor_principal_id a else Str []),
        st_authority_scopes = sa_scopes a, st_audience = sa_audience a,
        st_replay_policy = sa_replay_policy a, st_ttl_seconds = ttl,
        st_workspace_id = present (sa_workspace_id a), st_project_id = present (sa_project_id a)\<rparr>))"

definition start_task :: "'x gateway \<Rightarrow> pystr \<Rightarrow> start_task_args
    \<Rightarrow> mint_call list \<times> ('x mint_exn + issued_context)" where
  "start_task unary bearer a = mint_with (start_task_request_of a) unary ''StartTask'' bearer"

definition exchange_request_of :: "issued_context \<Rightarrow> pystr \<Rightarrow> api_scope list \<Rightarrow> int option \<Rightarrow> replay_choice
    \<Rightarrow> 'x mint_exn + mint_request" where
  "exchange_request_of parent aud scopes ttl policy =
     bindR (ttl_seconds ttl) (\<lambda>t. Inr (ExchangeAudience
       \<lparr>ex_org_id = iss_org_id parent, ex_parent_token = iss_token parent, ex_audience = aud,
        ex_attenuated_scopes = scopes, ex_replay_policy = policy, ex_ttl_seconds = t\<rparr>))"

definition exchange_audience :: "'x gateway \<Rightarrow> pystr \<Rightarrow> issued_context \<Rightarrow> pystr \<Rightarrow> api_scope list \<Rightarrow> int option
    \<Rightarrow> replay_choice \<Rightarrow> mint_call list \<times> ('x mint_exn + issued_context)" where
  "exchange_audience unary bearer parent aud scopes ttl policy =
     mint_with (exchange_request_of parent aud scopes ttl policy) unary ''ExchangeAudience'' bearer"

definition renew_request_of :: "issued_context \<Rightarrow> pystr option \<Rightarrow> api_scope list \<Rightarrow> int option \<Rightarrow> replay_choice
    \<Rightarrow> 'x mint_exn + mint_request" where
  "renew_request_of ctx aud scopes ttl policy =
     bindR (ttl_seconds ttl) (\<lambda>t. Inr (RenewWorkContext
       \<lparr>rn_org_id = iss_org_id ctx, rn_parent_token = iss_token ctx,
        rn_audience = (case aud of None \<Rightarrow> None | Some a \<Rightarrow> present a),
        rn_attenuated_scopes = (if scopes \<noteq> [] then scopes else []),
        rn_replay_policy = policy, rn_ttl_seconds = t\<rparr>))"

definition renew :: "'x gateway \<Rightarrow> pystr \<Rightarrow> issued_context \<Rightarrow> pystr option \<Rightarrow> api_scope list \<Rightarrow> int option
    \<Rightarrow> replay_choice \<Rightarrow> mint_call list \<times> ('x mint_exn + issued_context)" where
  "renew unary bearer ctx aud scopes ttl policy =
     mint_with (renew_request_of ctx aud scopes ttl policy) unary ''RenewWorkContext'' bearer"

section \<open>The header\<close>

definition WORK_CONTEXT_HEADER :: pystr where
  "WORK_CONTEXT_HEADER = lit ''x-codefly-work-context''"

definition HEADER_NAME :: pystr where
  "HEADER_NAME = WORK_CONTEXT_HEADER"

text \<open>\<open>WORK_CONTEXT_HEADER.title()\<close>.\<close>

definition WORK_CONTEXT_HEADER_TITLE :: pystr where
  "WORK_CONTEXT_HEADER_TITLE = lit ''X-Codefly-Work-Context''"

definition validated_token :: "pystr \<Rightarrow> exn + pystr" where
  "validated_token token =
     (if \<not> truthy token then Inl ValueError
      else case utf8_encode token of
        None \<Rightarrow> Inl UnicodeEncodeError
      | Some b \<Rightarrow>
          if length b > MAX_TOKEN_BYTES then Inl ValueError
          else if str_count DOT token \<noteq> 1 then Inl ValueError
          else Inr token)"

type_synonym headers = "pystr \<rightharpoonup> pystr"

text \<open>\<open>attach\<close> takes a header mapping or an object that has one as \<open>.headers\<close>.\<close>

datatype target = HeaderMap headers | RequestObject headers

fun target_headers :: "target \<Rightarrow> headers" where
  "target_headers (HeaderMap h) = h"
| "target_headers (RequestObject h) = h"

fun with_headers :: "target \<Rightarrow> headers \<Rightarrow> target" where
  "with_headers (HeaderMap _) h = HeaderMap h"
| "with_headers (RequestObject _) h = RequestObject h"

definition attach :: "target \<Rightarrow> issued_context \<Rightarrow> exn + target" where
  "attach tgt ctx =
     bindR (validated_token (iss_token ctx)) (\<lambda>token.
       Inr (with_headers tgt ((target_headers tgt)(WORK_CONTEXT_HEADER \<mapsto> token))))"

text \<open>\<open>a or b\<close> on optional strings: an absent or empty value falls through.\<close>

definition or_else :: "pystr option \<Rightarrow> pystr option \<Rightarrow> pystr option" where
  "or_else a b = (case a of None \<Rightarrow> b | Some s \<Rightarrow> if truthy s then Some s else b)"

definition token_from_headers :: "headers option \<Rightarrow> exn + pystr" where
  "token_from_headers hs =
     (case hs of
        None \<Rightarrow> Inl (WorkContextError (Msg ''missing HTTP headers''))
      | Some h \<Rightarrow>
          (case or_else (or_else (h WORK_CONTEXT_HEADER) (h WORK_CONTEXT_HEADER_TITLE)) (Some (Str [])) of
             None \<Rightarrow> Inr (Str []) | Some encoded \<Rightarrow> Inr encoded))"

section \<open>Lemmas\<close>

lemma round_seconds_bounds:
  "0 < round_seconds us \<longleftrightarrow> 500000 < us"
  "round_seconds us \<le> 900 \<longleftrightarrow> us \<le> 900500000"
proof -
  define q r where "q = us div 1000000" and "r = us mod 1000000"
  then have us: "us = q * 1000000 + r" and r: "0 \<le> r" "r < 1000000" by simp_all
  have rs: "round_seconds us = (if 2 * r < 1000000 then q else if 2 * r > 1000000 then q + 1
      else if even q then q else q + 1)"
    by (simp add: round_seconds_def q_def r_def Let_def)
  have odd: "q \<noteq> 0" if "odd q" using that by auto
  have odd900: "q \<noteq> 900" if "odd q" using that by auto
  show "0 < round_seconds us \<longleftrightarrow> 500000 < us"
    unfolding rs using us r odd by (cases "even q") (auto split: if_splits)
  show "round_seconds us \<le> 900 \<longleftrightarrow> us \<le> 900500000"
    unfolding rs using us r odd900 by (cases "even q") (auto split: if_splits)
qed

lemma round_seconds_consts: "round_seconds MAX_TTL = 900" "round_seconds DEFAULT_TTL = 300"
  by (simp_all add: round_seconds_def MAX_TTL_def DEFAULT_TTL_def)

lemma ttl_seconds_Inr:
  "ttl_seconds ttl = Inr n \<longleftrightarrow>
     (if ttl \<in> {None, Some 0} then n = 300
      else \<exists>t. ttl = Some t \<and> 500000 < t \<and> t \<le> 900500000 \<and> n = round_seconds t)"
  using round_seconds_bounds
  by (cases ttl) (auto simp: ttl_seconds_def Let_def round_seconds_consts(1) DEFAULT_TTL_def
    round_seconds_consts(2) [unfolded DEFAULT_TTL_def, simplified])

lemma ttl_seconds_range: "ttl_seconds ttl = Inr n \<Longrightarrow> 1 \<le> n \<and> n \<le> 900"
  by (auto simp: ttl_seconds_def Let_def round_seconds_consts split: if_splits)

lemma validated_token_shape: "validated_token t = Inr t' \<longleftrightarrow> t' = t \<and> validate_token_shape t = Inr ()"
  by (auto simp: validated_token_def validate_token_shape_def split: option.splits)

lemma target_headers_with [simp]: "target_headers (with_headers t h) = h"
  by (cases t) simp_all

lemma mint_with_Inl: "built = Inl e \<Longrightarrow> mint_with built unary method bearer = ([], Inl e)"
  by (simp add: mint_with_def)

lemma mint_failure:
  "snd (mint unary method request bearer) = Inl e \<Longrightarrow>
     (\<exists>c. e = MintError method c) \<or> unary \<lparr>mc_procedure = SERVICE @ method, mc_request = request, mc_bearer = bearer\<rparr> = Inl e
       \<and> (e = MintTypeError \<or> (\<exists>p c. e = MintError p c))"
  by (auto simp: mint_def Let_def split: sum.splits mint_exn.splits)

section \<open>Properties of the mint side\<close>

text \<open>C31: a TTL is accepted exactly when it is absent or zero, and then it is five minutes,
  or when it lies above half a second and at most half a second beyond the fifteen-minute
  cap; a TTL that is sent is always between 1 and 900 seconds.\<close>

theorem ttl_seconds_exact:
  "(ttl_seconds ttl = Inr n) = (if ttl \<in> {None, Some 0} then n = 300
     else \<exists>t. ttl = Some t \<and> 500000 < t \<and> t \<le> 900500000 \<and> n = round_seconds t \<and> 1 \<le> n \<and> n \<le> 900)"
  using ttl_seconds_range [of ttl n] by (auto simp: ttl_seconds_Inr)

text \<open>\<open>start_task\<close> on a TTL outside the bounds makes no call and raises
  \<open>ValueError\<close>; otherwise it makes exactly one call, to \<open>StartTask\<close>, with the caller's
  bearer and a TTL in bounds, and whatever exception the gateway raises leaves as a
  \<open>WorkContextMintError\<close> unless it is a \<open>TypeError\<close>.\<close>

theorem start_task_calls:
  fixes unary :: "'x gateway"
  shows "(\<exists>e :: 'x mint_exn. ttl_seconds (sa_ttl a) = Inl e \<and> start_task unary bearer a = ([], Inl MintValueError))
   \<or> (\<exists>request result. start_task unary bearer a
        = ([\<lparr>mc_procedure = ''/saas.accounts.v1.WorkContextService/StartTask'',
             mc_request = StartTask request, mc_bearer = bearer\<rparr>], result)
      \<and> 1 \<le> st_ttl_seconds request \<and> st_ttl_seconds request \<le> 900
      \<and> st_org_id request = sa_org_id a \<and> st_audience request = sa_audience a
      \<and> st_task_id request = sa_task_id a \<and> st_session_id request = sa_session_id a
      \<and> st_authority_scopes request = sa_scopes a
      \<and> (case result of Inr _ \<Rightarrow> True | Inl e \<Rightarrow> e = MintTypeError \<or> (\<exists>p c. e = MintError p c)))"
proof (cases "ttl_seconds (sa_ttl a) :: 'x mint_exn + int")
  case (Inl e)
  then have "e = MintValueError" by (auto simp: ttl_seconds_def Let_def split: if_splits)
  with Inl show ?thesis by (auto simp: start_task_def start_task_request_of_def mint_with_def)
next
  case (Inr n)
  obtain request where r: "(start_task_request_of a :: 'x mint_exn + mint_request) = Inr (StartTask request)"
    "st_ttl_seconds request = n" "st_org_id request = sa_org_id a" "st_audience request = sa_audience a"
    "st_authority_scopes request = sa_scopes a" "st_task_id request = sa_task_id a"
    "st_session_id request = sa_session_id a"
    by (auto simp: start_task_request_of_def Inr)
  obtain calls result where m: "mint unary ''StartTask'' (StartTask request) bearer = (calls, result)"
    by fastforce
  then have "calls = [\<lparr>mc_procedure = ''/saas.accounts.v1.WorkContextService/StartTask'',
      mc_request = StartTask request, mc_bearer = bearer\<rparr>]"
    by (simp add: mint_def Let_def SERVICE_def)
  moreover have "case result of Inr _ \<Rightarrow> True | Inl e \<Rightarrow> e = MintTypeError \<or> (\<exists>p c. e = MintError p c)"
    using m mint_failure [of unary "''StartTask''" "StartTask request" bearer] by (auto split: sum.splits)
  ultimately show ?thesis
    using m r ttl_seconds_range [OF Inr] by (auto simp: start_task_def mint_with_def)
qed

text \<open>C32: \<open>attach\<close> stamps exactly the tokens whose shape the verifier admits, leaves every
  other header as it was, and \<open>token_from_headers\<close> reads the same token back.\<close>

theorem attach_roundtrip:
  "(attach tgt ctx = Inr tgt') = (validate_token_shape (iss_token ctx) = Inr ()
     \<and> tgt' = with_headers tgt ((target_headers tgt)(WORK_CONTEXT_HEADER \<mapsto> iss_token ctx))
     \<and> token_from_headers (Some (target_headers tgt')) = Inr (iss_token ctx))"
proof -
  have "truthy (iss_token ctx)" if "validate_token_shape (iss_token ctx) = Inr ()"
    using that by (simp add: validate_token_shape_Inr truthy_iff)
  then show ?thesis
    by (auto simp: attach_def res_iff validated_token_shape token_from_headers_def or_else_def simp del: validate_token_shape_Inr)
qed

end
