(* ===== verification/Samples.thy ===== *)
theory Samples
  imports Jwks Mint
begin

text \<open>
  Small concrete inputs on which the properties are exercised: a context with one actor, a
  library that knows one payload and one key, and the published key set of that key.
\<close>

definition sample_scope :: core_scope where
  "sample_scope = \<lparr>pb_resource_kind = lit ''doc'', pb_actions = [lit ''read'', lit ''write''],
     pb_resource_ids = []\<rparr>"

definition sample_actor :: core_actor where
  "sample_actor = \<lparr>pb_principal_id = lit ''agent'', pb_principal_kind = lit ''bot'',
     pb_delegation_id = lit ''d1'',
     pb_granted_scopes = [\<lparr>pb_resource_kind = lit ''doc'', pb_actions = [lit ''read''],
       pb_resource_ids = [lit ''7'']\<rparr>],
     pb_agent_id = None, pb_actor_organization_id = None, pb_actor_principal_epoch = 0\<rparr>"

definition sample_core :: core_context where
  "sample_core = \<lparr>pb_typ = lit ''codefly.work-context/v1'', pb_algorithm = lit ''Ed25519'',
     pb_key_id = lit ''k1'', pb_issuer = lit ''iss'', pb_audience = lit ''svc'',
     pb_not_before_unix = 100, pb_issued_at_unix = 100, pb_expires_at_unix = 400,
     pb_nonce = lit ''n'', pb_authorization_revision = 7, pb_replay_policy = lit ''idempotent'',
     pb_tenant_id = lit ''org'', pb_owner_principal_id = lit ''user'', pb_task_id = lit ''t'',
     pb_session_id = lit ''s'', pb_parent_session_id = None, pb_authority_scopes = [sample_scope],
     pb_actor_chain = [sample_actor], pb_attribution_team_ids = [], pb_workspace_id = None,
     pb_project_id = None, pb_owner_principal_kind = None, pb_owner_agent_id = None,
     pb_organization_id = None, pb_grant_hop = None, pb_seal = None, pb_operation_binding = None,
     pb_unknown_fields = []\<rparr>"

definition sample_claims :: work_context where
  "sample_claims = work_context_of sample_core"

definition sample_payload :: bytes where
  "sample_payload = [0x0A, 0x01]"

definition sample_key :: bytes where
  "sample_key = replicate 32 0x05"

definition sample_signature :: bytes where
  "sample_signature = replicate 64 0x09"

definition sample_token :: pystr where
  "sample_token = wire_token sample_payload sample_signature"

definition sample_lib :: "bytes library" where
  "sample_lib = \<lparr>lib_parse = (\<lambda>p. if p = sample_payload then Some sample_core else None),
     lib_discard_unknown = (\<lambda>m. m\<lparr>pb_unknown_fields := []\<rparr>),
     lib_serialize = (\<lambda>m. if m = sample_core then sample_payload else []),
     lib_load_key = Inr, lib_verify = (\<lambda>k s p. k = sample_key \<and> s = sample_signature)\<rparr>"

definition sample_verifier :: "bytes verifier" where
  "sample_verifier = \<lparr>ver_keys = [lit ''k1'' \<mapsto> sample_key], ver_clock_skew = CLOCK_SKEW\<rparr>"

definition sample_now :: int where
  "sample_now = 200 * 1000000"

definition sample_requirement :: scope_requirement where
  "sample_requirement = \<lparr>req_resource_kind = lit ''doc'', req_action = lit ''read'',
     req_resource_id = lit ''7'', require_explicit_resource = False\<rparr>"

section \<open>The sample is accepted\<close>

lemma sample_claims_valid: "validate_work_context sample_claims = Inr ()"
  by code_simp

lemma sample_claims_wf: "wf_context sample_claims"
  using sample_claims_valid validate_work_context_wf by blast

lemma sample_scope_granted: "require_scope sample_claims sample_requirement = Inr ()"
  by code_simp

lemma sample_token_length: "length (codes sample_token) = 90"
  by code_simp

lemma sample_canonical: "canonical_payload sample_lib sample_payload sample_core"
  by (simp add: canonical_payload_def sample_lib_def sample_payload_def sample_core_def)

lemma sample_accepts:
  "accepts sample_lib sample_verifier sample_now no_expectations sample_payload sample_signature sample_core"
proof -
  have "bounded_str MAX_KIND_BYTES (pb_key_id sample_core)" by code_simp
  moreover have "ver_keys sample_verifier (pb_key_id sample_core) = Some sample_key"
    by (simp add: sample_verifier_def sample_core_def)
  moreover have "lib_verify sample_lib sample_key sample_signature sample_payload"
    by (simp add: sample_lib_def)
  moreover have "in_window (ver_clock_skew sample_verifier) sample_now sample_claims" by code_simp
  moreover have "match_expectations sample_claims no_expectations = Inr ()" by code_simp
  ultimately show ?thesis
    using sample_canonical sample_claims_wf match_expectations_meets
    by (auto simp: accepts_def sample_claims_def)
qed

lemma sample_verified: "verify sample_lib sample_verifier sample_now sample_token no_expectations = Inr sample_claims"
  unfolding verify_Inr
  using sample_accepts sample_token_length
  by (intro exI [of _ sample_payload] exI [of _ sample_signature] exI [of _ sample_core])
    (simp add: sample_token_def sample_signature_def sample_claims_def)

section \<open>A published key set\<close>

definition sample_keys :: "(pystr \<times> bytes) list" where
  "sample_keys = [(lit ''k1'', sample_key)]"

definition sample_env :: "bytes env" where
  "sample_env = \<lparr>env_lib = sample_lib,
     env_json_loads = (\<lambda>b. if b = [0x7B] then Inr (jwks_of sample_keys) else Inl ValueError),
     env_config = \<lparr>cfg_url = lit ''https://host/jwks.json'', cfg_cache_ttl = 300 * 1000000,
       cfg_request_timeout = 2 * 1000000, cfg_clock_skew = CLOCK_SKEW\<rparr>\<rparr>"

definition sample_reply :: reply where
  "sample_reply = Response None (Read [0x7B])"

definition sample_refresh :: refresh_io where
  "sample_refresh = \<lparr>io_reply = sample_reply, io_done = sample_now\<rparr>"

definition sample_outage :: refresh_io where
  "sample_outage = \<lparr>io_reply = HttpError 503, io_done = sample_now\<rparr>"

definition sample_vio :: verify_io where
  "sample_vio = \<lparr>vio_now = sample_now, vio_refresh = sample_refresh, vio_unknown = sample_refresh,
     vio_validate = sample_now\<rparr>"

text \<open>The cache after the first fetch.\<close>

definition sample_cache :: "bytes jwks" where
  "sample_cache = fst (current sample_env sample_now sample_refresh jwks_empty)"

lemma sample_keys_wf: "wf_keys sample_keys"
  by code_simp

lemma sample_verifier_init: "verifier_init sample_lib sample_keys CLOCK_SKEW = Inr sample_verifier"
proof -
  have "validate_bounded (L ''key_id'') (lit ''k1'') MAX_KIND_BYTES True = Inr ()" by code_simp
  then show ?thesis
    by (simp add: verifier_init_def sample_keys_def sample_key_def sample_lib_def sample_verifier_def CLOCK_SKEW_def)
qed

lemma sample_build_keys: "build_keys sample_env sample_reply = Inr (sample_keys, sample_verifier)"
  using parse_jwks_jwks_of [of "env_json_loads sample_env" "[0x7B]" sample_keys] sample_keys_wf sample_verifier_init
  by (auto simp: build_keys_Inr fetch_Inr sample_reply_def sample_env_def json_content_type_def)

lemma sample_current:
  "current sample_env sample_now sample_refresh jwks_empty = (sample_cache, Inr (sample_verifier, [lit ''k1''], 1))"
proof -
  have "snd (current sample_env sample_now sample_refresh jwks_empty) = Inr (sample_verifier, [lit ''k1''], 1)"
    using sample_build_keys
    by (simp add: current_def refresh_locked_def jwks_empty_def sample_refresh_def sample_now_def sample_keys_def)
  then show ?thesis by (simp add: sample_cache_def prod_eq_iff)
qed

lemma sample_cache_state: "sample_cache = \<lparr>jw_verifier = Some sample_verifier, jw_key_ids = [lit ''k1''],
    jw_expires_at = 500 * 1000000, jw_generation = 1, jw_unknown_refresh_generation = 0, jw_retry_after = 0,
    jw_last_error = None, jw_requests = 1\<rparr>"
  using sample_build_keys
  by (simp add: sample_cache_def current_def refresh_locked_def jwks_empty_def sample_refresh_def sample_now_def
      sample_keys_def sample_env_def)

lemma sample_token_key: "token_key_id sample_lib sample_token = Inr (lit ''k1'')"
  using verify_token_key_id [OF sample_verified]
  by (simp add: sample_claims_def work_context_of_def sample_core_def)

lemma sample_jwks_verified:
  "jwks_verify sample_env sample_vio sample_token no_expectations jwks_empty = (sample_cache, Inr sample_claims)"
proof -
  have "env_lib sample_env = sample_lib" by (simp add: sample_env_def)
  then show ?thesis
    using sample_token_key sample_current sample_verified by (simp add: jwks_verify_def sample_vio_def)
qed

end
