(* ===== verification/Revision.thy ===== *)
theory Revision
  imports Claims Json Url Jwks Mint
begin

text \<open>
  \<open>authorization_revision.py\<close>: the current-revision check of verified claims. The request
  (\<open>revision_request\<close>), the internal credential, the addresses, and the decision of the two
  transports, Connect (\<open>ConnectClient\<close>) and gRPC (\<open>_GRPCRevision\<close>).

  The credential provider, the protobuf runtime, \<open>httpx\<close>, \<open>grpc\<close> and \<open>json.loads\<close> are
  inputs or parameters. \<open>asyncio.TimeoutError\<close> is the built-in \<open>TimeoutError\<close>
  (Python 3.11 and later). The expiry of \<open>asyncio.wait_for\<close> is a cancellation at the await
  point it meets (\<open>interrupted\<close>).
\<close>

section \<open>Exceptions\<close>

datatype grpc_code =
    OK | CANCELLED | UNKNOWN | INVALID_ARGUMENT | DEADLINE_EXCEEDED | NOT_FOUND | ALREADY_EXISTS
  | PERMISSION_DENIED | RESOURCE_EXHAUSTED | FAILED_PRECONDITION | ABORTED | OUT_OF_RANGE
  | UNIMPLEMENTED | INTERNAL | UNAVAILABLE | DATA_LOSS | UNAUTHENTICATED

text \<open>What a library call raises, by the classes the \<open>except\<close> clauses tell apart.\<close>

datatype lib_exn =
    LibValueError
  | LibOSError
  | LibTimeoutError
  | HttpxError              \<comment> \<open>\<open>httpx.HTTPError\<close> and its subclasses\<close>
  | AioRpcError grpc_code
  | LibOther                \<comment> \<open>any other exception\<close>

datatype rev_exn =
    RevisionDenied
  | RevisionUnavailable
  | RevImportError
  | Lib lib_exn
  | Cancelled               \<comment> \<open>the expired time limit cancels the await\<close>

abbreviation RevValueError :: rev_exn where
  "RevValueError \<equiv> Lib LibValueError"

definition lifted :: "lib_exn + 'a \<Rightarrow> rev_exn + 'a" where
  "lifted m = map_sum Lib id m"

definition unavailable_builtin :: "rev_exn \<Rightarrow> bool" where
  "unavailable_builtin e \<longleftrightarrow> e \<in> {Lib LibOSError, Lib LibValueError, Lib LibTimeoutError}"

definition connect_caught :: "rev_exn \<Rightarrow> bool" where
  "connect_caught e \<longleftrightarrow> e = Lib HttpxError \<or> unavailable_builtin e"

section \<open>The request\<close>

record rev_subject =
  sub_principal_id :: pystr
  sub_scopes :: "api_scope list"

record check_request =
  rv_org_id :: pystr
  rv_owner_principal_id :: pystr
  rv_authorization_revision :: int
  rv_subjects :: "rev_subject list"

text \<open>
  The protobuf runtime refuses a field value out of range or no Unicode (\<open>ValueError\<close>) or
  of a wrong type (\<open>TypeError\<close>).
\<close>

datatype pb_exn = PbValueError | PbTypeError

record pb_runtime =
  pb_refuses_subject :: "rev_subject \<Rightarrow> pb_exn option"
  pb_refuses_request :: "check_request \<Rightarrow> pb_exn option"

fun pb_raised :: "pb_exn \<Rightarrow> rev_exn" where
  "pb_raised PbValueError = Lib LibValueError"
| "pb_raised PbTypeError = Lib LibOther"

definition built :: "('m \<Rightarrow> pb_exn option) \<Rightarrow> 'm \<Rightarrow> rev_exn + 'm" where
  "built refuses m = (case refuses m of Some e \<Rightarrow> Inl (pb_raised e) | None \<Rightarrow> Inr m)"

definition api_scopes_of :: "work_scope list \<Rightarrow> api_scope list" where
  "api_scopes_of = map (\<lambda>s. \<lparr>api_resource_kind = resource_kind s, api_actions = actions s,
     api_resource_ids = resource_ids s\<rparr>)"

definition subject :: "pb_runtime \<Rightarrow> pystr \<Rightarrow> work_scope list \<Rightarrow> rev_exn + rev_subject" where
  "subject pb who scopes =
     (if \<not> truthy who then Inl RevisionUnavailable
      else built (pb_refuses_subject pb) \<lparr>sub_principal_id = who, sub_scopes = api_scopes_of scopes\<rparr>)"

fun actor_subjects :: "pb_runtime \<Rightarrow> work_actor list \<Rightarrow> rev_exn + rev_subject list" where
  "actor_subjects pb [] = Inr []"
| "actor_subjects pb (a # as) =
     bindR (subject pb (principal_id a) (granted_scopes a)) (\<lambda>s.
     bindR (actor_subjects pb as) (\<lambda>ss. Inr (s # ss)))"

definition revision_request :: "pb_runtime \<Rightarrow> work_context \<Rightarrow> rev_exn + check_request" where
  "revision_request pb claims =
     (if \<not> truthy (tenant_id claims) \<or> \<not> truthy (owner_principal_id claims) then Inl RevisionUnavailable
      else bindR (subject pb (owner_principal_id claims) (authority_scopes claims)) (\<lambda>owner.
           bindR (actor_subjects pb (actor_chain claims)) (\<lambda>actors.
           built (pb_refuses_request pb)
             \<lparr>rv_org_id = tenant_id claims, rv_owner_principal_id = owner_principal_id claims,
              rv_authorization_revision = authorization_revision claims, rv_subjects = owner # actors\<rparr>)))"

section \<open>The internal credential\<close>

text \<open>What the provider does: it raises an \<open>Exception\<close>, or returns a value, \<open>None\<close>
  standing for one that is no \<open>str\<close>.\<close>

datatype provided = ProviderRaises | Provided "pystr option"

definition internal_credential :: "provided \<Rightarrow> rev_exn + pystr" where
  "internal_credential p =
     (case p of
        ProviderRaises \<Rightarrow> Inl RevisionUnavailable
      | Provided None \<Rightarrow> Inl RevisionUnavailable
      | Provided (Some token) \<Rightarrow>
          if \<not> (1 \<le> length (codes token) \<and> length (codes token) \<le> 8192)
             \<or> list_ex (\<lambda>c. c < 33 \<or> c > 126) (codes token)
          then Inl RevisionUnavailable else Inr token)"

section \<open>Addresses\<close>

text \<open>\<open>"/saas.accounts.v1.WorkContextService/CheckAuthorizationRevision"\<close>.\<close>

definition REVISION_PATH :: pystr where
  "REVISION_PATH = lit (SERVICE @ ''CheckAuthorizationRevision'')"

definition has_space_or_control :: "pystr \<Rightarrow> bool" where
  "has_space_or_control s \<longleftrightarrow> list_ex (\<lambda>c. is_space c \<or> c < 32) (codes s)"

definition https_origin :: "url_tables \<Rightarrow> pystr \<Rightarrow> rev_exn + pystr" where
  "https_origin tables value =
     (case urlsplit tables value of
        None \<Rightarrow> Inl RevValueError
      | Some u \<Rightarrow>
          if u_scheme u \<noteq> codes (lit ''https'')
             \<or> \<not> (case hostname tables u of None \<Rightarrow> False | Some h \<Rightarrow> truthy h)
             \<or> username u \<noteq> None \<or> password u \<noteq> None
             \<or> u_path u \<notin> {[], [47]} \<or> u_query u \<noteq> [] \<or> u_fragment u \<noteq> []
             \<or> 92 \<in> set (codes value) \<or> has_space_or_control value
             \<or> (case port_of u of None \<Rightarrow> True | Some p \<Rightarrow> p = Some 0)
          then Inl RevValueError
          else Inr (Str (rstrip_code 47 (codes value))))"

text \<open>\<open>"://" in value\<close>.\<close>

fun contains :: "nat list \<Rightarrow> nat list \<Rightarrow> bool" where
  "contains needle [] = (needle = [])"
| "contains needle (c # cs) = (take (length needle) (c # cs) = needle \<or> contains needle cs)"

text \<open>\<open>f"[{host}]" if ":" in host else host\<close>.\<close>

definition bracketed :: "pystr \<Rightarrow> nat list" where
  "bracketed host = (if 58 \<in> set (codes host) then 91 # codes host @ [93] else codes host)"

definition mesh_address :: "url_tables \<Rightarrow> pystr option \<Rightarrow> rev_exn + pystr" where
  "mesh_address tables value =
     (case value of
        None \<Rightarrow> Inl RevValueError
      | Some v \<Rightarrow>
          if contains [58, 47, 47] (codes v) \<or> list_ex (\<lambda>c. c \<in> {47, 63, 35, 64, 92}) (codes v)
             \<or> has_space_or_control v
          then Inl RevValueError
          else case urlsplit tables (Str (47 # 47 # codes v)) of
            None \<Rightarrow> Inl RevValueError
          | Some u \<Rightarrow>
              (case (hostname tables u, case port_of u of None \<Rightarrow> None | Some p \<Rightarrow> p) of
                 (Some h, Some p) \<Rightarrow>
                   if \<not> truthy h \<or> p = 0 then Inl RevValueError
                   else Inr (Str (bracketed h @ 58 # digits p))
               | _ \<Rightarrow> Inl RevValueError))"

section \<open>Connect\<close>

text \<open>
  The JSON text as \<open>json.loads\<close> reads it before the hooks of \<open>_decode\<close>: an object is its
  items, duplicates included, and \<open>NaN\<close>, \<open>Infinity\<close>, \<open>-Infinity\<close> are floats with that
  text. The hooks refuse duplicate keys and these constants, at any depth.
\<close>

fun strict_json :: "json \<Rightarrow> bool" where
  "strict_json (JArr vs) = list_all strict_json vs"
| "strict_json (JObj items) = (distinct (map fst items) \<and> list_all (\<lambda>(_, v). strict_json v) items)"
| "strict_json (JFloat t) = finite_float t"
| "strict_json _ = True"

definition decode :: "(bytes \<Rightarrow> lib_exn + json) \<Rightarrow> bytes \<Rightarrow> rev_exn + json" where
  "decode json_loads data =
     bindR (lifted (json_loads data)) (\<lambda>j. if strict_json j then Inr j else Inl RevValueError)"

text \<open>
  A response: its headers, the body as the chunks \<open>aiter_bytes\<close> yields and the exception
  that ends it, if any, and what \<open>aclose\<close> raises, if anything.
\<close>

record connect_response =
  cr_status :: int
  cr_content_type :: "pystr option"
  cr_content_encoding :: "pystr option"
  cr_parts :: "bytes list"
  cr_parts_end :: "lib_exn option"
  cr_close :: "lib_exn option"

fun read_body :: "bytes \<Rightarrow> bytes list \<Rightarrow> lib_exn option \<Rightarrow> rev_exn + bytes" where
  "read_body data [] ending = (case ending of None \<Rightarrow> Inr data | Some e \<Rightarrow> Inl (Lib e))"
| "read_body data (part # parts) ending =
     (let data = data @ part in
      if length data > 8192 then Inl RevValueError else read_body data parts ending)"

definition connect_answer :: "(bytes \<Rightarrow> lib_exn + json) \<Rightarrow> connect_response \<Rightarrow> rev_exn + unit" where
  "connect_answer json_loads r =
     thenR (guardR (cr_status r \<notin> {200, 400, 403}) RevValueError)
     (thenR (guardR (fst (split_once 59 (case cr_content_type r of None \<Rightarrow> Str [] | Some t \<Rightarrow> t))
          \<noteq> lit ''application/json'') RevValueError)
     (thenR (guardR ((case cr_content_encoding r of None \<Rightarrow> lit ''identity'' | Some t \<Rightarrow> t)
          \<noteq> lit ''identity'') RevValueError)
     (bindR (read_body [] (cr_parts r) (cr_parts_end r)) (\<lambda>data.
      bindR (decode json_loads data) (\<lambda>payload.
        if cr_status r \<noteq> 200 then
          (case payload of
             JObj d \<Rightarrow>
               if (cr_status r, jget d ''code'' JNull)
                  \<in> {(400, JStr (lit ''failed_precondition'')), (403, JStr (lit ''permission_denied''))}
               then Inl RevisionDenied else Inl RevValueError
           | _ \<Rightarrow> Inl RevValueError)
        else if payload \<noteq> JObj [] then Inl RevValueError
        else Inr ())))))"

record connect_request =
  cq_url :: pystr
  cq_headers :: "(string \<times> pystr) list"
  cq_content :: bytes

text \<open>\<open>ce_content\<close> is \<open>json.dumps(MessageToDict(request)).encode()\<close>, \<open>ce_send\<close> what
  \<open>client.send\<close> does.\<close>

record connect_env =
  ce_endpoint :: pystr
  ce_pb :: pb_runtime
  ce_content :: "check_request \<Rightarrow> lib_exn + bytes"
  ce_send :: "connect_request \<Rightarrow> lib_exn + connect_response"
  ce_json_loads :: "bytes \<Rightarrow> lib_exn + json"

text \<open>The await point the time limit meets, if it is reached.\<close>

datatype await_point = AtCredential | AtSend | AtBody | AtClose

datatype connect_event = Sent connect_request | Closed

definition interrupted :: "await_point option \<Rightarrow> await_point \<Rightarrow> rev_exn + 'a \<Rightarrow> rev_exn + 'a" where
  "interrupted limit here m = (if limit = Some here then Inl Cancelled else m)"

definition connect_request_of :: "connect_env \<Rightarrow> pystr \<Rightarrow> bytes \<Rightarrow> connect_request" where
  "connect_request_of env token content =
     \<lparr>cq_url = ce_endpoint env,
      cq_headers = [(''content-type'', lit ''application/json''), (''accept'', lit ''application/json''),
        (''accept-encoding'', lit ''identity''), (''connect-protocol-version'', lit ''1''),
        (''x-codefly-internal-token'', token)],
      cq_content = content\<rparr>"

definition connect_prepare :: "connect_env \<Rightarrow> await_point option \<Rightarrow> provided \<Rightarrow> work_context \<Rightarrow> rev_exn + connect_request" where
  "connect_prepare env limit credential claims =
     bindR (interrupted limit AtCredential (internal_credential credential)) (\<lambda>token.
     bindR (revision_request (ce_pb env) claims) (\<lambda>request.
     bindR (lifted (ce_content env request)) (\<lambda>content. Inr (connect_request_of env token content))))"

definition as_rev_unavailable :: "(rev_exn \<Rightarrow> bool) \<Rightarrow> rev_exn + 'a \<Rightarrow> rev_exn + 'a" where
  "as_rev_unavailable caught m = catchR caught m (\<lambda>_. RevisionUnavailable)"

text \<open>\<open>ConnectClient._check\<close>, with its \<open>except\<close> and \<open>finally\<close> clauses: what \<open>response.aclose()\<close>
  raises, its cancellation included, replaces the outcome of the body.\<close>

definition close_result :: "connect_response \<Rightarrow> lib_exn + unit" where
  "close_result response = (case cr_close response of Some e \<Rightarrow> Inl e | None \<Rightarrow> Inr ())"

definition connect_check_inner :: "connect_env \<Rightarrow> await_point option \<Rightarrow> provided \<Rightarrow> work_context
    \<Rightarrow> connect_event list \<times> (rev_exn + unit)" where
  "connect_check_inner env limit credential claims =
     (case connect_prepare env limit credential claims of
        Inl e \<Rightarrow> ([], as_rev_unavailable connect_caught (Inl e))
      | Inr request \<Rightarrow>
          (case interrupted limit AtSend (lifted (ce_send env request)) of
             Inl e \<Rightarrow> ([Sent request], as_rev_unavailable connect_caught (Inl e))
           | Inr response \<Rightarrow>
               ([Sent request, Closed],
                case interrupted limit AtClose (lifted (close_result response)) of
                  Inl e \<Rightarrow> Inl e
                | Inr _ \<Rightarrow> as_rev_unavailable connect_caught
                    (interrupted limit AtBody (connect_answer (ce_json_loads env) response)))))"

text \<open>\<open>check\<close>: \<open>wait_for\<close> turns its own cancellation into \<open>asyncio.TimeoutError\<close>, which from
  Python 3.11 is the builtin \<open>TimeoutError\<close>.\<close>

definition timed_out :: "rev_exn \<Rightarrow> bool" where
  "timed_out e \<longleftrightarrow> e \<in> {Cancelled, Lib LibTimeoutError}"

definition connect_check :: "connect_env \<Rightarrow> await_point option \<Rightarrow> provided \<Rightarrow> work_context
    \<Rightarrow> connect_event list \<times> (rev_exn + unit)" where
  "connect_check env limit credential claims =
     (case connect_check_inner env limit credential claims of
        (events, result) \<Rightarrow> (events, as_rev_unavailable timed_out result))"

record tls_context =
  tls_check_hostname :: bool
  tls_cert_required :: bool
  tls_ca_certs :: "bytes list"

definition tls_verifies :: "tls_context \<Rightarrow> bool" where
  "tls_verifies t \<longleftrightarrow> tls_check_hostname t \<and> tls_cert_required t"

text \<open>\<open>ConnectClient.__init__\<close>: the endpoint it keeps.\<close>

definition connect_client :: "bool \<Rightarrow> url_tables \<Rightarrow> pystr \<Rightarrow> tls_context option \<Rightarrow> rev_exn + pystr" where
  "connect_client httpx_installed tables origin tls =
     (if \<not> httpx_installed then Inl RevImportError
      else bindR (https_origin tables origin) (\<lambda>o1.
        if (case tls of None \<Rightarrow> False | Some t \<Rightarrow> \<not> tls_verifies t) then Inl RevValueError
        else Inr (Str (codes o1 @ codes REVISION_PATH))))"

section \<open>gRPC\<close>

text \<open>What the RPC does: it returns the raw response bytes or raises.\<close>

record grpc_call =
  gc_request :: check_request
  gc_metadata :: "(string \<times> pystr) list"
  gc_timeout :: int

text \<open>\<open>TIMEOUT\<close>, in microseconds.\<close>

definition TIMEOUT :: int where
  "TIMEOUT = 3 * 1000000"

record grpc_env =
  ge_pb :: pb_runtime
  ge_rpc :: "grpc_call \<Rightarrow> lib_exn + bytes"

text \<open>The loop clock when the check starts and when the credential has arrived.\<close>

record grpc_io =
  gio_start :: int
  gio_ready :: int
  gio_credential :: provided

definition grpc_attempt :: "grpc_env \<Rightarrow> await_point option \<Rightarrow> grpc_io \<Rightarrow> work_context
    \<Rightarrow> grpc_call list \<times> (rev_exn + unit)" where
  "grpc_attempt env limit io claims =
     (case interrupted limit AtCredential (internal_credential (gio_credential io)) of
        Inl e \<Rightarrow> ([], Inl e)
      | Inr token \<Rightarrow>
          let remaining = gio_start io + TIMEOUT - gio_ready io in
          if remaining \<le> 0 then ([], Inl (Lib LibTimeoutError))
          else case revision_request (ge_pb env) claims of
            Inl e \<Rightarrow> ([], Inl e)
          | Inr request \<Rightarrow>
              let call = \<lparr>gc_request = request, gc_metadata = [(''x-codefly-internal-token'', token)],
                    gc_timeout = remaining\<rparr>
              in ([call], bindR (interrupted limit AtSend (lifted (ge_rpc env call))) (\<lambda>response.
                    if response \<noteq> [] then Inl RevValueError else Inr ())))"

text \<open>The \<open>except\<close> clauses of \<open>_GRPCRevision._check\<close>.\<close>

fun grpc_handled :: "rev_exn \<Rightarrow> rev_exn" where
  "grpc_handled (Lib (AioRpcError code)) =
     (if code \<in> {PERMISSION_DENIED, FAILED_PRECONDITION} then RevisionDenied else RevisionUnavailable)"
| "grpc_handled e = (if unavailable_builtin e then RevisionUnavailable else e)"

definition grpc_check :: "grpc_env \<Rightarrow> await_point option \<Rightarrow> grpc_io \<Rightarrow> work_context
    \<Rightarrow> grpc_call list \<times> (rev_exn + unit)" where
  "grpc_check env limit io claims =
     (case grpc_attempt env limit io claims of
        (calls, result) \<Rightarrow> (calls, as_rev_unavailable timed_out (catchR (\<lambda>_. True) result grpc_handled)))"

text \<open>\<open>ssl.DER_cert_to_PEM_cert\<close>: the base64 text in lines of 64 characters.\<close>

fun pem_lines :: "nat list \<Rightarrow> nat list" where
  "pem_lines cs = (if cs = [] then [] else take 64 cs @ 10 # pem_lines (drop 64 cs))"

declare pem_lines.simps [simp del]

definition pem_cert :: "bytes \<Rightarrow> nat list" where
  "pem_cert der = codes (lit ''-----BEGIN CERTIFICATE-----'') @ 10 # pem_lines (b2a_base64 der)
     @ codes (lit ''-----END CERTIFICATE-----'') @ [10]"

text \<open>
  What a client keeps: the channel it opened (its target, the trust roots of a TLS channel,
  none for a cleartext one, and the options it was opened with), the path of the one RPC it
  calls on it and the credential provider.
\<close>

record grpc_channel =
  ch_target :: pystr
  ch_roots :: "nat list option"
  ch_options :: "(string \<times> int) list"

definition CHANNEL_OPTIONS :: "(string \<times> int) list" where
  "CHANNEL_OPTIONS = [(''grpc.enable_retries'', 0), (''grpc.enable_http_proxy'', 0),
     (''grpc.max_receive_message_length'', 8192), (''grpc.max_send_message_length'', 65536)]"

record 'c grpc_bound =
  gb_credential :: 'c
  gb_channel :: grpc_channel
  gb_path :: pystr

definition bind_channel :: "grpc_channel \<Rightarrow> 'c \<Rightarrow> 'c grpc_bound" where
  "bind_channel channel credential =
     \<lparr>gb_credential = credential, gb_channel = channel, gb_path = REVISION_PATH\<rparr>"

text \<open>\<open>GRPCClient.__init__\<close> and \<open>MeshGRPCClient.__init__\<close>.\<close>

definition grpc_client :: "bool \<Rightarrow> url_tables \<Rightarrow> pystr \<Rightarrow> tls_context \<Rightarrow> tls_context option \<Rightarrow> 'c
    \<Rightarrow> rev_exn + 'c grpc_bound" where
  "grpc_client grpc_installed tables origin default_tls tls credential =
     (if \<not> grpc_installed then Inl RevImportError
      else bindR (https_origin tables origin) (\<lambda>o1.
        case urlsplit tables o1 of
          None \<Rightarrow> Inl RevValueError
        | Some u \<Rightarrow>
            let t = (case tls of Some t \<Rightarrow> t | None \<Rightarrow> default_tls);
                roots = concat (map pem_cert (tls_ca_certs t))
            in if \<not> tls_verifies t then Inl RevValueError
               else if roots = [] then Inl RevValueError
               else case (hostname tables u, port_of u) of
                 (Some h, Some p) \<Rightarrow>
                   let port = (case p of None \<Rightarrow> 443 | Some n \<Rightarrow> if n = 0 then 443 else n)
                   in Inr (bind_channel \<lparr>ch_target = Str (bracketed h @ 58 # digits port), ch_roots = Some roots,
                        ch_options = CHANNEL_OPTIONS\<rparr> credential)
               | _ \<Rightarrow> Inl (Lib LibOther)))"

definition mesh_client :: "bool \<Rightarrow> url_tables \<Rightarrow> pystr option \<Rightarrow> 'c \<Rightarrow> rev_exn + 'c grpc_bound" where
  "mesh_client grpc_installed tables address credential =
     (if \<not> grpc_installed then Inl RevImportError
      else bindR (mesh_address tables address) (\<lambda>target.
        Inr (bind_channel \<lparr>ch_target = target, ch_roots = None, ch_options = CHANNEL_OPTIONS\<rparr> credential)))"

text \<open>\<open>aclose\<close> of the clients awaits the close of the transport, \<open>close\<close>; nothing is caught.\<close>

definition connect_aclose :: "lib_exn + unit \<Rightarrow> rev_exn + unit" where
  "connect_aclose close = lifted close"

definition grpc_aclose :: "lib_exn + unit \<Rightarrow> rev_exn + unit" where
  "grpc_aclose close = lifted close"

section \<open>When each step succeeds\<close>

lemma lifted_Inr [res_iff]: "lifted m = Inr x \<longleftrightarrow> m = Inr x"
  by (cases m) (simp_all add: lifted_def)

lemma lifted_Inl: "lifted m = Inl e \<longleftrightarrow> (\<exists>l. m = Inl l \<and> e = Lib l)"
  by (cases m) (auto simp: lifted_def)

lemma interrupted_Inr [res_iff]: "interrupted limit here m = Inr x \<longleftrightarrow> limit \<noteq> Some here \<and> m = Inr x"
  by (simp add: interrupted_def)

lemma as_rev_unavailable_Inr [res_iff]: "as_rev_unavailable p m = Inr x \<longleftrightarrow> m = Inr x"
  by (simp add: as_rev_unavailable_def catchR_Inr)

lemma built_Inr [res_iff]: "built refuses m = Inr x \<longleftrightarrow> x = m \<and> refuses m = None"
  by (auto simp: built_def split: option.splits)

text \<open>A visible ASCII text of 1 to 8192 characters.\<close>

definition header_token :: "pystr \<Rightarrow> bool" where
  "header_token t \<longleftrightarrow> codes t \<noteq> [] \<and> length (codes t) \<le> 8192 \<and> (\<forall>c \<in> set (codes t). 33 \<le> c \<and> c \<le> 126)"

lemma header_token_check:
  "header_token t \<longleftrightarrow> \<not> (\<not> (1 \<le> length (codes t) \<and> length (codes t) \<le> 8192)
     \<or> list_ex (\<lambda>c. c < 33 \<or> c > 126) (codes t))"
  by (auto simp: header_token_def list_ex_iff Suc_le_eq not_less)

lemma internal_credential_Inr [res_iff]:
  "internal_credential p = Inr t \<longleftrightarrow> p = Provided (Some t) \<and> header_token t"
  unfolding internal_credential_def header_token_check by (auto split: provided.splits option.splits)

lemma internal_credential_Inl: "internal_credential p = Inl e \<Longrightarrow> e = RevisionUnavailable"
  by (auto simp: internal_credential_def split: provided.splits option.splits if_splits)

lemma read_body_Inr:
  "length data \<le> 8192 \<Longrightarrow> read_body data parts ending = Inr d \<longleftrightarrow>
     ending = None \<and> d = data @ concat parts \<and> length d \<le> 8192"
proof (induction parts arbitrary: data)
  case (Cons part parts)
  show ?case
  proof (cases "length (data @ part) \<le> 8192")
    case True
    with Cons.IH [OF True] show ?thesis by (simp add: Let_def)
  qed auto
qed (auto split: option.splits)

lemma read_body_Inl:
  "read_body data parts ending = Inl e \<Longrightarrow> e = RevValueError \<or> (\<exists>l. ending = Some l \<and> e = Lib l)"
  by (induction parts arbitrary: data) (auto simp: Let_def split: option.splits if_splits)

text \<open>The response is JSON, uncompressed, ends, is at most 8192 bytes, and decodes to \<open>j\<close>.\<close>

definition answered :: "(bytes \<Rightarrow> lib_exn + json) \<Rightarrow> connect_response \<Rightarrow> json \<Rightarrow> bool" where
  "answered json_loads r j \<longleftrightarrow>
     fst (split_once 59 (case cr_content_type r of None \<Rightarrow> Str [] | Some t \<Rightarrow> t)) = lit ''application/json''
     \<and> cr_content_encoding r \<in> {None, Some (lit ''identity'')}
     \<and> cr_parts_end r = None \<and> length (concat (cr_parts r)) \<le> 8192
     \<and> json_loads (concat (cr_parts r)) = Inr j \<and> strict_json j"

definition refusal :: "connect_response \<Rightarrow> json \<Rightarrow> bool" where
  "refusal r j \<longleftrightarrow> (\<exists>d. j = JObj d
     \<and> (cr_status r = 400 \<and> jget d ''code'' JNull = JStr (lit ''failed_precondition'')
        \<or> cr_status r = 403 \<and> jget d ''code'' JNull = JStr (lit ''permission_denied'')))"

lemma decode_Inr [res_iff]: "decode json_loads data = Inr j \<longleftrightarrow> json_loads data = Inr j \<and> strict_json j"
  by (auto simp: decode_def res_iff)

lemma decode_Inl: "decode json_loads data = Inl e \<Longrightarrow> \<exists>l. e = Lib l"
  by (auto simp: decode_def bindR_Inl lifted_Inl split: if_splits)

lemma identity_iff:
  "(case e of None \<Rightarrow> lit ''identity'' | Some t \<Rightarrow> t) = lit ''identity'' \<longleftrightarrow> e \<in> {None, Some (lit ''identity'')}"
  by (cases e) auto

text \<open>What \<open>_check\<close> makes of a decoded payload.\<close>

definition connect_verdict :: "connect_response \<Rightarrow> json \<Rightarrow> rev_exn + unit" where
  "connect_verdict r j =
     (if cr_status r \<notin> {200, 400, 403} then Inl RevValueError
      else if cr_status r \<noteq> 200 then (if refusal r j then Inl RevisionDenied else Inl RevValueError)
      else if j = JObj [] then Inr () else Inl RevValueError)"

lemma connect_answer_answered:
  assumes "answered json_loads r j"
  shows "connect_answer json_loads r = connect_verdict r j"
proof -
  have body: "read_body [] (cr_parts r) (cr_parts_end r) = Inr (concat (cr_parts r))"
    using assms by (simp add: read_body_Inr answered_def)
  have dec: "decode json_loads (concat (cr_parts r)) = Inr j"
    using assms by (simp add: decode_Inr answered_def)
  have ct: "fst (split_once 59 (case cr_content_type r of None \<Rightarrow> Str [] | Some t \<Rightarrow> t)) = lit ''application/json''"
    and enc: "(case cr_content_encoding r of None \<Rightarrow> lit ''identity'' | Some t \<Rightarrow> t) = lit ''identity''"
    using assms unfolding identity_iff by (simp_all add: answered_def)
  show ?thesis
    unfolding connect_answer_def body dec ct enc bindR_simps
    by (cases j) (auto simp: connect_verdict_def refusal_def guardR_def)
qed

lemma connect_answer_unanswered:
  assumes "\<not> (\<exists>j. answered json_loads r j)"
  shows "\<exists>l. connect_answer json_loads r = Inl (Lib l)"
proof -
  obtain e where e: "connect_answer json_loads r = Inl e"
  proof (cases "connect_answer json_loads r")
    case (Inr u)
    then have "\<exists>j. answered json_loads r j"
      unfolding connect_answer_def res_iff identity_iff
      by (auto simp: read_body_Inr answered_def)
    with assms show thesis by blast
  qed
  have "\<exists>l. e = Lib l"
  proof (rule ccontr)
    assume other: "\<nexists>l. e = Lib l"
    with e show False
      unfolding connect_answer_def thenR_Inl guardR_Inl guardR_Inr identity_iff bindR_Inl decode_Inr
      using assms by (auto simp: read_body_Inr answered_def dest: decode_Inl read_body_Inl)
  qed
  with e show ?thesis by blast
qed

section \<open>What a check means\<close>

text \<open>
  What a caller relies on, whichever transport it chose: a check returns exactly when the
  authority confirmed the claims in this very exchange, and is denied exactly when it
  refused them; whatever else happens is neither.
\<close>

locale revision_authority =
  fixes check :: "'i \<Rightarrow> work_context \<Rightarrow> rev_exn + unit"
    and confirms refuses :: "'i \<Rightarrow> work_context \<Rightarrow> bool"
  assumes check_returns: "check i c = Inr () \<longleftrightarrow> confirms i c"
    and check_denied: "check i c = Inl RevisionDenied \<longleftrightarrow> refuses i c"
    and check_uses: "confirms i c \<or> refuses i c \<Longrightarrow> truthy (tenant_id c) \<and> truthy (owner_principal_id c)"
begin

lemma exclusive: "\<not> (confirms i c \<and> refuses i c)"
  using check_returns [of i c] check_denied [of i c] by auto

lemma outage: "\<not> confirms i c \<Longrightarrow> \<not> refuses i c \<Longrightarrow> \<exists>e. check i c = Inl e \<and> e \<noteq> RevisionDenied"
  using check_returns [of i c] check_denied [of i c] by (cases "check i c") auto

lemma unusable_claims: "\<not> truthy (owner_principal_id c) \<Longrightarrow> \<exists>e. check i c = Inl e \<and> e \<noteq> RevisionDenied"
  using check_uses [of i c] outage [of i c] by blast

end

text \<open>Building a request fails as unusable claims or as the protobuf runtime raises.\<close>

definition request_failure :: "rev_exn \<Rightarrow> bool" where
  "request_failure e \<longleftrightarrow> e \<in> {RevisionUnavailable, Lib LibValueError, Lib LibOther}"

lemma request_failure_simps [simp]:
  "request_failure RevisionUnavailable" "request_failure (pb_raised e)" "\<not> request_failure RevisionDenied"
  by (cases e; simp add: request_failure_def)+

lemma built_raises [raises]: "raises_only request_failure (built refuses m)"
  by (simp add: built_def split: option.split)

lemma subject_raises [raises]: "raises_only request_failure (subject pb who ss)"
  by (simp add: subject_def built_raises)

lemma actor_subjects_raises [raises]: "raises_only request_failure (actor_subjects pb as)"
  by (induction as) (auto intro!: raises)

lemma revision_request_raises [raises]: "raises_only request_failure (revision_request pb c)"
  by (auto simp: revision_request_def intro!: raises)

lemma revision_request_Inl: "revision_request pb c = Inl e \<Longrightarrow> e = RevisionUnavailable \<or> (\<exists>l. e = Lib l)"
  using raises_onlyD [OF revision_request_raises] by (fastforce simp: request_failure_def)

lemma revision_request_usable: "revision_request pb c = Inr r \<Longrightarrow> truthy (tenant_id c) \<and> truthy (owner_principal_id c)"
  by (auto simp: revision_request_def split: if_splits)

lemma interrupted_Inl: "interrupted limit here m = Inl e \<Longrightarrow> e = Cancelled \<or> m = Inl e"
  by (auto simp: interrupted_def split: if_splits)

lemma connect_prepare_Inl:
  "connect_prepare env limit p c = Inl e \<Longrightarrow> e \<in> {Cancelled, RevisionUnavailable} \<or> (\<exists>l. e = Lib l)"
  by (auto simp: connect_prepare_def bindR_Inl lifted_Inl
      dest!: interrupted_Inl dest: internal_credential_Inl revision_request_Inl)

lemma connect_prepare_Inr:
  "connect_prepare env limit p c = Inr q \<longleftrightarrow> limit \<noteq> Some AtCredential
     \<and> (\<exists>t r content. p = Provided (Some t) \<and> header_token t \<and> revision_request (ce_pb env) c = Inr r
        \<and> ce_content env r = Inr content \<and> q = connect_request_of env t content)"
  by (auto simp: connect_prepare_def res_iff)

lemma as_rev_unavailable_Denied:
  "\<not> p RevisionDenied \<Longrightarrow> as_rev_unavailable p m = Inl RevisionDenied \<longleftrightarrow> m = Inl RevisionDenied"
  by (auto simp: as_rev_unavailable_def catchR_Inl)

lemma not_caught [simp]:
  "\<not> connect_caught RevisionDenied" "\<not> timed_out RevisionDenied" "\<not> unavailable_builtin RevisionDenied"
  "\<not> connect_caught RevisionUnavailable" "\<not> timed_out RevisionUnavailable"
  by (simp_all add: connect_caught_def timed_out_def unavailable_builtin_def)

text \<open>The exchange took place: a request left and the response was read and closed.\<close>

definition connect_exchange :: "connect_env \<Rightarrow> await_point option \<Rightarrow> provided \<Rightarrow> work_context
    \<Rightarrow> connect_request \<Rightarrow> connect_response \<Rightarrow> json \<Rightarrow> bool" where
  "connect_exchange env limit p c q r j \<longleftrightarrow> limit = None \<and> connect_prepare env limit p c = Inr q
     \<and> ce_send env q = Inr r \<and> cr_close r = None \<and> answered (ce_json_loads env) r j"

definition connect_confirms :: "connect_env \<Rightarrow> await_point option \<Rightarrow> provided \<Rightarrow> work_context \<Rightarrow> bool" where
  "connect_confirms env limit p c \<longleftrightarrow>
     (\<exists>q r. connect_exchange env limit p c q r (JObj []) \<and> cr_status r = 200)"

definition connect_refuses :: "connect_env \<Rightarrow> await_point option \<Rightarrow> provided \<Rightarrow> work_context \<Rightarrow> bool" where
  "connect_refuses env limit p c \<longleftrightarrow> (\<exists>q r j. connect_exchange env limit p c q r j \<and> refusal r j)"

lemma connect_check_result:
  "snd (connect_check env limit p c) = Inr () \<longleftrightarrow> connect_confirms env limit p c"
  "snd (connect_check env limit p c) = Inl RevisionDenied \<longleftrightarrow> connect_refuses env limit p c"
proof -
  let ?check = "snd (connect_check env limit p c)" and ?inner = "snd (connect_check_inner env limit p c)"
  have outer: "?check = Inr () \<longleftrightarrow> ?inner = Inr ()" "?check = Inl RevisionDenied \<longleftrightarrow> ?inner = Inl RevisionDenied"
    by (simp_all add: connect_check_def as_rev_unavailable_Inr as_rev_unavailable_Denied split: prod.split)
  show "?check = Inr () \<longleftrightarrow> connect_confirms env limit p c"
    "?check = Inl RevisionDenied \<longleftrightarrow> connect_refuses env limit p c"
  proof (atomize (full), cases "connect_prepare env limit p c")
    case (Inl e)
    then have "e \<noteq> RevisionDenied" using connect_prepare_Inl [OF Inl] by auto
    with Inl show "(?check = Inr () \<longleftrightarrow> connect_confirms env limit p c) \<and>
        (?check = Inl RevisionDenied \<longleftrightarrow> connect_refuses env limit p c)"
      unfolding outer by (simp add: connect_check_inner_def as_rev_unavailable_Inr as_rev_unavailable_Denied
          connect_confirms_def connect_refuses_def connect_exchange_def)
  next
    case (Inr q)
    note prep = Inr
    show "(?check = Inr () \<longleftrightarrow> connect_confirms env limit p c) \<and>
        (?check = Inl RevisionDenied \<longleftrightarrow> connect_refuses env limit p c)"
    proof (cases "limit = None \<and> (\<exists>r. ce_send env q = Inr r \<and> cr_close r = None)")
      case True
      then obtain r where r: "ce_send env q = Inr r" "cr_close r = None" and limit: "limit = None" by blast
      have inner: "?inner = as_rev_unavailable connect_caught (connect_answer (ce_json_loads env) r)"
        using prep r limit by (simp add: connect_check_inner_def interrupted_def lifted_def close_result_def)
      have ex: "connect_exchange env limit p c q' r' j \<longleftrightarrow> q' = q \<and> r' = r \<and> answered (ce_json_loads env) r j" for q' r' j
        using prep r limit by (auto simp: connect_exchange_def)
      show ?thesis
      proof (cases "\<exists>j. answered (ce_json_loads env) r j")
        case True
        then obtain j where j: "answered (ce_json_loads env) r j" by blast
        have only: "answered (ce_json_loads env) r j' \<longleftrightarrow> j' = j" for j'
          using j by (auto simp: answered_def)
        show ?thesis
          unfolding outer inner connect_answer_answered [OF j]
          by (auto simp: as_rev_unavailable_Inr as_rev_unavailable_Denied connect_confirms_def connect_refuses_def
              ex only connect_verdict_def refusal_def)
      next
        case False
        then obtain l where "connect_answer (ce_json_loads env) r = Inl (Lib l)"
          using connect_answer_unanswered by blast
        with False show ?thesis
          unfolding outer inner
          by (auto simp: as_rev_unavailable_Inr as_rev_unavailable_Denied connect_confirms_def connect_refuses_def ex)
      qed
    next
      case False
      have "\<exists>e. ?inner = Inl e \<and> e \<noteq> RevisionDenied"
      proof (cases "limit = Some AtSend \<or> (\<exists>l. ce_send env q = Inl l)")
        case True
        then show ?thesis
          using prep by (auto simp: connect_check_inner_def interrupted_def lifted_def as_rev_unavailable_def)
      next
        case no: False
        then obtain r where r: "ce_send env q = Inr r" by (cases "ce_send env q") auto
        have "limit \<noteq> Some AtCredential" using prep by (simp add: connect_prepare_Inr)
        with no False r have "cr_close r \<noteq> None \<or> limit = Some AtBody \<or> limit = Some AtClose" by (cases limit; cases "the limit") auto
        with prep r no show ?thesis
          by (cases "cr_close r")
            (auto simp: connect_check_inner_def interrupted_def lifted_def close_result_def as_rev_unavailable_def)
      qed
      with False prep show ?thesis
        unfolding outer by (auto simp: connect_confirms_def connect_refuses_def connect_exchange_def)
    qed
  qed
qed

interpretation connect: revision_authority
  "\<lambda>(env, limit, p) c. snd (connect_check env limit p c)"
  "\<lambda>(env, limit, p) c. connect_confirms env limit p c" "\<lambda>(env, limit, p) c. connect_refuses env limit p c"
proof
  fix i c
  show "((\<lambda>(env, limit, p) c. snd (connect_check env limit p c)) i c = Inr ())
      = (\<lambda>(env, limit, p) c. connect_confirms env limit p c) i c"
    and "((\<lambda>(env, limit, p) c. snd (connect_check env limit p c)) i c = Inl RevisionDenied)
      = (\<lambda>(env, limit, p) c. connect_refuses env limit p c) i c"
    by (simp_all add: connect_check_result split: prod.split)
  assume "(\<lambda>(env, limit, p) c. connect_confirms env limit p c) i c
      \<or> (\<lambda>(env, limit, p) c. connect_refuses env limit p c) i c"
  then show "truthy (tenant_id c) \<and> truthy (owner_principal_id c)"
    by (auto simp: connect_confirms_def connect_refuses_def connect_exchange_def connect_prepare_Inr
        dest: revision_request_usable split: prod.splits)
qed

section \<open>The gRPC check\<close>

definition grpc_call_of :: "pystr \<Rightarrow> check_request \<Rightarrow> grpc_io \<Rightarrow> grpc_call" where
  "grpc_call_of t r io = \<lparr>gc_request = r, gc_metadata = [(''x-codefly-internal-token'', t)],
     gc_timeout = gio_start io + TIMEOUT - gio_ready io\<rparr>"

definition grpc_calls :: "grpc_env \<Rightarrow> await_point option \<Rightarrow> grpc_io \<Rightarrow> work_context \<Rightarrow> grpc_call \<Rightarrow> bool" where
  "grpc_calls env limit io c call \<longleftrightarrow> limit \<noteq> Some AtCredential \<and> limit \<noteq> Some AtSend
     \<and> gio_ready io < gio_start io + TIMEOUT
     \<and> (\<exists>t r. gio_credential io = Provided (Some t) \<and> header_token t
          \<and> revision_request (ge_pb env) c = Inr r \<and> call = grpc_call_of t r io)"

definition grpc_confirms :: "grpc_env \<Rightarrow> await_point option \<Rightarrow> grpc_io \<Rightarrow> work_context \<Rightarrow> bool" where
  "grpc_confirms env limit io c \<longleftrightarrow> (\<exists>call. grpc_calls env limit io c call \<and> ge_rpc env call = Inr [])"

definition grpc_refuses :: "grpc_env \<Rightarrow> await_point option \<Rightarrow> grpc_io \<Rightarrow> work_context \<Rightarrow> bool" where
  "grpc_refuses env limit io c \<longleftrightarrow> (\<exists>call code. grpc_calls env limit io c call
     \<and> ge_rpc env call = Inl (AioRpcError code) \<and> code \<in> {PERMISSION_DENIED, FAILED_PRECONDITION})"

text \<open>The attempt without a call ends in an exception no clause turns into a denial.\<close>

lemma grpc_attempt_cases:
  obtains (called) call where "grpc_calls env limit io c call"
      "grpc_attempt env limit io c = ([call], bindR (lifted (ge_rpc env call)) (\<lambda>response.
         if response \<noteq> [] then Inl RevValueError else Inr ()))"
  | (uncalled) calls e where "\<not> (\<exists>call. grpc_calls env limit io c call)"
      "grpc_attempt env limit io c = (calls, Inl e)" "request_failure e \<or> e \<in> {Cancelled, Lib LibTimeoutError}"
proof (cases "interrupted limit AtCredential (internal_credential (gio_credential io))")
  case (Inl e)
  then have "e = Cancelled \<or> e = RevisionUnavailable"
    by (auto dest!: interrupted_Inl dest: internal_credential_Inl)
  moreover have "\<not> (\<exists>call. grpc_calls env limit io c call)"
  proof
    assume "\<exists>call. grpc_calls env limit io c call"
    then have "\<exists>t. interrupted limit AtCredential (internal_credential (gio_credential io)) = Inr t"
      by (auto simp: grpc_calls_def res_iff)
    with Inl show False by simp
  qed
  ultimately show thesis using Inl by (intro uncalled [of "[]" e]) (auto simp: grpc_attempt_def)
next
  case (Inr t)
  then have t: "limit \<noteq> Some AtCredential" "gio_credential io = Provided (Some t)" "header_token t"
    by (auto simp: res_iff)
  show thesis
  proof (cases "gio_ready io < gio_start io + TIMEOUT")
    case False
    with Inr show thesis by (intro uncalled [of "[]" "Lib LibTimeoutError"]) (auto simp: grpc_attempt_def grpc_calls_def)
  next
    case time: True
    show thesis
    proof (cases "revision_request (ge_pb env) c")
      case (Inl e)
      with time Inr raises_onlyD [OF revision_request_raises Inl] show thesis
        by (intro uncalled [of "[]" e]) (auto simp: grpc_attempt_def grpc_calls_def)
    next
      case (Inr r)
      let ?call = "grpc_call_of t r io"
      have attempt: "grpc_attempt env limit io c = ([?call], bindR (interrupted limit AtSend (lifted (ge_rpc env ?call)))
          (\<lambda>response. if response \<noteq> [] then Inl RevValueError else Inr ()))"
        using time Inr \<open>interrupted limit AtCredential (internal_credential (gio_credential io)) = Inr t\<close>
        by (simp add: grpc_attempt_def grpc_call_of_def Let_def)
      show thesis
      proof (cases "limit = Some AtSend")
        case True
        with attempt show thesis
          by (intro uncalled [of "[?call]" Cancelled]) (auto simp: grpc_calls_def interrupted_def)
      next
        case False
        with attempt t time Inr show thesis
          by (intro called [of ?call]) (auto simp: grpc_calls_def interrupted_def)
      qed
    qed
  qed
qed

lemma grpc_calls_unique: "grpc_calls env limit io c call \<Longrightarrow> grpc_calls env limit io c call' \<Longrightarrow> call' = call"
  by (auto simp: grpc_calls_def)

lemma grpc_handled_Denied: "grpc_handled e = RevisionDenied \<longleftrightarrow>
    e = RevisionDenied \<or> (\<exists>code. e = Lib (AioRpcError code) \<and> code \<in> {PERMISSION_DENIED, FAILED_PRECONDITION})"
proof (cases e)
  case (Lib l)
  then show ?thesis by (cases l) (auto simp: unavailable_builtin_def)
qed (simp_all add: unavailable_builtin_def)

lemma grpc_check_result:
  "snd (grpc_check env limit io c) = Inr () \<longleftrightarrow> grpc_confirms env limit io c"
  "snd (grpc_check env limit io c) = Inl RevisionDenied \<longleftrightarrow> grpc_refuses env limit io c"
proof -
  let ?check = "snd (grpc_check env limit io c)" and ?attempt = "snd (grpc_attempt env limit io c)"
  have outer: "?check = Inr () \<longleftrightarrow> ?attempt = Inr ()"
    "?check = Inl RevisionDenied \<longleftrightarrow> (\<exists>e. ?attempt = Inl e \<and> grpc_handled e = RevisionDenied)"
    by (auto simp: grpc_check_def as_rev_unavailable_Inr as_rev_unavailable_Denied catchR_Inr catchR_Inl split: prod.split)
  have "(?check = Inr () \<longleftrightarrow> grpc_confirms env limit io c) \<and>
      (?check = Inl RevisionDenied \<longleftrightarrow> grpc_refuses env limit io c)"
  proof (cases rule: grpc_attempt_cases [of env limit io c])
    case (called call)
    have only: "grpc_calls env limit io c call' \<longleftrightarrow> call' = call" for call'
      using called(1) grpc_calls_unique by blast
    show ?thesis
      unfolding outer called(2) snd_conv bindR_Inr bindR_Inl lifted_Inr lifted_Inl grpc_handled_Denied
      by (auto simp: grpc_confirms_def grpc_refuses_def only)
  next
    case (uncalled calls e)
    then have "grpc_handled e \<noteq> RevisionDenied"
      unfolding grpc_handled_Denied by (auto simp: request_failure_def)
    with uncalled show ?thesis
      unfolding outer by (auto simp: grpc_confirms_def grpc_refuses_def)
  qed
  then show "?check = Inr () \<longleftrightarrow> grpc_confirms env limit io c"
    "?check = Inl RevisionDenied \<longleftrightarrow> grpc_refuses env limit io c" by blast+
qed

interpretation grpc: revision_authority
  "\<lambda>(env, limit, io) c. snd (grpc_check env limit io c)"
  "\<lambda>(env, limit, io) c. grpc_confirms env limit io c" "\<lambda>(env, limit, io) c. grpc_refuses env limit io c"
proof
  fix i c
  show "((\<lambda>(env, limit, io) c. snd (grpc_check env limit io c)) i c = Inr ())
      = (\<lambda>(env, limit, io) c. grpc_confirms env limit io c) i c"
    and "((\<lambda>(env, limit, io) c. snd (grpc_check env limit io c)) i c = Inl RevisionDenied)
      = (\<lambda>(env, limit, io) c. grpc_refuses env limit io c) i c"
    by (simp_all add: grpc_check_result split: prod.split)
  assume "(\<lambda>(env, limit, io) c. grpc_confirms env limit io c) i c
      \<or> (\<lambda>(env, limit, io) c. grpc_refuses env limit io c) i c"
  then show "truthy (tenant_id c) \<and> truthy (owner_principal_id c)"
    by (auto simp: grpc_confirms_def grpc_refuses_def grpc_calls_def dest: revision_request_usable split: prod.splits)
qed

section \<open>Properties\<close>

text \<open>C10: \<open>ConnectClient.check\<close> returns exactly when, in time, a request built from these
  claims and a visible-ASCII credential was answered with status 200 and the JSON text of an
  empty object (uncompressed, at most 8192 bytes, no duplicate keys); it raises
  \<open>RevisionDenied\<close> exactly when such an answer was a coherent refusal, status 400 with code
  \<open>failed_precondition\<close> or 403 with \<open>permission_denied\<close>.\<close>

theorem connect_check_exact:
  "(snd (connect_check env limit p c) = Inr () \<longleftrightarrow>
      (\<exists>q r. connect_exchange env limit p c q r (JObj []) \<and> cr_status r = 200))
   \<and> (snd (connect_check env limit p c) = Inl RevisionDenied \<longleftrightarrow>
      (\<exists>q r j. connect_exchange env limit p c q r j \<and> refusal r j))"
  by (simp add: connect_check_result connect_confirms_def connect_refuses_def)

text \<open>C11: \<open>_GRPCRevision.check\<close> returns exactly when the RPC was made in the time left and
  answered with no bytes at all, and raises \<open>RevisionDenied\<close> exactly when it failed with
  \<open>PERMISSION_DENIED\<close> or \<open>FAILED_PRECONDITION\<close>.\<close>

theorem grpc_check_exact:
  "(snd (grpc_check env limit io c) = Inr () \<longleftrightarrow>
      (\<exists>call. grpc_calls env limit io c call \<and> ge_rpc env call = Inr []))
   \<and> (snd (grpc_check env limit io c) = Inl RevisionDenied \<longleftrightarrow>
      (\<exists>call code. grpc_calls env limit io c call \<and> ge_rpc env call = Inl (AioRpcError code)
         \<and> code \<in> {PERMISSION_DENIED, FAILED_PRECONDITION}))"
  by (simp add: grpc_check_result grpc_confirms_def grpc_refuses_def)

lemma connect_events:
  "fst (connect_check env limit p c) =
     (case connect_prepare env limit p c of
        Inl _ \<Rightarrow> []
      | Inr q \<Rightarrow> Sent q # (if limit \<noteq> Some AtSend \<and> (\<exists>r. ce_send env q = Inr r) then [Closed] else []))"
proof (cases "connect_prepare env limit p c")
  case (Inr q)
  then show ?thesis
    by (cases "ce_send env q")
      (simp_all add: connect_check_def connect_check_inner_def interrupted_def lifted_def split: prod.split)
qed (simp add: connect_check_def connect_check_inner_def)

text \<open>a check sends at most one request, only after a valid credential, to the endpoint of
  the client and with exactly five headers, the credential last; a response that was
  obtained is closed, on every path.\<close>

theorem connect_traffic:
  "fst (connect_check env limit p c) = []
   \<or> (\<exists>t content rest. p = Provided (Some t) \<and> header_token t
        \<and> fst (connect_check env limit p c) = Sent (connect_request_of env t content) # rest
        \<and> rest = (if limit \<noteq> Some AtSend \<and> (\<exists>r. ce_send env (connect_request_of env t content) = Inr r)
            then [Closed] else []))"
proof (cases "connect_prepare env limit p c")
  case (Inr q)
  then obtain t content where t: "p = Provided (Some t)" "header_token t" "q = connect_request_of env t content"
    by (auto simp: connect_prepare_Inr)
  have "fst (connect_check env limit p c)
      = Sent q # (if limit \<noteq> Some AtSend \<and> (\<exists>r. ce_send env q = Inr r) then [Closed] else [])"
    by (simp add: connect_events Inr)
  with t show ?thesis by blast
qed (simp add: connect_events)

lemma as_rev_unavailable_Inl:
  "as_rev_unavailable p m = Inl e \<Longrightarrow> e = RevisionUnavailable \<or> m = Inl e \<and> \<not> p e"
  by (auto simp: as_rev_unavailable_def catchR_Inl split: if_splits)

lemma connect_verdict_Inl: "connect_verdict r j = Inl e \<Longrightarrow> e = RevisionDenied \<or> e = RevValueError"
  by (auto simp: connect_verdict_def split: if_splits)

lemma connect_answer_Inl: "connect_answer json_loads r = Inl e \<Longrightarrow> e = RevisionDenied \<or> (\<exists>l. e = Lib l)"
  using connect_answer_answered connect_answer_unanswered connect_verdict_Inl by (metis Inl_inject)

lemma connect_inner_failures:
  assumes inner: "snd (connect_check_inner env limit p c) = Inl e" and limit: "\<not> timed_out e"
  shows "e = RevisionDenied \<or> e = RevisionUnavailable
     \<or> (\<exists>l. e = Lib l \<and> l \<notin> {HttpxError, LibOSError, LibValueError, LibTimeoutError})
     \<or> (\<exists>q r l. ce_send env q = Inr r \<and> cr_close r = Some l \<and> e = Lib l)"
proof -
  have caught: "e \<noteq> Cancelled" using limit by (auto simp: timed_out_def)
  have lib_ok: ?thesis if "e = Lib l" "\<not> connect_caught e" for l
    using that by (auto simp: connect_caught_def unavailable_builtin_def)
  show ?thesis
  proof (cases "connect_prepare env limit p c")
    case (Inl e')
    with inner caught connect_prepare_Inl [OF Inl] lib_ok show ?thesis
      by (auto simp: connect_check_inner_def dest!: as_rev_unavailable_Inl)
  next
    case prepared: (Inr q)
    show ?thesis
    proof (cases "interrupted limit AtSend (lifted (ce_send env q))")
      case (Inl e')
      then have "e' = Cancelled \<or> (\<exists>l. e' = Lib l)" by (auto dest!: interrupted_Inl simp: lifted_Inl)
      with prepared Inl inner caught lib_ok show ?thesis
        by (auto simp: connect_check_inner_def dest!: as_rev_unavailable_Inl)
    next
      case sent: (Inr r)
      show ?thesis
      proof (cases "interrupted limit AtClose (lifted (close_result r))")
        case (Inr u)
        with prepared sent inner have "e = RevisionUnavailable \<or>
            interrupted limit AtBody (connect_answer (ce_json_loads env) r) = Inl e \<and> \<not> connect_caught e"
          by (auto simp: connect_check_inner_def dest!: as_rev_unavailable_Inl)
        with caught lib_ok show ?thesis by (auto dest!: interrupted_Inl connect_answer_Inl)
      next
        case (Inl e')
        with prepared sent inner have "e = e'" by (simp add: connect_check_inner_def)
        with Inl caught obtain l where "cr_close r = Some l" "e = Lib l"
          by (auto simp: close_result_def lifted_Inl split: option.splits dest!: interrupted_Inl)
        moreover from sent have "ce_send env q = Inr r" by (simp add: res_iff)
        ultimately show ?thesis by blast
      qed
    qed
  qed
qed

text \<open>C35: every other outcome of a Connect check is \<open>RevisionUnavailable\<close>, but for an
  exception that is neither \<open>httpx.HTTPError\<close>, \<open>OSError\<close>, \<open>ValueError\<close> nor
  \<open>TimeoutError\<close>, and one that closing the response raises.\<close>

theorem connect_failures:
  assumes "snd (connect_check env limit p c) = Inl e"
  shows "e = RevisionDenied \<or> e = RevisionUnavailable
     \<or> (\<exists>l. e = Lib l \<and> l \<notin> {HttpxError, LibOSError, LibValueError, LibTimeoutError})
     \<or> (\<exists>q r l. ce_send env q = Inr r \<and> cr_close r = Some l \<and> e = Lib l)"
proof -
  from assms have "e = RevisionUnavailable \<or> snd (connect_check_inner env limit p c) = Inl e \<and> \<not> timed_out e"
    by (auto simp: connect_check_def dest!: as_rev_unavailable_Inl split: prod.splits)
  then show ?thesis using connect_inner_failures [of env limit p c e] by blast
qed

definition unreachable_env :: connect_env where
  "unreachable_env = \<lparr>ce_endpoint = lit ''https://a/'',
     ce_pb = \<lparr>pb_refuses_subject = (\<lambda>_. None), pb_refuses_request = (\<lambda>_. None)\<rparr>,
     ce_content = (\<lambda>_. Inr []), ce_send = (\<lambda>_. Inl HttpxError), ce_json_loads = (\<lambda>_. Inl LibValueError)\<rparr>"

definition any_claims :: work_context where
  "any_claims = \<lparr>wc_typ = Str [], algorithm = Str [], key_id = Str [], issuer = Str [], audience = Str [],
     not_before_unix = 0, issued_at_unix = 0, expires_at_unix = 0, nonce = Str [], authorization_revision = 1,
     replay_policy = Str [], tenant_id = lit ''org'', owner_principal_id = lit ''user'', task_id = Str [],
     session_id = Str [], parent_session_id = None, authority_scopes = [], actor_chain = [],
     attribution_team_ids = [], workspace_id = None, project_id = None\<rparr>"

theorem connect_failures_witness:
  "snd (connect_check unreachable_env None (Provided (Some (lit ''t''))) any_claims) = Inl RevisionUnavailable"
proof -
  have "header_token (lit ''t'')" by (simp add: header_token_def)
  then have cred: "internal_credential (Provided (Some (lit ''t''))) = Inr (lit ''t'')" by (simp add: internal_credential_Inr)
  then obtain e where e: "snd (connect_check unreachable_env None (Provided (Some (lit ''t''))) any_claims) = Inl e"
    by (simp add: connect_check_def connect_check_inner_def connect_prepare_def interrupted_def lifted_def
        revision_request_def subject_def built_def unreachable_env_def any_claims_def as_rev_unavailable_def connect_caught_def)
  from connect_failures [OF e] e cred show ?thesis
    by (auto simp: connect_check_def connect_check_inner_def connect_prepare_def interrupted_def lifted_def
        revision_request_def subject_def built_def unreachable_env_def any_claims_def as_rev_unavailable_def connect_caught_def
        split: if_splits)
qed

subsection \<open>The request\<close>

definition subjects_of :: "work_context \<Rightarrow> rev_subject list" where
  "subjects_of c = map (\<lambda>(who, ss). \<lparr>sub_principal_id = who, sub_scopes = api_scopes_of ss\<rparr>)
     ((owner_principal_id c, authority_scopes c) # map (\<lambda>a. (principal_id a, granted_scopes a)) (actor_chain c))"

definition request_of :: "work_context \<Rightarrow> check_request" where
  "request_of c = \<lparr>rv_org_id = tenant_id c, rv_owner_principal_id = owner_principal_id c,
     rv_authorization_revision = authorization_revision c, rv_subjects = subjects_of c\<rparr>"

lemma actor_subjects_Inr:
  "actor_subjects pb as = Inr ss \<longleftrightarrow>
     ss = map (\<lambda>a. \<lparr>sub_principal_id = principal_id a, sub_scopes = api_scopes_of (granted_scopes a)\<rparr>) as
     \<and> (\<forall>s \<in> set ss. truthy (sub_principal_id s) \<and> pb_refuses_subject pb s = None)"
  by (induction as arbitrary: ss) (auto simp: res_iff subject_def)

lemma revision_request_Inr:
  "revision_request pb c = Inr r \<longleftrightarrow>
     truthy (tenant_id c) \<and> (\<forall>s \<in> set (subjects_of c). truthy (sub_principal_id s) \<and> pb_refuses_subject pb s = None)
     \<and> pb_refuses_request pb (request_of c) = None \<and> r = request_of c"
  by (auto simp: revision_request_def res_iff subject_def actor_subjects_Inr subjects_of_def request_of_def comp_def)

text \<open>\<open>revision_request\<close> builds a request exactly when the claims name a tenant, an owner
  and a principal for every actor, and the protobuf runtime takes the values; the request
  then carries the owner's scopes and every actor's, in order and unchanged.\<close>

theorem revision_request_exact:
  "revision_request pb c = Inr r \<longleftrightarrow>
     truthy (tenant_id c) \<and> (\<forall>s \<in> set (subjects_of c). truthy (sub_principal_id s) \<and> pb_refuses_subject pb s = None)
     \<and> pb_refuses_request pb (request_of c) = None \<and> r = request_of c"
  by (rule revision_request_Inr)

lemma revision_request_exact_witness:
  "revision_request (ce_pb unreachable_env) any_claims = Inr (request_of any_claims)"
  unfolding revision_request_exact
  by (simp add: unreachable_env_def any_claims_def subjects_of_def)

text \<open>What the protobuf runtime documents: a string field takes any valid Unicode text, and an
  unsigned 64-bit field any integer of its range.\<close>

definition utf8_subject :: "rev_subject \<Rightarrow> bool" where
  "utf8_subject s \<longleftrightarrow> encodable (sub_principal_id s)
     \<and> list_all (\<lambda>a. encodable (api_resource_kind a) \<and> list_all encodable (api_actions a)
          \<and> list_all encodable (api_resource_ids a)) (sub_scopes s)"

definition utf8_request :: "check_request \<Rightarrow> bool" where
  "utf8_request r \<longleftrightarrow> encodable (rv_org_id r) \<and> encodable (rv_owner_principal_id r)
     \<and> list_all utf8_subject (rv_subjects r)"

definition takes_utf8 :: "pb_runtime \<Rightarrow> bool" where
  "takes_utf8 pb \<longleftrightarrow> (\<forall>s. utf8_subject s \<longrightarrow> pb_refuses_subject pb s = None)
     \<and> (\<forall>r. utf8_request r \<and> 0 \<le> rv_authorization_revision r \<and> rv_authorization_revision r < 2 ^ 64
          \<longrightarrow> pb_refuses_request pb r = None)"

lemma encodable_subjects:
  assumes "encodable_context c"
  shows "utf8_request (request_of c)"
proof -
  have "encodable_scopes ss \<Longrightarrow> list_all (\<lambda>a. encodable (api_resource_kind a) \<and> list_all encodable (api_actions a)
      \<and> list_all encodable (api_resource_ids a)) (api_scopes_of ss)" for ss
    by (simp add: encodable_scopes_def api_scopes_of_def list_all_iff)
  then show ?thesis
    using assms
    by (auto simp: utf8_request_def request_of_def subjects_of_def utf8_subject_def encodable_context_def
        required_fields_def encodable_actor_def list_all_iff)
qed

text \<open>A runtime that refuses every other text, and every other integer.\<close>

definition strict_runtime :: pb_runtime where
  "strict_runtime = \<lparr>pb_refuses_subject = (\<lambda>s. if utf8_subject s then None else Some PbValueError),
     pb_refuses_request = (\<lambda>r. if utf8_request r \<and> 0 \<le> rv_authorization_revision r \<and> rv_authorization_revision r < 2 ^ 64
       then None else Some PbValueError)\<rparr>"

lemma strict_takes_utf8: "takes_utf8 strict_runtime"
  by (simp add: takes_utf8_def strict_runtime_def)

subsection \<open>The addresses\<close>

lemma https_origin_Inr:
  assumes "https_origin tables v = Inr w"
  obtains u where "urlsplit tables v = Some u" "u_scheme u = codes (lit ''https'')" "hostname tables u \<noteq> None"
    "username u = None" "password u = None" "u_path u \<in> {[], [47]}" "u_query u = []" "u_fragment u = []"
    "\<not> has_space_or_control v" "port_of u \<noteq> None" "port_of u \<noteq> Some (Some 0)" "w = Str (rstrip_code 47 (codes v))"
proof (cases "urlsplit tables v")
  case (Some u)
  with assms show thesis
    by (cases "hostname tables u"; cases "port_of u")
      (auto simp: https_origin_def simp del: codes_lit split: if_split_asm intro: that [of u])
qed (use assms in \<open>simp add: https_origin_def\<close>)

lemma printable:
  assumes "\<not> has_space_or_control v" and "c \<in> set (codes v)"
  shows "32 < c"
proof -
  from assms have "\<not> is_space c" "\<not> c < 32" by (auto simp: has_space_or_control_def list_ex_iff)
  moreover have "is_space 32" by (simp add: is_space_def)
  ultimately show ?thesis by (metis linorder_neqE_nat)
qed

lemma REVISION_PATH_codes: "hd (codes REVISION_PATH) = 47" "codes REVISION_PATH \<noteq> []"
  "c \<in> set (codes REVISION_PATH) \<Longrightarrow> 45 < c \<and> c \<noteq> 63"
  by (auto simp: REVISION_PATH_def SERVICE_def)

lemma same_netloc:
  "u_netloc u = u_netloc w \<Longrightarrow> hostname tables u = hostname tables w \<and> username u = username w
     \<and> password u = password w \<and> port_of u = port_of w"
  by (simp add: hostname_def hostinfo_def username_def password_def userinfo_def port_of_def)

text \<open>C36: for an accepted origin without the characters \<open>?\<close> and \<open>#\<close>, the endpoint of the
  Connect client is an HTTPS URL whose path is exactly the RPC's path, without query,
  fragment or credentials, at the origin's host and port.\<close>

theorem endpoint_path:
  assumes "connect_client True tables v tls = Inr e" and "63 \<notin> set (codes v)" and "35 \<notin> set (codes v)"
  shows "\<exists>u w. urlsplit tables v = Some w \<and> urlsplit tables e = Some u \<and> u_scheme u = codes (lit ''https'')
     \<and> u_path u = codes REVISION_PATH \<and> u_query u = [] \<and> u_fragment u = []
     \<and> username u = None \<and> password u = None \<and> hostname tables u \<noteq> None
     \<and> hostname tables u = hostname tables w \<and> port_of u = port_of w"
proof -
  from assms(1) obtain w0 where o1: "https_origin tables v = Inr w0" and e: "e = Str (codes w0 @ codes REVISION_PATH)"
    by (auto simp: connect_client_def res_iff split: if_splits)
  from o1 obtain w where w: "urlsplit tables v = Some w" "u_scheme w = codes (lit ''https'')" "hostname tables w \<noteq> None"
    "username w = None" "password w = None" "u_path w \<in> {[], [47]}" "\<not> has_space_or_control v"
    "w0 = Str (rstrip_code 47 (codes v))"
    by (rule https_origin_Inr)
  have net: "u_netloc w \<noteq> []" using w(3) by (auto simp: hostname_def hostinfo_def rpartition_code_def partition_code_def Let_def)
  have clean: "clean_parts tables w" using w(1) net by (rule urlsplit_clean)
  have "\<forall>c \<in> set (codes v). 32 < c \<and> c \<noteq> 35 \<and> c \<noteq> 63"
    using printable [OF w(7)] assms(2,3) by blast
  from urlsplit_decompose [OF w(1) _ net this] w(2)
  obtain i where i: "codes v = i @ 58 # 47 # 47 # u_netloc w @ u_path w" "i \<noteq> []" "is_ascii_alpha (hd i)"
    "list_all scheme_char i" "u_scheme w = codes (lower_ascii (Str i))" by auto
  let ?base = "i @ 58 # 47 # 47 # u_netloc w"
  have "last ?base \<noteq> 47" using clean net by (auto simp: clean_parts_def netloc_end_def dest: last_in_set)
  then have "rstrip_code 47 (?base @ replicate n 47) = ?base" for n by (intro rstrip_code_last) auto
  from this [of 0] this [of 1] have "codes w0 = ?base" using w(6,8) i(1) by auto
  then have e': "e = Str (i @ 58 # 47 # 47 # u_netloc w @ codes REVISION_PATH)" by (simp add: e)
  let ?u = "\<lparr>u_scheme = codes (lower_ascii (Str i)), u_netloc = u_netloc w, u_path = codes REVISION_PATH,
    u_query = [], u_fragment = []\<rparr>"
  have "clean_parts tables ?u"
    using clean REVISION_PATH_codes by (fastforce simp: clean_parts_def)
  then have "urlsplit tables e = Some ?u" unfolding e' by (rule urlsplit_compose [OF i(2-4)])
  with w i(5) same_netloc [of ?u w tables] show ?thesis by auto
qed

text \<open>Without that hypothesis it fails: an origin that ends in an empty query is accepted, and
  the RPC's path becomes the query.\<close>

lemma empty_query_accepted:
  "connect_client True ascii_tables (lit ''https://a?'') None = Inr (Str (codes (lit ''https://a?'') @ codes REVISION_PATH))"
  by (simp add: connect_client_def https_origin_def url_eval ascii_tables_def has_space_or_control_def
      rstrip_code_def lit_def)

theorem endpoint_path_witness:
  "\<exists>u. urlsplit ascii_tables (Str (codes (lit ''https://a'') @ codes REVISION_PATH)) = Some u
     \<and> u_path u = codes REVISION_PATH"
proof -
  have "connect_client True ascii_tables (lit ''https://a/'') None
      = Inr (Str (codes (lit ''https://a'') @ codes REVISION_PATH))"
    by (simp add: connect_client_def https_origin_def url_eval ascii_tables_def has_space_or_control_def
        rstrip_code_def lit_def)
  from endpoint_path [OF this] show ?thesis by auto
qed

lemma mesh_address_Inr:
  assumes m: "mesh_address tables addr = Inr a"
  shows "\<exists>v h p. addr = Some v \<and> (\<forall>c \<in> set (codes v). 32 < c \<and> c \<notin> {47, 63, 35, 64, 92})
     \<and> 0 < p \<and> p \<le> 65535 \<and> a = Str (bracketed h @ 58 # digits p)
     \<and> (let u = \<lparr>u_scheme = [], u_netloc = codes v, u_path = [], u_query = [], u_fragment = []\<rparr>
        in hostname tables u = Some h \<and> port_of u = Some (Some p) \<and> username u = None)"
proof -
  from m obtain v where v: "addr = Some v" by (cases addr) (auto simp: mesh_address_def)
  from m v have "\<not> list_ex (\<lambda>c. c \<in> {47, 63, 35, 64, 92}) (codes v)" "\<not> has_space_or_control v"
    by (auto simp: mesh_address_def split: if_splits)
  then have chars: "\<forall>c \<in> set (codes v). 32 < c \<and> c \<notin> {47, 63, 35, 64, 92}"
    using printable [of v] by (auto simp: list_ex_iff)
  from m v obtain u h p where u: "urlsplit tables (Str (47 # 47 # codes v)) = Some u"
    "hostname tables u = Some h" "port_of u = Some (Some p)" "0 < p" "a = Str (bracketed h @ 58 # digits p)"
    by (auto simp: mesh_address_def split: if_splits option.splits)
  have eq: "u = \<lparr>u_scheme = [], u_netloc = codes v, u_path = [], u_query = [], u_fragment = []\<rparr>"
    by (rule urlsplit_bare_netloc [OF _ u(1)]) (use chars in auto)
  have "p \<le> 65535" using u(3) by (auto simp: port_of_def split: option.splits if_splits)
  moreover have "username u = None" using chars by (auto simp: username_def userinfo_def eq)
  ultimately show ?thesis using v chars u eq by auto
qed

text \<open>C37: \<open>MeshGRPCClient\<close> accepts an address only where the whole value is one network
  location without scheme, path, credentials or blanks, with a host and a port from 1 to
  65535; it keeps a cleartext channel to that host, in brackets where it holds a colon, and
  that port, opened with retries and proxies off and messages bounded, for the revision RPC.\<close>

theorem mesh_address_sound:
  assumes "mesh_client True tables addr credential = Inr b"
  shows "\<exists>v h p. addr = Some v \<and> (\<forall>c \<in> set (codes v). 32 < c \<and> c \<notin> {47, 63, 35, 64, 92})
     \<and> 0 < p \<and> p \<le> 65535
     \<and> b = \<lparr>gb_credential = credential, gb_channel = \<lparr>ch_target = Str (bracketed h @ 58 # digits p), ch_roots = None,
          ch_options = CHANNEL_OPTIONS\<rparr>, gb_path = REVISION_PATH\<rparr>
     \<and> (let u = \<lparr>u_scheme = [], u_netloc = codes v, u_path = [], u_query = [], u_fragment = []\<rparr>
        in hostname tables u = Some h \<and> port_of u = Some (Some p) \<and> username u = None)"
proof -
  from assms obtain a where a: "mesh_address tables addr = Inr a"
    and b: "b = bind_channel \<lparr>ch_target = a, ch_roots = None, ch_options = CHANNEL_OPTIONS\<rparr> credential"
    by (auto simp: mesh_client_def bindR_Inr)
  from mesh_address_Inr [OF a] show ?thesis unfolding b bind_channel_def by (metis (no_types))
qed

theorem mesh_address_sound_witness:
  "\<exists>h p. lit ''db:81'' = Str (bracketed h @ 58 # digits p) \<and> 0 < p \<and> p \<le> 65535"
proof -
  have "mesh_client True ascii_tables (Some (lit ''db:81'')) () = Inr (bind_channel
      \<lparr>ch_target = lit ''db:81'', ch_roots = None, ch_options = CHANNEL_OPTIONS\<rparr> ())"
    by (simp add: mesh_client_def mesh_address_def url_eval ascii_tables_def has_space_or_control_def lit_def
        bracketed_def decimal_def digits.simps)
  from mesh_address_sound [OF this] show ?thesis by (auto simp: bind_channel_def)
qed

text \<open>The TLS channel of \<open>GRPCClient\<close> always has trust roots, from a context that verifies.\<close>

lemma grpc_client_trusts:
  assumes "grpc_client True tables origin default_tls tls credential = Inr b"
    and t: "t = (case tls of Some t \<Rightarrow> t | None \<Rightarrow> default_tls)"
  shows "tls_verifies t \<and> tls_ca_certs t \<noteq> [] \<and> ch_roots (gb_channel b) = Some (concat (map pem_cert (tls_ca_certs t)))
     \<and> ch_options (gb_channel b) = CHANNEL_OPTIONS \<and> gb_path b = REVISION_PATH"
proof -
  define roots where "roots = concat (map pem_cert (tls_ca_certs t))"
  from assms(1) obtain o1 where o1: "https_origin tables origin = Inr o1"
    by (cases "https_origin tables origin") (simp_all add: grpc_client_def)
  with assms(1) obtain u where "urlsplit tables o1 = Some u"
    by (cases "urlsplit tables o1") (simp_all add: grpc_client_def)
  with assms(1) o1 have "(if \<not> tls_verifies t then Inl RevValueError
      else if roots = [] then Inl RevValueError
      else case (hostname tables u, port_of u) of
        (Some h, Some p) \<Rightarrow>
          let port = (case p of None \<Rightarrow> 443 | Some n \<Rightarrow> if n = 0 then 443 else n)
          in Inr (bind_channel \<lparr>ch_target = Str (bracketed h @ 58 # digits port), ch_roots = Some roots,
               ch_options = CHANNEL_OPTIONS\<rparr> credential)
      | _ \<Rightarrow> Inl (Lib LibOther)) = Inr b"
    unfolding grpc_client_def roots_def t Let_def by (simp del: concat_eq_Nil_conv)
  then have "tls_verifies t \<and> roots \<noteq> [] \<and> ch_roots (gb_channel b) = Some roots
     \<and> ch_options (gb_channel b) = CHANNEL_OPTIONS \<and> gb_path b = REVISION_PATH"
    by (auto simp: bind_channel_def Let_def split: if_splits option.splits)
  then show ?thesis by (auto simp: roots_def)
qed

end
