(* ===== verification/Ds_Types.thy ===== *)
theory Ds_Types
  imports Json
begin

text \<open>
  \<open>_datasource_types.py\<close>: the values of callable sources and the exceptions, each with the
  attributes its constructor sets. An instant is a number of microseconds since the epoch.
\<close>

section \<open>Values\<close>

type_synonym dict = "(pystr \<times> json) list"

datatype effect = READ_ONLY | MUTATION

datatype receipt_status = Committed | Unknown | NotAttempted

text \<open>\<open>None\<close> as the schema is an omitted one; \<open>None\<close> as the effect is a value that is no
  \<open>Effect\<close>.\<close>

record operation =
  op_name :: pystr
  op_method :: pystr
  op_path :: pystr
  op_effect :: "effect option"
  op_query :: "pystr list"
  op_input :: "dict option"
  op_output :: "dict option"
  op_max_output_bytes :: int
  op_description :: pystr
  op_digest :: pystr

record receipt =
  rc_effect_id :: pystr
  rc_status :: receipt_status
  rc_committed_at :: "int option"
  rc_provider_status :: "json option"
  rc_output :: "dict option"

text \<open>\<open>Receipt(effect_id, status)\<close> with the defaults of the dataclass.\<close>

definition bare_receipt :: "pystr \<Rightarrow> receipt_status \<Rightarrow> receipt" where
  "bare_receipt effect_id status = \<lparr>rc_effect_id = effect_id, rc_status = status,
     rc_committed_at = None, rc_provider_status = None, rc_output = None\<rparr>"

record op_result =
  res_output :: dict
  res_receipt :: receipt

section \<open>Exceptions\<close>

text \<open>
  The exceptions of the libraries and the gateway that some \<open>except\<close> clause names, with
  their text; \<open>OtherError\<close> is any other subclass of \<open>Exception\<close>.
\<close>

datatype py_exn =
    TimeoutErr | ConnectionErr | UrlErr | OsErr
  | IncompleteReadErr | DecodeErr | ValueErr | KeyErr | TypeErr | OverflowErr | EofErr | ZlibErr
  | RecursionErr | OtherErr

text \<open>\<open>TimeoutError\<close>, \<open>ConnectionError\<close> and \<open>URLError\<close> are subclasses of \<open>OSError\<close>.\<close>

definition is_os_error :: "py_exn \<Rightarrow> bool" where
  "is_os_error e \<longleftrightarrow> e \<in> {TimeoutErr, ConnectionErr, UrlErr, OsErr}"

text \<open>
  \<open>urllib.error.HTTPError\<close> as the mapping reads it: its text, the status, the headers where
  there are any (the content encoding, the media type and the parameters of the content
  type, \<open>None\<close> a value that is no \<open>str\<close>), and its file: what a \<open>read\<close> would still return,
  or the exception that ends it.
\<close>

record http_headers =
  hh_encoding :: "pystr option"
  hh_media_type :: pystr
  hh_params :: "(pystr \<times> pystr option) list"

record body_stream =
  bs_data :: bytes
  bs_error :: "py_exn option"

record http_error =
  he_str :: pystr
  he_code :: int
  he_headers :: "http_headers option"
  he_stream :: body_stream

text \<open>\<open>read()\<close>: the data and the file at its end.\<close>

definition read_stream :: "body_stream \<Rightarrow> (py_exn + bytes) \<times> body_stream" where
  "read_stream s = (case bs_error s of None \<Rightarrow> Inr (bs_data s) | Some e \<Rightarrow> Inl e, s\<lparr>bs_data := []\<rparr>)"

datatype ds_exn =
    DatasourceError pystr "receipt option"
  | NotPermitted pystr
  | UnknownOperation pystr
  | InputError pystr pystr
  | RateLimited pystr "int option"
  | ProviderRefused pystr "nat option"
  | OperationRefused pystr pystr
  | OperationDeclarationRemoved pystr receipt_status "pystr option"
  | EffectReused pystr
  | EffectNotFound pystr pystr
  | OutcomeUnknown pystr receipt
  | HttpError http_error
  | Py py_exn pystr

text \<open>The attribute \<open>receipt\<close> as the constructor sets it; \<open>effect_id\<close> is the receipt's.\<close>

fun own_receipt :: "ds_exn \<Rightarrow> receipt option" where
  "own_receipt (DatasourceError _ r) = r"
| "own_receipt (OperationDeclarationRemoved _ status effect_id) = map_option (\<lambda>i. bare_receipt i status) effect_id"
| "own_receipt (EffectNotFound _ effect_id) = Some (bare_receipt effect_id NotAttempted)"
| "own_receipt (OutcomeUnknown _ r) = Some r"
| "own_receipt _ = None"

definition own_effect_id :: "ds_exn \<Rightarrow> pystr option" where
  "own_effect_id e = map_option rc_effect_id (own_receipt e)"

text \<open>A raised exception with the two attributes as they stand.\<close>

record raised =
  ra_exn :: ds_exn
  ra_effect_id :: "pystr option"
  ra_receipt :: "receipt option"

definition raising :: "ds_exn \<Rightarrow> raised" where
  "raising e = \<lparr>ra_exn = e, ra_effect_id = own_effect_id e, ra_receipt = own_receipt e\<rparr>"

text \<open>\<open>unknown\<close> of \<open>_datasource_errors.py\<close>.\<close>

definition unknown_outcome :: "pystr \<Rightarrow> pystr \<Rightarrow> ds_exn" where
  "unknown_outcome effect_id message = OutcomeUnknown message (bare_receipt effect_id Unknown)"

lemma own_effect_id_simps [simp]:
  "own_effect_id (unknown_outcome i m) = Some i" "own_receipt (unknown_outcome i m) = Some (bare_receipt i Unknown)"
  "own_effect_id (OutcomeUnknown m r) = Some (rc_effect_id r)"
  "own_effect_id (EffectNotFound m i) = Some i"
  "own_effect_id (DatasourceError m (Some r)) = Some (rc_effect_id r)"
  by (simp_all add: own_effect_id_def unknown_outcome_def bare_receipt_def)

end
