(* ===== verification/Connect_Errors.thy ===== *)
theory Connect_Errors
  imports Ds_Types Base64
begin

text \<open>
  \<open>_datasource_errors.py\<close>: \<open>map_error\<close>, which reads a Connect error envelope out of an
  \<open>HTTPError\<close>. It is given in the stages the function has: the encoding, the body, the
  envelope, the details, the classification.

  \<open>json.loads\<close>, \<open>gzip.decompress\<close> and the three protobuf parsers are parameters (record
  \<open>wire\<close>); a JSON object they return has each key once, as a Python dict.
\<close>

section \<open>Codes\<close>

definition CONNECT_CODES :: "pystr list" where
  "CONNECT_CODES = map lit [''canceled'', ''unknown'', ''invalid_argument'', ''deadline_exceeded'',
     ''not_found'', ''already_exists'', ''permission_denied'', ''resource_exhausted'',
     ''failed_precondition'', ''aborted'', ''out_of_range'', ''unimplemented'', ''internal'',
     ''unavailable'', ''data_loss'', ''unauthenticated'']"

definition HTTP_TO_CODE :: "int \<Rightarrow> pystr" where
  "HTTP_TO_CODE status =
     (if status = 400 then lit ''internal'' else if status = 401 then lit ''unauthenticated''
      else if status = 403 then lit ''permission_denied'' else if status = 404 then lit ''unimplemented''
      else if status \<in> {429, 502, 503, 504} then lit ''unavailable'' else lit ''unknown'')"

section \<open>Stages\<close>

text \<open>What the details accumulate: \<open>BadRequest.field_violations\<close> (their \<open>field\<close>),
  \<open>ErrorInfo.reason\<close> and \<open>.metadata\<close>, \<open>RetryInfo.retry_delay\<close> (seconds and nanos).\<close>

type_synonym error_info = "pystr \<times> (pystr \<rightharpoonup> pystr)"

record details =
  dt_violations :: "pystr list"
  dt_info :: error_info
  dt_retry :: "(int \<times> int) option"

definition no_details :: details where
  "no_details = \<lparr>dt_violations = [], dt_info = (Str [], Map.empty), dt_retry = None\<rparr>"

text \<open>\<open>None\<close> of a parser is \<open>DecodeError\<close>; of \<open>w_parse_time\<close>, \<open>ValueError\<close> or
  \<open>OverflowError\<close>.\<close>

record wire =
  w_json_loads :: "bytes \<Rightarrow> py_exn + json"
  w_gunzip :: "bytes \<Rightarrow> py_exn + bytes"
  w_bad_request :: "bytes \<Rightarrow> pystr list option"
  w_error_info :: "bytes \<Rightarrow> error_info option"
  w_retry_info :: "bytes \<Rightarrow> (int \<times> int) option option"
  w_parse_time :: "pystr \<Rightarrow> int option"

definition response_encoding :: "http_error \<Rightarrow> pystr" where
  "response_encoding err =
     (case he_headers err of None \<Rightarrow> Str []
      | Some h \<Rightarrow> (case hh_encoding h of None \<Rightarrow> Str [] | Some e \<Rightarrow> e))"

definition body_caught :: "py_exn \<Rightarrow> bool" where
  "body_caught e \<longleftrightarrow> e \<in> {ValueErr, EofErr, ZlibErr} \<or> is_os_error e"

text \<open>\<open>_read_preserving_body\<close>: the body, and the error with a fresh file of the same bytes.\<close>

definition read_preserving_body :: "http_error \<Rightarrow> (py_exn + bytes) \<times> http_error" where
  "read_preserving_body err =
     (case read_stream (he_stream err) of
        (Inr body, _) \<Rightarrow> (Inr body, err\<lparr>he_stream := \<lparr>bs_data = body, bs_error = None\<rparr>\<rparr>)
      | (Inl e, rest) \<Rightarrow> (Inl e, err\<lparr>he_stream := rest\<rparr>))"

text \<open>The decoded body; \<open>Inr None\<close> where the mapping returns \<open>None\<close>.\<close>

definition read_payload :: "wire \<Rightarrow> http_error \<Rightarrow> py_exn + json option" where
  "read_payload w err =
     (case bindR (fst (read_preserving_body err)) (\<lambda>body.
           bindR (if lower_ascii (response_encoding err) = lit ''gzip'' then w_gunzip w body else Inr body) (\<lambda>body.
           w_json_loads w body)) of
        Inr payload \<Rightarrow> Inr (Some payload)
      | Inl e \<Rightarrow> if body_caught e then Inr None else Inl e)"

definition json_media :: "http_error \<Rightarrow> bool" where
  "json_media err =
     (case he_headers err of None \<Rightarrow> False
      | Some h \<Rightarrow> hh_media_type h = lit ''application/json''
          \<and> list_all (\<lambda>(key, v). lower_ascii key = lit ''charset''
               \<and> (case v of None \<Rightarrow> False | Some t \<Rightarrow> lower_ascii t = lit ''utf-8'')) (drop 1 (hh_params h)))"

text \<open>A string member, \<open>None\<close> and absence read as empty; \<open>None\<close> for another type.\<close>

definition string_member :: "dict \<Rightarrow> string \<Rightarrow> pystr option" where
  "string_member d key =
     (case jget d key (JStr (lit [])) of JNull \<Rightarrow> Some (Str []) | JStr s \<Rightarrow> Some s | _ \<Rightarrow> None)"

text \<open>\<open>base64.b64decode(value, validate=True)\<close>: alphabet characters, then at most two pads.\<close>

definition b64decode_strict :: "nat list \<Rightarrow> bytes option" where
  "b64decode_strict cs =
     (let data = takeWhile (\<lambda>c. b64_value c \<noteq> None) cs; pads = dropWhile (\<lambda>c. b64_value c \<noteq> None) cs
      in if length pads \<le> 2 \<and> list_all (\<lambda>c. c = 61) pads then a2b_base64 0 0 0 cs else None)"

definition remove_type_prefix :: "pystr \<Rightarrow> pystr" where
  "remove_type_prefix name =
     (let p = codes (lit ''type.googleapis.com/'') in
      if take (length p) (codes name) = p then Str (drop (length p) (codes name)) else name)"

definition add_detail :: "wire \<Rightarrow> pystr \<Rightarrow> bytes \<Rightarrow> details \<Rightarrow> details" where
  "add_detail w name payload dt =
     (if name = lit ''google.rpc.BadRequest'' then
        (case w_bad_request w payload of None \<Rightarrow> dt | Some vs \<Rightarrow> dt\<lparr>dt_violations := dt_violations dt @ vs\<rparr>)
      else if name = lit ''google.rpc.ErrorInfo'' then
        (case w_error_info w payload of None \<Rightarrow> dt | Some i \<Rightarrow> dt\<lparr>dt_info := i\<rparr>)
      else if name = lit ''google.rpc.RetryInfo'' then
        (case w_retry_info w payload of None \<Rightarrow> dt | Some r \<Rightarrow> dt\<lparr>dt_retry := r\<rparr>)
      else dt)"

text \<open>The loop over the details; \<open>None\<close> where the mapping returns \<open>None\<close>.\<close>

fun read_details :: "wire \<Rightarrow> json list \<Rightarrow> details \<Rightarrow> details option" where
  "read_details w [] dt = Some dt"
| "read_details w (JNull # ds) dt = read_details w ds dt"
| "read_details w (JObj d # ds) dt =
     (case (string_member d ''type'', string_member d ''value'') of
        (Some name, Some v) \<Rightarrow>
          (case b64decode_strict (codes v @ replicate (pad_count (length (codes v))) 61) of
             None \<Rightarrow> None
           | Some payload \<Rightarrow> read_details w ds (add_detail w (remove_type_prefix name) payload dt))
      | _ \<Rightarrow> None)"
| "read_details w (_ # ds) dt = None"

record envelope =
  env_code :: pystr
  env_message :: pystr
  env_details :: details

text \<open>The envelope of a payload, \<open>None\<close> where it is none.\<close>

definition read_envelope :: "wire \<Rightarrow> int \<Rightarrow> json \<Rightarrow> envelope option" where
  "read_envelope w status payload =
     (case (case payload of JNull \<Rightarrow> Some [] | JObj d \<Rightarrow> Some d | _ \<Rightarrow> None) of
        None \<Rightarrow> None
      | Some d \<Rightarrow>
          (case (string_member d ''code'', string_member d ''message'') of
             (Some code, Some message) \<Rightarrow>
               (case (case jget d ''details'' JNull of JNull \<Rightarrow> Some [] | JArr ds \<Rightarrow> Some ds | _ \<Rightarrow> None) of
                  None \<Rightarrow> None
                | Some ds \<Rightarrow>
                    map_option (\<lambda>dt. \<lparr>env_code = (if code \<in> set CONNECT_CODES then code else HTTP_TO_CODE status),
                        env_message = message, env_details = dt\<rparr>)
                      (read_details w ds no_details))
           | _ \<Rightarrow> None))"

section \<open>Classification\<close>

text \<open>The last instant \<open>datetime\<close> represents.\<close>

definition MAX_DATETIME :: int where
  "MAX_DATETIME = 253402300799999999"

definition reset_time :: "wire \<Rightarrow> int \<Rightarrow> details \<Rightarrow> int option" where
  "reset_time w now dt =
     (let stated = (case snd (dt_info dt) (lit ''reset_at'') of
                      None \<Rightarrow> None | Some t \<Rightarrow> if truthy t then w_parse_time w t else None)
      in case stated of
           Some t \<Rightarrow> Some t
         | None \<Rightarrow>
             (case dt_retry dt of
                None \<Rightarrow> None
              | Some (seconds, nanos) \<Rightarrow>
                  if 0 \<le> seconds \<and> seconds \<le> 315576000000 \<and> 0 \<le> nanos \<and> nanos \<le> 999999999
                  then (let at = now + seconds * 1000000 + nanos div 1000
                        in if at \<le> MAX_DATETIME then Some at else None)
                  else None))"

definition provider_status :: "details \<Rightarrow> nat option" where
  "provider_status dt =
     (let v = (case snd (dt_info dt) (lit ''provider_status'') of None \<Rightarrow> [] | Some t \<Rightarrow> codes t) in
      if length v = 3 \<and> list_all is_ascii_digit v \<and> 100 \<le> decimal v \<and> decimal v \<le> 599
      then Some (decimal v) else None)"

definition failed_precondition :: "pystr option \<Rightarrow> pystr \<Rightarrow> details \<Rightarrow> ds_exn" where
  "failed_precondition effect_id message dt =
     (let reason = fst (dt_info dt) in
      case (if reason = lit ''SOURCE_OPERATION_OUTCOME_UNKNOWN'' then effect_id else None) of
        Some i \<Rightarrow> unknown_outcome i message
      | None \<Rightarrow>
          if reason = lit ''SOURCE_OPERATION_DECLARATION_REMOVED'' then
            OperationDeclarationRemoved message
              (if snd (dt_info dt) (lit ''receipt_status'') = Some (lit ''committed'') then Committed else Unknown)
              effect_id
          else if reason = lit ''SOURCE_EFFECT_REUSED'' then EffectReused message
          else if reason \<noteq> lit ''SOURCE_PROVIDER_REFUSED'' then OperationRefused message reason
          else ProviderRefused message (provider_status dt))"

definition classify :: "wire \<Rightarrow> int \<Rightarrow> http_error \<Rightarrow> pystr option \<Rightarrow> bool \<Rightarrow> envelope \<Rightarrow> ds_exn" where
  "classify w now err effect_id lookup env =
     (let code = env_code env; message = env_message env; dt = env_details env in
      if code = lit ''permission_denied'' then NotPermitted message
      else if code = lit ''not_found'' then
        (case (if lookup then effect_id else None) of
           Some i \<Rightarrow> EffectNotFound message i | None \<Rightarrow> UnknownOperation message)
      else if code = lit ''invalid_argument'' then
        InputError message (case dt_violations dt of [] \<Rightarrow> Str [] | v # _ \<Rightarrow> v)
      else if code = lit ''resource_exhausted'' \<and> fst (dt_info dt) = lit ''DATASOURCE_RATE_LIMITED'' then
        RateLimited message (reset_time w now dt)
      else if code = lit ''failed_precondition'' then failed_precondition effect_id message dt
      else if lookup \<and> code \<in> {lit ''deadline_exceeded'', lit ''canceled''} then HttpError err
      else case (if code \<in> {lit ''unavailable'', lit ''deadline_exceeded'', lit ''canceled''}
                    \<and> (\<not> lookup \<or> code = lit ''unavailable'') then effect_id else None) of
             Some i \<Rightarrow> unknown_outcome i message
           | None \<Rightarrow> HttpError err)"

text \<open>
  \<open>map_error\<close>: \<open>Inl\<close> an exception that leaves it, \<open>Inr None\<close> where the response is no
  Connect error. \<open>now\<close> is the clock \<open>RateLimited\<close> reads.
\<close>

definition map_error :: "wire \<Rightarrow> int \<Rightarrow> http_error \<Rightarrow> pystr option \<Rightarrow> bool \<Rightarrow> py_exn + ds_exn option" where
  "map_error w now err effect_id lookup =
     (if lower_ascii (response_encoding err) \<notin> {Str [], lit ''identity'', lit ''gzip''} then
        Inr (Some (let message = Str (codes (lit ''unsupported response encoding: '') @ codes (response_encoding err)) in
          case effect_id of Some i \<Rightarrow> unknown_outcome i message | None \<Rightarrow> DatasourceError message None))
      else bindR (read_payload w err) (\<lambda>payload.
        Inr (case payload of
          None \<Rightarrow> None
        | Some p \<Rightarrow>
            if \<not> json_media err then None
            else map_option (classify w now err effect_id lookup) (read_envelope w (he_code err) p))))"

text \<open>The error as the mapping leaves it: its body is read where the encoding is supported.\<close>

definition after_mapping :: "http_error \<Rightarrow> http_error" where
  "after_mapping err =
     (if lower_ascii (response_encoding err) \<notin> {Str [], lit ''identity'', lit ''gzip''} then err
      else snd (read_preserving_body err))"

section \<open>What the mapping returns\<close>

lemma read_preserving_body_Inr:
  "fst (read_preserving_body err) = Inr body \<longleftrightarrow> bs_error (he_stream err) = None \<and> bs_data (he_stream err) = body"
  by (auto simp: read_preserving_body_def read_stream_def split: option.splits)

text \<open>A body that could be read can be read again: the caller finds the error as it was.\<close>

lemma after_mapping_same: "bs_error (he_stream err) = None \<Longrightarrow> after_mapping err = err"
  by (cases "he_stream err") (simp add: after_mapping_def read_preserving_body_def read_stream_def)

lemma mapped_readable:
  assumes "read_payload w err = Inr (Some p)"
  shows "after_mapping err = err"
proof -
  from assms obtain body where "fst (read_preserving_body err) = Inr body"
    by (cases "fst (read_preserving_body err)") (auto simp: read_payload_def split: if_splits)
  then show ?thesis by (simp add: read_preserving_body_Inr after_mapping_same)
qed

definition supported_encoding :: "http_error \<Rightarrow> bool" where
  "supported_encoding err \<longleftrightarrow> lower_ascii (response_encoding err) \<in> {Str [], lit ''identity'', lit ''gzip''}"

text \<open>The response is a Connect error envelope \<open>env\<close>.\<close>

definition connect_envelope :: "wire \<Rightarrow> http_error \<Rightarrow> envelope \<Rightarrow> bool" where
  "connect_envelope w err env \<longleftrightarrow> supported_encoding err \<and> json_media err
     \<and> (\<exists>p. read_payload w err = Inr (Some p) \<and> read_envelope w (he_code err) p = Some env)"

lemma map_error_cases:
  obtains (unsupported) m where "\<not> supported_encoding err"
      "map_error w now err eid lk
         = Inr (Some (case eid of Some i \<Rightarrow> unknown_outcome i m | None \<Rightarrow> DatasourceError m None))"
  | (raises) e where "supported_encoding err" "\<not> (\<exists>env. connect_envelope w err env)"
      "\<not> body_caught e" "map_error w now err eid lk = Inl e"
  | (other) "supported_encoding err" "\<not> (\<exists>env. connect_envelope w err env)" "map_error w now err eid lk = Inr None"
  | (envelope) env where "connect_envelope w err env"
      "map_error w now err eid lk = Inr (Some (classify w now err eid lk env))"
proof (cases "supported_encoding err")
  case False
  then show thesis by (intro unsupported) (auto simp: map_error_def supported_encoding_def Let_def)
next
  case sup: True
  then have map: "map_error w now err eid lk = bindR (read_payload w err) (\<lambda>payload.
      Inr (case payload of None \<Rightarrow> None | Some p \<Rightarrow>
        if \<not> json_media err then None else map_option (classify w now err eid lk) (read_envelope w (he_code err) p)))"
    by (auto simp: map_error_def supported_encoding_def)
  show thesis
  proof (cases "read_payload w err")
    case (Inl e)
    then have "\<not> body_caught e" by (auto simp: read_payload_def split: sum.splits if_splits)
    with Inl sup map show thesis by (intro raises) (auto simp: connect_envelope_def)
  next
    case (Inr payload)
    show thesis
    proof (cases "\<exists>env. connect_envelope w err env")
      case True
      then obtain env where env: "connect_envelope w err env" ..
      with Inr map show thesis by (intro envelope) (auto simp: connect_envelope_def)
    next
      case False
      with Inr sup map show thesis
        by (intro other) (auto simp: connect_envelope_def split: option.splits)
    qed
  qed
qed

lemma envelope_unique: "connect_envelope w err env \<Longrightarrow> connect_envelope w err env' \<Longrightarrow> env' = env"
  by (auto simp: connect_envelope_def)

lemma envelope_supported: "connect_envelope w err env \<Longrightarrow> supported_encoding err"
  by (simp add: connect_envelope_def)

text \<open>The outcome is unknown: the reason the host states, or a code that leaves it open.\<close>

definition leaves_open :: "bool \<Rightarrow> envelope \<Rightarrow> bool" where
  "leaves_open lk env \<longleftrightarrow>
     env_code env = lit ''failed_precondition''
       \<and> fst (dt_info (env_details env)) = lit ''SOURCE_OPERATION_OUTCOME_UNKNOWN''
     \<or> env_code env = lit ''unavailable''
     \<or> \<not> lk \<and> env_code env \<in> {lit ''deadline_exceeded'', lit ''canceled''}"

fun is_unknown :: "ds_exn \<Rightarrow> bool" where
  "is_unknown (OutcomeUnknown _ _) = True"
| "is_unknown _ = False"

lemma is_unknown_outcome [simp]: "is_unknown (unknown_outcome i m)"
  by (simp add: unknown_outcome_def)

lemma failed_precondition_unknown:
  "is_unknown (failed_precondition (Some i) m dt) \<longleftrightarrow> fst (dt_info dt) = lit ''SOURCE_OPERATION_OUTCOME_UNKNOWN''"
  by (auto simp: failed_precondition_def Let_def)

lemma classify_unknown: "is_unknown (classify w now err (Some i) lk env) \<longleftrightarrow> leaves_open lk env"
proof -
  let ?c = "env_code env"
  consider "?c = lit ''failed_precondition''" | "?c = lit ''unavailable''" | "?c = lit ''deadline_exceeded''"
    | "?c = lit ''canceled''" | "?c \<notin> lit ` {''failed_precondition'', ''unavailable'', ''deadline_exceeded'', ''canceled''}"
    by auto
  then show ?thesis
    by cases (auto simp: classify_def leaves_open_def Let_def failed_precondition_unknown)
qed

lemma unknown_own: "is_unknown (classify w now err (Some i) lk env) \<Longrightarrow> own_effect_id (classify w now err (Some i) lk env) = Some i"
  by (auto simp: classify_def failed_precondition_def Let_def split: if_splits)

text \<open>The identity a mapped exception carries is the call's.\<close>

lemma failed_precondition_own:
  "own_effect_id (failed_precondition eid m dt) = None \<or> own_effect_id (failed_precondition eid m dt) = eid"
  by (cases eid) (auto simp: failed_precondition_def Let_def own_effect_id_def bare_receipt_def unknown_outcome_def)

lemma classify_own: "own_effect_id (classify w now err eid lk env) = None \<or> own_effect_id (classify w now err eid lk env) = eid"
  using failed_precondition_own [of eid "env_message env" "env_details env"]
  by (auto simp: classify_def Let_def own_effect_id_def bare_receipt_def unknown_outcome_def split: option.splits)

lemma mapped_own:
  assumes "map_error w now err eid lk = Inr (Some m)"
  shows "own_effect_id m = None \<or> own_effect_id m = eid"
proof (cases rule: map_error_cases [of err w now eid lk])
  case (unsupported t)
  with assms have "m = (case eid of Some i \<Rightarrow> unknown_outcome i t | None \<Rightarrow> DatasourceError t None)" by simp
  then show ?thesis by (cases eid) (simp_all add: own_effect_id_def [of "DatasourceError t None"])
next
  case (envelope env)
  with assms have "m = classify w now err eid lk env" by simp
  then show ?thesis using classify_own by simp
qed (use assms in simp_all)

lemma failed_precondition_not_found: "failed_precondition eid m dt \<noteq> EffectNotFound m' i"
  by (auto simp: failed_precondition_def Let_def unknown_outcome_def split: option.splits)

lemma classify_not_found:
  "classify w now err eid lk env = EffectNotFound m i \<longleftrightarrow>
     lk \<and> eid = Some i \<and> env_code env = lit ''not_found'' \<and> env_message env = m"
proof (cases "env_code env = lit ''not_found''")
  case False
  then show ?thesis
    using failed_precondition_not_found [of eid "env_message env" "env_details env" m i]
    by (auto simp: classify_def Let_def unknown_outcome_def split: option.splits if_splits)
qed (auto simp: classify_def Let_def split: option.splits if_splits)

lemma mapped_not_found:
  "map_error w now err eid lk = Inr (Some (EffectNotFound m i)) \<longleftrightarrow>
     lk \<and> eid = Some i \<and> (\<exists>env. connect_envelope w err env \<and> env_code env = lit ''not_found'' \<and> env_message env = m)"
proof (cases rule: map_error_cases [of err w now eid lk])
  case (unsupported t)
  then show ?thesis by (auto simp: unknown_outcome_def dest: envelope_supported split: option.splits)
next
  case (envelope env)
  then show ?thesis by (auto simp: classify_not_found dest: envelope_unique)
qed auto

section \<open>Properties of the mapping\<close>

text \<open>\<open>EffectNotFound\<close>, the one answer that permits invoking again, is returned exactly
  for a lookup whose response is a Connect error envelope of code \<open>not_found\<close>, with the
  host's message and the looked-up identifier.\<close>

theorem effect_not_found_exact:
  "map_error w now err eid lk = Inr (Some (EffectNotFound m i)) \<longleftrightarrow>
     lk \<and> eid = Some i \<and> (\<exists>env. connect_envelope w err env \<and> env_code env = lit ''not_found'' \<and> env_message env = m)"
  by (rule mapped_not_found)

text \<open>C25: for a call that carries an effect identifier the mapping leaves the outcome open
  exactly when the encoding is unsupported, the host states it does not know, or the code is
  \<open>unavailable\<close> or, for an invocation, \<open>deadline_exceeded\<close> or \<open>canceled\<close>; the exception
  then carries the identifier.\<close>

theorem outcome_unknown_exact:
  "(\<exists>m. map_error w now err (Some i) lk = Inr (Some m) \<and> is_unknown m \<and> own_effect_id m = Some i) \<longleftrightarrow>
     \<not> supported_encoding err \<or> (\<exists>env. connect_envelope w err env \<and> leaves_open lk env)"
proof (cases rule: map_error_cases [of err w now "Some i" lk])
  case (unsupported t)
  then show ?thesis by simp
next
  case (envelope env)
  let ?m = "classify w now err (Some i) lk env"
  have left: "(\<exists>m. map_error w now err (Some i) lk = Inr (Some m) \<and> is_unknown m \<and> own_effect_id m = Some i)
      \<longleftrightarrow> is_unknown ?m \<and> own_effect_id ?m = Some i"
    by (simp add: envelope(2))
  have right: "\<not> supported_encoding err \<or> (\<exists>env. connect_envelope w err env \<and> leaves_open lk env) \<longleftrightarrow> leaves_open lk env"
    using envelope(1) envelope_unique envelope_supported by blast
  show ?thesis
    unfolding left right using classify_unknown unknown_own by blast
qed auto

lemma failed_precondition_refused:
  "failed_precondition eid m dt = ProviderRefused m' (Some n) \<Longrightarrow> provider_status dt = Some n"
  by (auto simp: failed_precondition_def Let_def unknown_outcome_def split: option.splits if_splits)

text \<open>a provider's HTTP status is reported only from the three ASCII digits the host put
  into the metadata, and lies between 100 and 599.\<close>

theorem provider_status_stated:
  assumes "map_error w now err eid lk = Inr (Some (ProviderRefused m (Some n)))"
  shows "100 \<le> n \<and> n \<le> 599 \<and> (\<exists>env t. connect_envelope w err env
     \<and> snd (dt_info (env_details env)) (lit ''provider_status'') = Some t
     \<and> length (codes t) = 3 \<and> list_all is_ascii_digit (codes t) \<and> decimal (codes t) = n)"
proof (cases rule: map_error_cases [of err w now eid lk])
  case (envelope env)
  with assms have c: "classify w now err eid lk env = ProviderRefused m (Some n)" by simp
  then have "failed_precondition eid (env_message env) (env_details env) = ProviderRefused m (Some n)"
    by (auto simp: classify_def Let_def unknown_outcome_def split: option.splits if_splits)
  from failed_precondition_refused [OF this] envelope(1) show ?thesis
    by (auto simp: provider_status_def Let_def split: option.splits if_splits)
qed (use assms in \<open>auto simp: unknown_outcome_def split: option.splits\<close>)

text \<open>with an unsupported content encoding neither the body nor the status decides: the
  mapping returns the same value whatever they are.\<close>

theorem unsupported_encoding_blind:
  assumes "\<not> supported_encoding err"
  shows "map_error w now err eid lk = map_error w' now' (err\<lparr>he_stream := b, he_code := c\<rparr>) eid lk"
  using assms by (simp add: map_error_def supported_encoding_def response_encoding_def)

text \<open>A refusal the provider made, as it arrives.\<close>

definition sample_wire :: wire where
  "sample_wire = \<lparr>w_json_loads = (\<lambda>_. Inr (JObj [(lit ''code'', JStr (lit ''failed_precondition'')),
       (lit ''details'', JArr [JNull, JObj [(lit ''type'', JStr (lit ''google.rpc.ErrorInfo'')), (lit ''value'', JNull)]])])),
     w_gunzip = (\<lambda>_. Inl OsErr), w_bad_request = (\<lambda>_. None),
     w_error_info = (\<lambda>_. Some (lit ''SOURCE_PROVIDER_REFUSED'', [lit ''provider_status'' \<mapsto> lit ''429''])),
     w_retry_info = (\<lambda>_. None), w_parse_time = (\<lambda>_. None)\<rparr>"

definition sample_http_error :: "string \<Rightarrow> http_error" where
  "sample_http_error encoding = \<lparr>he_str = lit ''HTTP Error 400: Bad Request'', he_code = 400,
     he_headers = Some \<lparr>hh_encoding = Some (lit encoding), hh_media_type = lit ''application/json'',
       hh_params = [(lit ''application/json'', Some (Str [])), (lit ''Charset'', Some (lit ''UTF-8''))]\<rparr>,
     he_stream = \<lparr>bs_data = [], bs_error = None\<rparr>\<rparr>"

lemma sample_mapped:
  "map_error sample_wire 0 (sample_http_error ''identity'') None False = Inr (Some (ProviderRefused (Str []) (Some 429)))"
  by code_simp

lemma provider_status_stated_witness:
  "\<exists>env. connect_envelope sample_wire (sample_http_error ''identity'') env"
  using provider_status_stated [OF sample_mapped] by blast

lemma outcome_unknown_exact_witness:
  "\<exists>m. map_error sample_wire 0 (sample_http_error ''br'') (Some (lit ''e'')) False = Inr (Some m)
     \<and> is_unknown m \<and> own_effect_id m = Some (lit ''e'')"
proof -
  have "\<not> supported_encoding (sample_http_error ''br'')" by code_simp
  then show ?thesis
    using outcome_unknown_exact [of sample_wire 0 "sample_http_error ''br''" "lit ''e''" False] by blast
qed

lemma unsupported_encoding_blind_witness:
  "map_error sample_wire 0 (sample_http_error ''br'') (Some (lit ''e'')) False
     = map_error sample_wire 5 (sample_http_error ''br''\<lparr>he_stream := \<lparr>bs_data = [], bs_error = Some OsErr\<rparr>, he_code := 404\<rparr>) (Some (lit ''e'')) False"
proof (rule unsupported_encoding_blind)
  show "\<not> supported_encoding (sample_http_error ''br'')" by code_simp
qed

lemma HTTP_TO_CODE_known: "HTTP_TO_CODE status \<in> set CONNECT_CODES"
  by (simp add: HTTP_TO_CODE_def CONNECT_CODES_def)

end
