(* ===== verification/Datasource.thy ===== *)
theory Datasource
  imports Connect_Errors
begin

unbundle bit_operations_syntax

text \<open>
  \<open>datasource.py\<close>: the gateway-bound client. A method takes the host side (record
  \<open>host\<close>: the gateway's \<open>unary\<close>, whether its signature takes call options, and the
  protobuf and standard-library calls) and returns the gateway calls it made with its
  result. Instants and durations are in microseconds.
\<close>

section \<open>The host side\<close>

record gw_call =
  gw_procedure :: string
  gw_fields :: dict
  gw_headers :: "(string \<times> pystr) list option"
  gw_timeout :: "int option"

text \<open>
  \<open>h_parse\<close> is \<open>json_format.ParseDict\<close> (\<open>Some\<close> the text of its \<open>ParseError\<close>),
  \<open>h_to_dict\<close> is \<open>json_format.MessageToDict\<close>, \<open>h_loads\<close> is \<open>json.loads\<close> of a text with
  the constants refused, and \<open>h_parse_time\<close> reads a timestamp.
\<close>

record 'r host =
  h_unary :: "gw_call \<Rightarrow> raised + 'r"
  h_options :: bool
  h_parse :: "string \<Rightarrow> dict \<Rightarrow> pystr option"
  h_to_dict :: "'r \<Rightarrow> raised + dict"
  h_wire :: wire
  h_now :: int
  h_loads :: "pystr \<Rightarrow> py_exn + json"
  h_parse_time :: "pystr \<Rightarrow> py_exn + int"

definition DATASOURCE_SERVICE :: string where
  "DATASOURCE_SERVICE = ''/saas.accounts.v1.DatasourceService/''"

section \<open>_rpc\<close>

text \<open>The inner \<open>try\<close>: what leaves it for an exception of the gateway. An \<open>HTTPError\<close> that is
  raised again is the object the mapping has read.\<close>

definition lost_reply :: "py_exn \<Rightarrow> bool" where
  "lost_reply e \<longleftrightarrow> e \<in> {TimeoutErr, ConnectionErr, IncompleteReadErr, DecodeErr, UrlErr}"

definition http_failure :: "'r host \<Rightarrow> string \<Rightarrow> pystr option \<Rightarrow> bool \<Rightarrow> raised \<Rightarrow> http_error \<Rightarrow> raised" where
  "http_failure host method effect_id lookup err he =
     (case map_error (h_wire host) (h_now host) he effect_id lookup of
        Inl e \<Rightarrow> raising (Py e (Str []))
      | Inr None \<Rightarrow>
          (case effect_id of
             Some i \<Rightarrow> raising (unknown_outcome i (he_str he))
           | None \<Rightarrow>
               if method \<in> {''DeclareSourceOperations'', ''ListSourceOperations''} \<and> he_code he = 403
               then raising (NotPermitted (he_str he)) else err)
      | Inr (Some mapped) \<Rightarrow> if mapped = HttpError he then err else raising mapped)"

definition gateway_failure :: "'r host \<Rightarrow> string \<Rightarrow> pystr option \<Rightarrow> bool \<Rightarrow> raised \<Rightarrow> raised" where
  "gateway_failure host method effect_id lookup err =
     (case ra_exn err of
        HttpError he \<Rightarrow>
          http_failure host method effect_id lookup (err\<lparr>ra_exn := HttpError (after_mapping he)\<rparr>) he
      | Py e message \<Rightarrow>
          if lost_reply e then
            (case effect_id of Some i \<Rightarrow> raising (unknown_outcome i message) | None \<Rightarrow> err)
          else err
      | _ \<Rightarrow> err)"

text \<open>The outer \<open>except\<close>: an invocation's failure keeps its effect id.\<close>

definition retain :: "pystr option \<Rightarrow> bool \<Rightarrow> raised \<Rightarrow> raised" where
  "retain effect_id lookup err =
     (case effect_id of
        Some i \<Rightarrow>
          if \<not> lookup \<and> ra_effect_id err = None
          then err\<lparr>ra_effect_id := Some i, ra_receipt := Some (bare_receipt i Unknown)\<rparr> else err
      | None \<Rightarrow> err)"

definition dispatch :: "'r host \<Rightarrow> string \<Rightarrow> gw_call \<Rightarrow> pystr option \<Rightarrow> bool \<Rightarrow> raised + dict" where
  "dispatch host method call effect_id lookup =
     (case h_unary host call of
        Inl err \<Rightarrow> Inl (retain effect_id lookup (gateway_failure host method effect_id lookup err))
      | Inr response \<Rightarrow>
          (case h_to_dict host response of
             Inl err \<Rightarrow> Inl (retain effect_id lookup err) | Inr d \<Rightarrow> Inr d))"

definition rpc :: "'r host \<Rightarrow> string \<Rightarrow> dict \<Rightarrow> pystr option \<Rightarrow> bool \<Rightarrow> (string \<times> pystr) list option
    \<Rightarrow> int option \<Rightarrow> gw_call list \<times> (raised + dict)" where
  "rpc host method flds effect_id lookup headers timeout =
     (case h_parse host method flds of
        Some message \<Rightarrow> ([], Inl (raising (InputError message (Str []))))
      | None \<Rightarrow>
          if (headers \<noteq> None \<or> timeout \<noteq> None) \<and> \<not> h_options host
          then ([], Inl (raising (Py TypeErr (lit ''invoke requires OperationGateway.unary with headers and timeout keyword options''))))
          else let call = \<lparr>gw_procedure = DATASOURCE_SERVICE @ method, gw_fields = flds,
                 gw_headers = headers, gw_timeout = timeout\<rparr>
               in ([call], dispatch host method call effect_id lookup))"

section \<open>Effect identifiers\<close>

definition validate_effect_id :: "pystr \<Rightarrow> ds_exn + unit" where
  "validate_effect_id effect_id =
     (case utf8_encode effect_id of
        None \<Rightarrow> Inl (InputError (lit ''effect_id must be valid UTF-8'') (Str []))
      | Some encoded \<Rightarrow>
          if \<not> (1 \<le> length encoded \<and> length encoded \<le> 128)
             \<or> take 1 (codes effect_id) = [32] \<or> take 1 (rev (codes effect_id)) = [32]
             \<or> list_ex (\<lambda>b. b < 32 \<or> b = 127) encoded
          then Inl (InputError (lit ''effect_id must be 1-128 UTF-8 bytes without HTTP controls or edge spaces'') (Str []))
          else Inr ())"

text \<open>\<open>_uuid7\<close>: 48 bits of milliseconds, the version, and 74 random bits around the variant.\<close>

definition uuid7_value :: "nat \<Rightarrow> nat \<Rightarrow> nat" where
  "uuid7_value ms random =
     push_bit 80 ms OR push_bit 76 7 OR push_bit 64 (drop_bit 62 random)
       OR (push_bit 62 2 OR (random AND (push_bit 62 1 - 1)))"

text \<open>\<open>str(UUID(int=value))\<close>: 32 hexadecimal digits, grouped 8-4-4-4-12.\<close>

definition hex_digits :: "nat \<Rightarrow> nat \<Rightarrow> nat list" where
  "hex_digits n v = map (\<lambda>i. hex_char (v div 16 ^ i mod 16)) (rev [0..<n])"

definition uuid_text :: "nat \<Rightarrow> pystr" where
  "uuid_text v =
     (let h = hex_digits 32 v in
      Str (take 8 h @ 45 # take 4 (drop 8 h) @ 45 # take 4 (drop 12 h) @ 45 # take 4 (drop 16 h) @ 45 # drop 20 h))"

definition uuid7 :: "nat \<Rightarrow> nat \<Rightarrow> py_exn + pystr" where
  "uuid7 ms random =
     (let value = uuid7_value ms random in if value \<ge> 2 ^ 128 then Inl ValueErr else Inr (uuid_text value))"

section \<open>Receipts and results\<close>

definition truthy_json :: "json \<Rightarrow> bool" where
  "truthy_json j = (case j of JNull \<Rightarrow> False | JBool b \<Rightarrow> b | JInt i \<Rightarrow> i \<noteq> 0 | JFloat t \<Rightarrow> t \<notin> {lit ''0.0'', lit ''-0.0''}
     | JStr s \<Rightarrow> truthy s | JArr vs \<Rightarrow> vs \<noteq> [] | JObj d \<Rightarrow> d \<noteq> [])"

text \<open>\<open>_receipt\<close>; \<open>effect_id\<close> is a string field, so a value of another type cannot occur.\<close>

definition receipt_of :: "(pystr \<Rightarrow> py_exn + int) \<Rightarrow> dict \<Rightarrow> py_exn + receipt" where
  "receipt_of parse_time v =
     bindR (let at = jget v ''committed_at'' JNull in
            if \<not> truthy_json at then Inr None
            else case at of JStr t \<Rightarrow> bindR (parse_time t) (\<lambda>i. Inr (Some i)) | _ \<Rightarrow> Inl ValueErr) (\<lambda>committed_at.
     case jget v ''status'' JNull of
       JStr s \<Rightarrow>
         bindR (if s = lit ''committed'' then Inr Committed
                else if s = lit ''unknown'' then Inr Unknown else Inl ValueErr) (\<lambda>status.
         case map_of v (lit ''effect_id'') of
           None \<Rightarrow> Inl KeyErr
         | Some (JStr i) \<Rightarrow>
             Inr \<lparr>rc_effect_id = i, rc_status = status, rc_committed_at = committed_at,
                  rc_provider_status = map_of v (lit ''provider_status''), rc_output = None\<rparr>
         | Some _ \<Rightarrow> Inl ValueErr)
     | _ \<Rightarrow> Inl TypeErr)"

definition json_object :: "(pystr \<Rightarrow> py_exn + json) \<Rightarrow> json \<Rightarrow> py_exn + dict" where
  "json_object loads v =
     (case v of
        JStr t \<Rightarrow> bindR (loads t) (\<lambda>decoded. case decoded of JObj d \<Rightarrow> Inr d | _ \<Rightarrow> Inl TypeErr)
      | _ \<Rightarrow> Inl TypeErr)"

text \<open>\<open>except (KeyError, TypeError, ValueError, OverflowError)\<close>.\<close>

definition evidence_caught :: "py_exn \<Rightarrow> bool" where
  "evidence_caught e \<longleftrightarrow> e \<in> {KeyErr, TypeErr, ValueErr, OverflowErr}"

definition read_receipt :: "(pystr \<Rightarrow> py_exn + int) \<Rightarrow> dict \<Rightarrow> pystr \<Rightarrow> py_exn + (dict \<times> receipt)" where
  "read_receipt parse_time response effect_id =
     (case map_of response (lit ''receipt'') of
        None \<Rightarrow> Inl KeyErr
      | Some (JObj v) \<Rightarrow>
          bindR (receipt_of parse_time v) (\<lambda>r. if rc_effect_id r \<noteq> effect_id then Inl ValueErr else Inr (v, r))
      | Some _ \<Rightarrow> Inl OtherErr)"

definition operation_result :: "'r host \<Rightarrow> dict \<Rightarrow> pystr \<Rightarrow> raised + op_result" where
  "operation_result host response effect_id =
     (case read_receipt (h_parse_time host) response effect_id of
        Inl e \<Rightarrow>
          Inl (raising (if evidence_caught e
            then unknown_outcome effect_id (lit ''host returned a missing or invalid operation receipt'')
            else Py e (Str [])))
      | Inr (v, r) \<Rightarrow>
          if rc_status r = Unknown then Inl (raising (OutcomeUnknown (lit ''host has not resolved the effect'') r))
          else
            let failed = (\<lambda>r e. Inl (raising (if evidence_caught e
                  then DatasourceError (lit ''host returned invalid committed operation output'') (Some r)
                  else Py e (Str []))))
            in case json_object (h_loads host) (jget v ''output_json'' (JStr (lit []))) of
                 Inl e \<Rightarrow> failed r e
               | Inr saved \<Rightarrow>
                   let r = r\<lparr>rc_output := Some saved\<rparr> in
                   (case json_object (h_loads host) (jget response ''output_json'' (JStr (lit []))) of
                      Inl e \<Rightarrow> failed r e
                    | Inr output \<Rightarrow> Inr \<lparr>res_output = output, res_receipt = r\<rparr>))"

section \<open>The call half\<close>

text \<open>An input that is a JSON mapping, or a value that is no \<open>Mapping\<close>.\<close>

datatype given_input = Mapping dict | NotMapping

text \<open>
  The first exception \<open>json.dumps\<close> meets as it walks a value: \<open>RecursionError\<close> at an array or
  object deeper than the interpreter's limit, \<open>ValueError\<close> at a scalar without a JSON text.
\<close>

primrec first_some :: "'a option list \<Rightarrow> 'a option" where
  "first_some [] = None"
| "first_some (x # xs) = (case x of Some y \<Rightarrow> Some y | None \<Rightarrow> first_some xs)"

fun dump_error :: "nat \<Rightarrow> json \<Rightarrow> py_exn option" where
  "dump_error limit (JArr vs) =
     (if limit = 0 then Some RecursionErr else first_some (map (dump_error (limit - 1)) vs))"
| "dump_error limit (JObj items) =
     (if limit = 0 then Some RecursionErr else first_some (map (\<lambda>(_, v). dump_error (limit - 1) v) items))"
| "dump_error limit j = (if dumps j = None then Some ValueErr else None)"

definition json_dumps :: "nat \<Rightarrow> json \<Rightarrow> py_exn + nat list" where
  "json_dumps limit j =
     (case dump_error limit j of
        Some e \<Rightarrow> Inl e
      | None \<Rightarrow> (case dumps j of None \<Rightarrow> Inl ValueErr | Some t \<Rightarrow> Inr t))"

text \<open>\<open>except (ValueError, TypeError)\<close> around it: a \<open>RecursionError\<close> goes through.\<close>

definition input_text :: "nat \<Rightarrow> given_input \<Rightarrow> ds_exn + pystr" where
  "input_text limit given =
     (case given of
        NotMapping \<Rightarrow> Inl (InputError (lit ''input must be a JSON object'') (Str []))
      | Mapping d \<Rightarrow>
          (case json_dumps limit (JObj d) of
             Inl e \<Rightarrow> Inl (if e = ValueErr
               then InputError (lit ''Out of range float values are not JSON compliant'') (Str []) else Py e (Str []))
           | Inr t \<Rightarrow> Inr (Str t)))"

text \<open>A deadline in microseconds since the epoch, or one that is infinite or no number.\<close>

datatype deadline = At int | NotFinite

definition call_timeout :: "deadline option \<Rightarrow> int \<Rightarrow> ds_exn + int option" where
  "call_timeout deadline now =
     (case deadline of
        None \<Rightarrow> Inr None
      | Some NotFinite \<Rightarrow> Inl (InputError (lit ''deadline must be a finite future Unix timestamp'') (Str []))
      | Some (At d) \<Rightarrow>
          if d - now \<le> 0 then Inl (InputError (lit ''deadline must be a finite future Unix timestamp'') (Str []))
          else Inr (Some (d - now)))"

record invoke_args =
  iv_org_id :: pystr
  iv_source_id :: pystr
  iv_operation :: pystr
  iv_input :: given_input
  iv_effect_id :: "pystr option"
  iv_deadline :: "deadline option"

text \<open>The clock and the random bits \<open>_uuid7\<close> reads, the interpreter's recursion limit (what the
  stack leaves of it), and the clock the timeout is taken from.\<close>

record invoke_io =
  io_ms :: nat
  io_random :: nat
  io_limit :: nat
  io_now :: int

definition chosen_effect_id :: "invoke_args \<Rightarrow> invoke_io \<Rightarrow> py_exn + pystr" where
  "chosen_effect_id a io =
     (case iv_effect_id a of Some i \<Rightarrow> Inr i | None \<Rightarrow> uuid7 (io_ms io) (io_random io))"

text \<open>What is checked and computed before the call.\<close>

definition invoke_prepare :: "invoke_args \<Rightarrow> invoke_io \<Rightarrow> ds_exn + (pystr \<times> pystr \<times> int option)" where
  "invoke_prepare a io =
     (case chosen_effect_id a io of
        Inl e \<Rightarrow> Inl (Py e (Str []))
      | Inr effect_id \<Rightarrow>
          thenR (validate_effect_id effect_id)
          (bindR (input_text (io_limit io) (iv_input a)) (\<lambda>input_json.
           bindR (call_timeout (iv_deadline a) (io_now io)) (\<lambda>timeout.
             Inr (effect_id, input_json, timeout)))))"

definition invoke_fields :: "invoke_args \<Rightarrow> pystr \<Rightarrow> pystr \<Rightarrow> dict" where
  "invoke_fields a input_json effect_id =
     [(lit ''org_id'', JStr (iv_org_id a)), (lit ''source_id'', JStr (iv_source_id a)),
      (lit ''operation'', JStr (iv_operation a)), (lit ''input_json'', JStr input_json),
      (lit ''effect_id'', JStr effect_id)]"

definition invoke :: "'r host \<Rightarrow> invoke_args \<Rightarrow> invoke_io \<Rightarrow> gw_call list \<times> (raised + op_result)" where
  "invoke host a io =
     (case invoke_prepare a io of
        Inl e \<Rightarrow> ([], Inl (raising e))
      | Inr (effect_id, input_json, timeout) \<Rightarrow>
          (case rpc host ''InvokeSourceOperation'' (invoke_fields a input_json effect_id) (Some effect_id) False
              (Some [(''x-codefly-effect-id'', effect_id)]) timeout of
             (calls, Inl err) \<Rightarrow> (calls, Inl err)
           | (calls, Inr response) \<Rightarrow> (calls, operation_result host response effect_id)))"

text \<open>The values \<open>lookup\<close> returns: a receipt, or an exception as a value.\<close>

datatype found = FoundReceipt receipt | FoundOutcome raised

fun is_outcome :: "ds_exn \<Rightarrow> bool" where
  "is_outcome (OutcomeUnknown _ _) = True"
| "is_outcome (EffectNotFound _ _) = True"
| "is_outcome (OperationDeclarationRemoved _ _ _) = True"
| "is_outcome _ = False"

definition lookup_attempt :: "'r host \<Rightarrow> pystr \<Rightarrow> gw_call list \<times> (raised + op_result)" where
  "lookup_attempt host effect_id =
     (case rpc host ''LookupInvokeSourceOperation'' [(lit ''effect_id'', JStr effect_id)] (Some effect_id) True None None of
        (calls, Inl err) \<Rightarrow> (calls, Inl err)
      | (calls, Inr response) \<Rightarrow> (calls, operation_result host response effect_id))"

definition lookup :: "'r host \<Rightarrow> pystr \<Rightarrow> pystr \<Rightarrow> pystr \<Rightarrow> gw_call list \<times> (raised + found)" where
  "lookup host org_id source_id effect_id =
     (case validate_effect_id effect_id of
        Inl e \<Rightarrow> ([], Inl (raising e))
      | Inr _ \<Rightarrow>
          (case lookup_attempt host effect_id of
             (calls, Inr res) \<Rightarrow> (calls, Inr (FoundReceipt (res_receipt res)))
           | (calls, Inl err) \<Rightarrow>
               (calls, if is_outcome (ra_exn err) then Inr (FoundOutcome err) else Inl err)))"

section \<open>Printed inputs\<close>

lemma first_some_None [simp]: "first_some xs = None \<longleftrightarrow> list_all (\<lambda>x. x = None) xs"
  by (induction xs) (auto split: option.split)

lemma dumps_list_Some: "(\<exists>t. dumps_list vs = Some t) \<longleftrightarrow> list_all (\<lambda>v. \<exists>t. dumps v = Some t) vs"
  by (induction vs) (auto split: option.splits)

lemma dumps_items_Some: "(\<exists>t. dumps_items items = Some t) \<longleftrightarrow> list_all (\<lambda>(_, v). \<exists>t. dumps v = Some t) items"
  by (induction items) (auto split: option.splits)

text \<open>Printing fails exactly for a value without a text, or nested past the limit.\<close>

lemma dump_error_None: "dump_error limit j = None \<longleftrightarrow> dumps j \<noteq> None \<and> nested limit j"
proof (induction limit j rule: dump_error.induct)
  case (1 limit vs)
  then have "0 < limit \<Longrightarrow> list_all (\<lambda>v. dump_error (limit - 1) v = None) vs
      \<longleftrightarrow> list_all (\<lambda>v. dumps v \<noteq> None) vs \<and> list_all (nested (limit - 1)) vs"
    unfolding list_all_iff by blast
  then show ?case by (simp add: list.pred_map comp_def dumps_list_Some)
next
  case (2 limit items)
  then have "0 < limit \<Longrightarrow> (dump_error (limit - 1) v = None \<longleftrightarrow> dumps v \<noteq> None \<and> nested (limit - 1) v)"
    if "(k, v) \<in> set items" for k v using that by blast
  then have "0 < limit \<Longrightarrow> list_all (\<lambda>(_, v). dump_error (limit - 1) v = None) items
      \<longleftrightarrow> list_all (\<lambda>(_, v). dumps v \<noteq> None) items \<and> list_all (\<lambda>(_, v). nested (limit - 1) v) items"
    unfolding list_all_iff by (auto split: prod.splits)
  then show ?case by (simp add: list.pred_map comp_def case_prod_unfold dumps_items_Some)
qed simp_all

lemma json_dumps_Inr: "json_dumps limit j = Inr t \<longleftrightarrow> dumps j = Some t \<and> nested limit j"
  using dump_error_None [of limit j] by (cases "dump_error limit j") (auto simp: json_dumps_def split: option.split)

lemma first_some_Some: "first_some xs = Some y \<Longrightarrow> Some y \<in> set xs"
  by (induction xs) (auto split: option.splits)

lemma dump_error_Some: "dump_error limit j = Some e \<Longrightarrow> e = ValueErr \<or> e = RecursionErr \<and> \<not> nested limit j"
proof (induction limit j rule: dump_error.induct)
  case (1 limit vs)
  show ?case
  proof (cases "limit = 0")
    case False
    with 1(2) obtain v where v: "v \<in> set vs" "dump_error (limit - 1) v = Some e"
      by (fastforce dest: first_some_Some)
    from 1(1) [OF False this] v False show ?thesis by (auto simp: list_all_iff)
  qed (use 1(2) in simp)
next
  case (2 limit items)
  show ?case
  proof (cases "limit = 0")
    case False
    with 2(2) obtain k v where v: "(k, v) \<in> set items" "dump_error (limit - 1) v = Some e"
      by (fastforce dest: first_some_Some)
    from 2(1) [OF False v(1) refl v(2)] v False show ?thesis by (fastforce simp: list_all_iff)
  qed (use 2(2) in simp)
qed (simp_all split: if_splits)

lemma json_dumps_Inl: "json_dumps limit j = Inl e \<Longrightarrow> e = ValueErr \<or> e = RecursionErr \<and> \<not> nested limit j"
  by (auto simp: json_dumps_def dest: dump_error_Some split: option.splits)

section \<open>Minted identifiers\<close>

lemma bit_less_exp: "b < 2 ^ n \<Longrightarrow> bit b m \<Longrightarrow> m < n" for b :: nat
proof (rule ccontr)
  assume b: "b < 2 ^ n" "bit b m" and "\<not> m < n"
  then have "(2 :: nat) ^ n \<le> 2 ^ m" by simp
  with b(1) have "b < 2 ^ m" by linarith
  with b(2) show False by (simp add: bit_iff_odd)
qed

lemma push_or_plus: "b < 2 ^ n \<Longrightarrow> push_bit n a OR b = a * 2 ^ n + b" for a b :: nat
proof -
  assume b: "b < 2 ^ n"
  have "push_bit n a OR b = push_bit n a + b"
    using b by (intro disjunctive_add [symmetric]) (auto simp: bit_push_bit_iff dest: bit_less_exp)
  then show ?thesis by (simp add: push_bit_eq_mult)
qed

lemma and_low_bits: "a AND (push_bit n 1 - 1) = a mod 2 ^ n" for a :: nat
  by (metis mask_eq_exp_minus_1 mult_1 push_bit_eq_mult take_bit_eq_mask take_bit_eq_mod)

text \<open>The four fields side by side.\<close>

lemma uuid7_value_eq:
  assumes "random < 2 ^ 74"
  shows "uuid7_value ms random
     = ms * 2 ^ 80 + (7 * 2 ^ 76 + ((random div 2 ^ 62) * 2 ^ 64 + (2 * 2 ^ 62 + random mod 2 ^ 62)))"
    and "7 * 2 ^ 76 + ((random div 2 ^ 62) * 2 ^ 64 + (2 * 2 ^ 62 + random mod 2 ^ 62)) < (2 :: nat) ^ 80"
proof -
  define x r where "x = random div 2 ^ 62" and "r = random mod 2 ^ 62"
  have x: "x < 2 ^ 12" using assms by (simp add: x_def div_less_iff_less_mult)
  have r: "r < 2 ^ 62" by (simp add: r_def)
  have 1: "push_bit 62 2 OR r = 2 * 2 ^ 62 + r" using r by (rule push_or_plus)
  have b1: "2 * 2 ^ 62 + r < 2 ^ 64" using r by simp
  have 2: "push_bit 64 x OR (2 * 2 ^ 62 + r) = x * 2 ^ 64 + (2 * 2 ^ 62 + r)" using b1 by (rule push_or_plus)
  have b2: "x * 2 ^ 64 + (2 * 2 ^ 62 + r) < 2 ^ 76" using x b1 by simp
  have 3: "push_bit 76 7 OR (x * 2 ^ 64 + (2 * 2 ^ 62 + r)) = 7 * 2 ^ 76 + (x * 2 ^ 64 + (2 * 2 ^ 62 + r))"
    using b2 by (rule push_or_plus)
  have b3: "7 * 2 ^ 76 + (x * 2 ^ 64 + (2 * 2 ^ 62 + r)) < 2 ^ 80" using b2 by simp
  have 4: "push_bit 80 ms OR (7 * 2 ^ 76 + (x * 2 ^ 64 + (2 * 2 ^ 62 + r)))
      = ms * 2 ^ 80 + (7 * 2 ^ 76 + (x * 2 ^ 64 + (2 * 2 ^ 62 + r)))"
    using b3 by (rule push_or_plus)
  have "uuid7_value ms random = push_bit 80 ms OR (push_bit 76 7 OR (push_bit 64 x OR (push_bit 62 2 OR r)))"
    unfolding uuid7_value_def x_def r_def and_low_bits drop_bit_eq_div by (simp only: or.assoc)
  then have "uuid7_value ms random = ms * 2 ^ 80 + (7 * 2 ^ 76 + (x * 2 ^ 64 + (2 * 2 ^ 62 + r)))"
    unfolding 1 2 3 4 .
  then show "uuid7_value ms random
     = ms * 2 ^ 80 + (7 * 2 ^ 76 + ((random div 2 ^ 62) * 2 ^ 64 + (2 * 2 ^ 62 + random mod 2 ^ 62)))"
    unfolding x_def r_def .
  show "7 * 2 ^ 76 + ((random div 2 ^ 62) * 2 ^ 64 + (2 * 2 ^ 62 + random mod 2 ^ 62)) < (2 :: nat) ^ 80"
    using b3 by (simp add: x_def r_def)
qed

lemma uuid7_order:
  assumes "random < 2 ^ 74" and "random' < 2 ^ 74" and "ms < ms'"
  shows "uuid7_value ms random < uuid7_value ms' random'"
proof -
  have "(ms + 1) * 2 ^ 80 \<le> ms' * 2 ^ 80" using assms(3) by (intro mult_right_mono) auto
  then show ?thesis
    using uuid7_value_eq(1) [OF assms(1), of ms] uuid7_value_eq(2) [OF assms(1)]
      uuid7_value_eq(1) [OF assms(2), of ms'] by (simp add: algebra_simps)
qed

lemma uuid7_fits: "random < 2 ^ 74 \<Longrightarrow> ms < 2 ^ 48 \<Longrightarrow> uuid7_value ms random < 2 ^ 128"
  using uuid7_value_eq(1) [of random ms] uuid7_value_eq(2) [of random] by simp

text \<open>The version and the variant digit.\<close>

lemma uuid7_nibbles:
  assumes "random < 2 ^ 74"
  shows "uuid7_value ms random div 2 ^ 76 mod 16 = 7"
    and "8 \<le> uuid7_value ms random div 2 ^ 60 mod 16 \<and> uuid7_value ms random div 2 ^ 60 mod 16 < 12"
proof -
  define low where "low = (random div 2 ^ 62) * 2 ^ 64 + (2 * 2 ^ 62 + random mod 2 ^ 62)"
  have "random div 2 ^ 62 < 2 ^ 12" using assms by (simp add: div_less_iff_less_mult)
  moreover have "random mod 2 ^ 62 < 2 ^ 62" by simp
  ultimately have low: "low < 2 ^ 76" by (simp add: low_def)
  have v: "uuid7_value ms random = (ms * 16 + 7) * 2 ^ 76 + low"
    using uuid7_value_eq(1) [OF assms, of ms] by (simp add: low_def)
  have "uuid7_value ms random div 2 ^ 76 = ms * 16 + 7" using low by (simp add: v)
  then show "uuid7_value ms random div 2 ^ 76 mod 16 = 7" by simp
  define top where "top = random mod 2 ^ 62 div 2 ^ 60"
  have top: "top < 4" by (simp add: top_def div_less_iff_less_mult)
  have "random mod 2 ^ 62 = top * 2 ^ 60 + random mod 2 ^ 62 mod 2 ^ 60" by (simp add: top_def)
  then have "uuid7_value ms random
      = (16 * (ms * 65536 + 7 * 4096 + random div 2 ^ 62) + (8 + top)) * 2 ^ 60 + random mod 2 ^ 62 mod 2 ^ 60"
    using uuid7_value_eq(1) [OF assms, of ms] by simp
  then obtain a where "uuid7_value ms random = (16 * a + (8 + top)) * 2 ^ 60 + random mod 2 ^ 62 mod 2 ^ 60"
    by blast
  then have "uuid7_value ms random div 2 ^ 60 = 16 * a + (8 + top)" by simp
  then have "uuid7_value ms random div 2 ^ 60 mod 16 = 8 + top" using top by simp
  with top show "8 \<le> uuid7_value ms random div 2 ^ 60 mod 16 \<and> uuid7_value ms random div 2 ^ 60 mod 16 < 12"
    by simp
qed

definition is_hex :: "nat \<Rightarrow> bool" where
  "is_hex c \<longleftrightarrow> 48 \<le> c \<and> c \<le> 57 \<or> 97 \<le> c \<and> c \<le> 102"

lemma hex_char_is_hex: "n < 16 \<Longrightarrow> is_hex (hex_char n)"
  by (auto simp: hex_char_def is_hex_def)

lemma hex_digits_facts:
  "length (hex_digits n v) = n" "c \<in> set (hex_digits n v) \<Longrightarrow> is_hex c"
  "i < n \<Longrightarrow> hex_digits n v ! i = hex_char (v div 16 ^ (n - Suc i) mod 16)"
  by (auto simp: hex_digits_def rev_nth intro!: hex_char_is_hex)

lemma uuid_text_facts:
  "length (codes (uuid_text v)) = 36"
  "c \<in> set (codes (uuid_text v)) \<Longrightarrow> is_hex c \<or> c = 45"
  "codes (uuid_text v) ! 14 = hex_char (v div 2 ^ 76 mod 16)"
  "codes (uuid_text v) ! 19 = hex_char (v div 2 ^ 60 mod 16)"
proof -
  let ?h = "hex_digits 32 v"
  have len: "length ?h = 32" by (simp add: hex_digits_facts)
  have t: "codes (uuid_text v) = take 8 ?h @ 45 # take 4 (drop 8 ?h) @ 45 # take 4 (drop 12 ?h) @ 45 # take 4 (drop 16 ?h)
      @ 45 # drop 20 ?h"
    by (simp add: uuid_text_def Let_def)
  show "length (codes (uuid_text v)) = 36" by (simp add: t len)
  show "is_hex c \<or> c = 45" if "c \<in> set (codes (uuid_text v))"
    using that by (auto simp: t dest!: in_set_takeD in_set_dropD intro: hex_digits_facts(2))
  have "codes (uuid_text v) ! 14 = ?h ! 12" "codes (uuid_text v) ! 19 = ?h ! 16"
    by (simp_all add: t nth_append len nth_Cons')
  then show "codes (uuid_text v) ! 14 = hex_char (v div 2 ^ 76 mod 16)"
    "codes (uuid_text v) ! 19 = hex_char (v div 2 ^ 60 mod 16)"
    by (simp_all add: hex_digits_facts(3))
qed

definition valid_effect_id :: "pystr \<Rightarrow> bool" where
  "valid_effect_id i \<longleftrightarrow> (\<exists>b. utf8_encode i = Some b \<and> 1 \<le> length b \<and> length b \<le> 128
     \<and> (\<forall>x \<in> set b. 32 \<le> x \<and> x \<noteq> 127)) \<and> hd (codes i) \<noteq> 32 \<and> last (codes i) \<noteq> 32"

lemma take1_eq: "xs \<noteq> [] \<Longrightarrow> take (Suc 0) xs = [c] \<longleftrightarrow> hd xs = c"
  by (cases xs) auto

lemma validate_effect_id_Inr [res_iff]: "validate_effect_id i = Inr u \<longleftrightarrow> valid_effect_id i"
proof (cases "utf8_encode i")
  case (Some b)
  show ?thesis
  proof (cases "codes i")
    case Nil
    with Some have "b = []" by (simp add: utf8_encode_def)
    with Some show ?thesis by (simp add: validate_effect_id_def valid_effect_id_def)
  next
    case (Cons c cs)
    then have ne: "codes i \<noteq> []" "rev (codes i) \<noteq> []" by simp_all
    have "\<not> list_ex (\<lambda>x. x < 32 \<or> x = 127) b \<longleftrightarrow> (\<forall>x \<in> set b. 32 \<le> x \<and> x \<noteq> 127)"
      by (auto simp: list_ex_iff not_less)
    then show ?thesis
      using Some by (simp add: validate_effect_id_def valid_effect_id_def take1_eq ne hd_rev) blast
  qed
qed (simp add: validate_effect_id_def valid_effect_id_def)

lemma uuid7_valid: "uuid7 ms random = Inr i \<Longrightarrow> valid_effect_id i"
proof -
  assume "uuid7 ms random = Inr i"
  then obtain v where i: "i = uuid_text v" by (auto simp: uuid7_def Let_def split: if_splits)
  have chars: "32 < c \<and> c < 127" if "c \<in> set (codes i)" for c
    using uuid_text_facts(2) [of c v] that by (auto simp: i is_hex_def)
  then have enc: "utf8_encode i = Some (map word_of_nat (codes i))"
    using utf8_encode_ascii [of "codes i"] by fastforce
  have byte: "(32 :: byte) \<le> word_of_nat c \<and> (word_of_nat c :: byte) \<noteq> 127" if "32 < c \<and> c < 127" for c
    using that by (simp add: word_le_nat_alt word_unat_eq_iff unsigned_of_nat take_bit_nat_eq_self)
  have "codes i \<noteq> []" using uuid_text_facts(1) [of v] by (auto simp: i)
  then have "hd (codes i) \<noteq> 32" "last (codes i) \<noteq> 32"
    using chars [of "hd (codes i)"] chars [of "last (codes i)"] by auto
  with enc chars byte uuid_text_facts(1) [of v] show ?thesis
    by (auto simp: valid_effect_id_def i)
qed

end
