(* ===== verification/Ds_Operations.thy ===== *)
theory Ds_Operations
  imports Datasource
begin

text \<open>
  The other methods of \<open>datasource.py\<close>: declaring and listing source operations
  (\<open>_operation_fields\<close>, \<open>_operation\<close>), and the connection half (\<open>add_github_source\<close>,
  \<open>list_sources\<close>, \<open>sync\<close>). The two field maps of an operation are inverse to each other
  (\<open>operation_of_Inr\<close>).
\<close>

section \<open>Declarations\<close>

definition effect_name :: "effect \<Rightarrow> pystr" where
  "effect_name e = (case e of READ_ONLY \<Rightarrow> lit ''EFFECT_READ_ONLY'' | MUTATION \<Rightarrow> lit ''EFFECT_MUTATION'')"

definition operation_fields :: "operation \<Rightarrow> ds_exn + dict" where
  "operation_fields op =
     (case op_effect op of
        None \<Rightarrow> Inl (InputError (lit ''invalid operation effect'') (Str []))
      | Some e \<Rightarrow>
          (case op_input op of
             None \<Rightarrow> Inl (InputError (lit ''input schema must be a JSON object'') (Str []))
           | Some input \<Rightarrow>
               (case op_output op of
                  None \<Rightarrow> Inl (InputError (lit ''output schema must be a JSON object'') (Str []))
                | Some output \<Rightarrow> Inr
                    [(lit ''name'', JStr (op_name op)), (lit ''description'', JStr (op_description op)),
                     (lit ''method'', JStr (op_method op)), (lit ''path'', JStr (op_path op)),
                     (lit ''query'', JArr (map JStr (op_query op))), (lit ''input_schema'', JObj input),
                     (lit ''output_schema'', JObj output), (lit ''effect'', JStr (effect_name e)),
                     (lit ''max_output_bytes'', JInt (op_max_output_bytes op))])))"

fun all_operation_fields :: "operation list \<Rightarrow> ds_exn + json list" where
  "all_operation_fields [] = Inr []"
| "all_operation_fields (op # ops) =
     bindR (operation_fields op) (\<lambda>d. bindR (all_operation_fields ops) (\<lambda>ds. Inr (JObj d # ds)))"

definition declare_operations :: "'r host \<Rightarrow> pystr \<Rightarrow> pystr \<Rightarrow> operation list \<Rightarrow> gw_call list \<times> (raised + unit)" where
  "declare_operations host org_id source_id ops =
     (case all_operation_fields ops of
        Inl e \<Rightarrow> ([], Inl (raising e))
      | Inr values \<Rightarrow>
          (case rpc host ''DeclareSourceOperations''
              [(lit ''org_id'', JStr org_id), (lit ''source_id'', JStr source_id), (lit ''operations'', JArr values)]
              None False None None of
             (calls, Inl err) \<Rightarrow> (calls, Inl err) | (calls, Inr _) \<Rightarrow> (calls, Inr ())))"

text \<open>Members of a declared operation, typed by the message: strings, a list of strings, an
  object, an unsigned integer.\<close>

definition member_str :: "dict \<Rightarrow> string \<Rightarrow> pystr" where
  "member_str d key = (case jget d key (JStr (lit [])) of JStr s \<Rightarrow> s | _ \<Rightarrow> Str [])"

definition member_strs :: "dict \<Rightarrow> string \<Rightarrow> pystr list" where
  "member_strs d key = (case jget d key (JArr []) of JArr vs \<Rightarrow> (case all_strings vs of Some ss \<Rightarrow> ss | None \<Rightarrow> []) | _ \<Rightarrow> [])"

definition member_obj :: "dict \<Rightarrow> string \<Rightarrow> dict" where
  "member_obj d key = (case jget d key (JObj []) of JObj o1 \<Rightarrow> o1 | _ \<Rightarrow> [])"

definition member_int :: "dict \<Rightarrow> string \<Rightarrow> int" where
  "member_int d key = (case jget d key (JInt 0) of JInt i \<Rightarrow> i | _ \<Rightarrow> 0)"

definition operation_of :: "dict \<Rightarrow> ds_exn + operation" where
  "operation_of d =
     (if jget d ''effect'' (JStr (lit ''EFFECT_UNSPECIFIED'')) = JStr (lit ''EFFECT_UNSPECIFIED'')
      then Inl (InputError (lit ''host returned an unspecified effect'') (Str []))
      else
        let name = jget d ''effect'' (JStr (lit []));
            effect = (if name = JStr (lit ''EFFECT_READ_ONLY'') then Some READ_ONLY
                      else if name = JStr (lit ''EFFECT_MUTATION'') then Some MUTATION else None)
        in if effect = None
           then Inl (DatasourceError (lit ''host returned an unsupported operation effect'') None)
           else Inr \<lparr>op_name = member_str d ''name'', op_method = member_str d ''method'',
                  op_path = member_str d ''path'', op_effect = effect, op_query = member_strs d ''query'',
                  op_input = Some (member_obj d ''input_schema''), op_output = Some (member_obj d ''output_schema''),
                  op_max_output_bytes = member_int d ''max_output_bytes'',
                  op_description = member_str d ''description'', op_digest = member_str d ''digest''\<rparr>)"

fun operations_of :: "json list \<Rightarrow> ds_exn + operation list" where
  "operations_of [] = Inr []"
| "operations_of (JObj d # vs) =
     bindR (operation_of d) (\<lambda>op. bindR (operations_of vs) (\<lambda>ops. Inr (op # ops)))"
| "operations_of (_ # vs) = Inl (Py OtherErr (Str []))"

definition list_operations :: "'r host \<Rightarrow> pystr \<Rightarrow> pystr \<Rightarrow> gw_call list \<times> (raised + operation list)" where
  "list_operations host org_id source_id =
     (case rpc host ''ListSourceOperations'' [(lit ''org_id'', JStr org_id), (lit ''source_id'', JStr source_id)]
         None False None None of
        (calls, Inl err) \<Rightarrow> (calls, Inl err)
      | (calls, Inr response) \<Rightarrow>
          (calls, case jget response ''operations'' (JArr []) of
             JArr vs \<Rightarrow> (case operations_of vs of Inl e \<Rightarrow> Inl (raising e) | Inr ops \<Rightarrow> Inr ops)
           | _ \<Rightarrow> Inl (raising (Py TypeErr (Str [])))))"

section \<open>The connection half\<close>

text \<open>
  These methods build the request message from keyword arguments and return a member of the
  response; \<open>project\<close> is that member. Exceptions of the gateway pass through.
\<close>

definition call_gateway :: "'r host \<Rightarrow> string \<Rightarrow> dict \<Rightarrow> ('r \<Rightarrow> 'a) \<Rightarrow> gw_call list \<times> (raised + 'a)" where
  "call_gateway host method flds project =
     (let call = \<lparr>gw_procedure = DATASOURCE_SERVICE @ method, gw_fields = flds, gw_headers = None, gw_timeout = None\<rparr>
      in ([call], case h_unary host call of Inl err \<Rightarrow> Inl err | Inr response \<Rightarrow> Inr (project response)))"

record github_args =
  gh_org_id :: pystr
  gh_repo :: pystr
  gh_collection :: pystr
  gh_boundary_node_id :: pystr
  gh_access_token :: pystr
  gh_paths :: "pystr list"
  gh_branch :: pystr
  gh_webhook_secret :: pystr

definition add_github_source :: "'r host \<Rightarrow> ('r \<Rightarrow> 's) \<Rightarrow> github_args \<Rightarrow> gw_call list \<times> (raised + 's)" where
  "add_github_source host datasource a =
     (if truthy (gh_collection a) = truthy (gh_boundary_node_id a)
      then ([], Inl (raising (Py ValueErr (lit ''pass exactly one of collection or boundary_node_id''))))
      else
        let boundary = (if truthy (gh_collection a) then (lit ''collection_label'', JStr (gh_collection a))
                        else (lit ''boundary_node_id'', JStr (gh_boundary_node_id a)))
        in call_gateway host ''AddGitHubSource''
             [(lit ''org_id'', JStr (gh_org_id a)), (lit ''repo'', JStr (gh_repo a)),
              (lit ''paths'', JArr (map JStr (gh_paths a))), (lit ''branch'', JStr (gh_branch a)),
              (lit ''access_token'', JStr (gh_access_token a)),
              (lit ''webhook_secret'', JStr (gh_webhook_secret a)), boundary] datasource)"

definition list_sources :: "'r host \<Rightarrow> ('r \<Rightarrow> 's list) \<Rightarrow> pystr \<Rightarrow> gw_call list \<times> (raised + 's list)" where
  "list_sources host datasources org_id = call_gateway host ''ListSources'' [(lit ''org_id'', JStr org_id)] datasources"

definition sync :: "'r host \<Rightarrow> ('r \<Rightarrow> pystr) \<Rightarrow> pystr \<Rightarrow> pystr \<Rightarrow> gw_call list \<times> (raised + pystr)" where
  "sync host job_id org_id source_id =
     call_gateway host ''SyncSource'' [(lit ''org_id'', JStr org_id), (lit ''id'', JStr source_id)] job_id"

section \<open>Entry points\<close>

text \<open>\<open>Client\<close> keeps its gateway; the functions of the module call its methods.\<close>

record 'r ds_client =
  dc_gateway :: "'r host"

definition ds_new :: "'r host \<Rightarrow> 'r ds_client" where
  "ds_new gw = \<lparr>dc_gateway = gw\<rparr>"

definition module_invoke :: "'r host \<Rightarrow> invoke_args \<Rightarrow> invoke_io \<Rightarrow> gw_call list \<times> (raised + op_result)" where
  "module_invoke gw a io = invoke (dc_gateway (ds_new gw)) a io"

definition module_lookup :: "'r host \<Rightarrow> pystr \<Rightarrow> pystr \<Rightarrow> pystr \<Rightarrow> gw_call list \<times> (raised + found)" where
  "module_lookup gw org_id source_id effect_id = lookup (dc_gateway (ds_new gw)) org_id source_id effect_id"

definition module_declare_operations :: "'r host \<Rightarrow> pystr \<Rightarrow> pystr \<Rightarrow> operation list \<Rightarrow> gw_call list \<times> (raised + unit)" where
  "module_declare_operations gw org_id source_id ops = declare_operations (dc_gateway (ds_new gw)) org_id source_id ops"

definition module_list_operations :: "'r host \<Rightarrow> pystr \<Rightarrow> pystr \<Rightarrow> gw_call list \<times> (raised + operation list)" where
  "module_list_operations gw org_id source_id = list_operations (dc_gateway (ds_new gw)) org_id source_id"

lemmas module_functions = module_invoke_def module_lookup_def module_declare_operations_def
  module_list_operations_def ds_new_def

section \<open>One form both ways\<close>

text \<open>
  A listed value is the protobuf JSON form of a \<open>SourceOperation\<close> message: a member that is
  there has the message's type (an effect may also be a number the SDK has no name for), one
  that is absent is at its default. \<open>with_defaults\<close> are its members, the digest aside, under
  the names and in the order \<open>operation_fields\<close> has them.
\<close>

definition typed_operation :: "dict \<Rightarrow> bool" where
  "typed_operation d \<longleftrightarrow>
     (\<forall>key \<in> {''name'', ''description'', ''method'', ''path'', ''digest''}. \<exists>s. jget d key (JStr (lit [])) = JStr s)
     \<and> (\<exists>ss. jget d ''query'' (JArr []) = JArr (map JStr ss))
     \<and> (\<exists>i. jget d ''input_schema'' (JObj []) = JObj i) \<and> (\<exists>i. jget d ''output_schema'' (JObj []) = JObj i)
     \<and> (\<exists>n. jget d ''max_output_bytes'' (JInt 0) = JInt n)"

definition with_defaults :: "dict \<Rightarrow> dict" where
  "with_defaults d =
     [(lit ''name'', jget d ''name'' (JStr (lit []))), (lit ''description'', jget d ''description'' (JStr (lit []))),
      (lit ''method'', jget d ''method'' (JStr (lit []))), (lit ''path'', jget d ''path'' (JStr (lit []))),
      (lit ''query'', jget d ''query'' (JArr [])), (lit ''input_schema'', jget d ''input_schema'' (JObj [])),
      (lit ''output_schema'', jget d ''output_schema'' (JObj [])),
      (lit ''effect'', jget d ''effect'' (JStr (lit ''EFFECT_UNSPECIFIED''))),
      (lit ''max_output_bytes'', jget d ''max_output_bytes'' (JInt 0))]"

text \<open>The repeated field \<open>operations\<close> of a listing: absent when it is empty.\<close>

definition listing :: "dict \<Rightarrow> dict list \<Rightarrow> bool" where
  "listing d ds \<longleftrightarrow> jget d ''operations'' (JArr []) = JArr (map JObj ds) \<and> list_all typed_operation ds"

lemma all_strings_JStr [simp]: "all_strings (map JStr ss) = Some ss"
  by (induction ss) simp_all

lemma map_JStr_inject [simp]: "map JStr xs = map JStr ys \<longleftrightarrow> xs = ys"
  by (simp add: inj_map_eq_map inj_def)

text \<open>Reading a listed value inverts writing an operation.\<close>

lemma operation_of_Inr:
  assumes "typed_operation d"
  shows "operation_of d = Inr op \<longleftrightarrow>
     operation_fields op = Inr (with_defaults d) \<and> jget d ''digest'' (JStr (lit [])) = JStr (op_digest op)"
proof -
  from assms obtain name description meth path digest ss inp outp n where
    "jget d ''name'' (JStr (lit [])) = JStr name" "jget d ''description'' (JStr (lit [])) = JStr description"
    "jget d ''method'' (JStr (lit [])) = JStr meth" "jget d ''path'' (JStr (lit [])) = JStr path"
    "jget d ''digest'' (JStr (lit [])) = JStr digest" "jget d ''query'' (JArr []) = JArr (map JStr ss)"
    "jget d ''input_schema'' (JObj []) = JObj inp" "jget d ''output_schema'' (JObj []) = JObj outp"
    "jget d ''max_output_bytes'' (JInt 0) = JInt n"
    by (auto simp: typed_operation_def)
  note members = this
  have same: "jget d ''effect'' dflt = j \<longleftrightarrow> jget d ''effect'' dflt' = j" if "dflt \<noteq> j" "dflt' \<noteq> j" for dflt dflt' j
    using that by (auto simp: jget_def split: option.splits)
  have effect: "jget d ''effect'' (JStr (lit [])) = JStr (effect_name e)
      \<longleftrightarrow> jget d ''effect'' (JStr (lit ''EFFECT_UNSPECIFIED'')) = JStr (effect_name e)" for e
    by (rule same) (cases e; simp add: effect_name_def lit_def)+
  have names: "lit ''EFFECT_READ_ONLY'' \<noteq> lit ''EFFECT_UNSPECIFIED''" "lit ''EFFECT_MUTATION'' \<noteq> lit ''EFFECT_UNSPECIFIED''"
    "lit ''EFFECT_MUTATION'' \<noteq> lit ''EFFECT_READ_ONLY''"
    by (simp_all add: lit_def)
  obtain n' m' p' e' q' i' o' b' d' g' where op: "op = \<lparr>op_name = n', op_method = m', op_path = p', op_effect = e',
      op_query = q', op_input = i', op_output = o', op_max_output_bytes = b', op_description = d', op_digest = g'\<rparr>"
    by (cases op)
  show ?thesis
    using effect [of READ_ONLY] effect [of MUTATION] names
    by (cases e'; cases i'; cases o')
      (auto simp: op operation_of_def operation_fields_def with_defaults_def members member_str_def member_strs_def
        member_obj_def member_int_def effect_name_def Let_def split: effect.splits if_splits)
qed

lemma operations_of_Inr:
  assumes "list_all typed_operation ds"
  shows "operations_of (map JObj ds) = Inr ops \<longleftrightarrow>
     list_all2 (\<lambda>d op. operation_fields op = Inr (with_defaults d)
       \<and> jget d ''digest'' (JStr (lit [])) = JStr (op_digest op)) ds ops"
  using assms
proof (induction ds arbitrary: ops)
  case (Cons d ds)
  then show ?case
    by (cases ops) (auto simp: bindR_Inr operation_of_Inr)
qed auto

lemma all_operation_fields_Inr:
  "all_operation_fields ops = Inr vals \<longleftrightarrow>
     (\<exists>ds. vals = map JObj ds \<and> list_all2 (\<lambda>op d. operation_fields op = Inr d) ops ds)"
proof (induction ops arbitrary: vals)
  case (Cons op ops)
  show ?case
    by (auto simp: bindR_Inr Cons.IH list_all2_Cons1) (metis list.simps(9))
qed auto

definition list_call :: "pystr \<Rightarrow> pystr \<Rightarrow> gw_call" where
  "list_call org src = \<lparr>gw_procedure = DATASOURCE_SERVICE @ ''ListSourceOperations'',
     gw_fields = [(lit ''org_id'', JStr org), (lit ''source_id'', JStr src)], gw_headers = None, gw_timeout = None\<rparr>"

definition declare_call :: "pystr \<Rightarrow> pystr \<Rightarrow> dict list \<Rightarrow> gw_call" where
  "declare_call org src ds = \<lparr>gw_procedure = DATASOURCE_SERVICE @ ''DeclareSourceOperations'',
     gw_fields = [(lit ''org_id'', JStr org), (lit ''source_id'', JStr src), (lit ''operations'', JArr (map JObj ds))],
     gw_headers = None, gw_timeout = None\<rparr>"

lemma declare_calls:
  "call \<in> set (fst (declare_operations host org src ops)) \<longleftrightarrow>
     (\<exists>sent. list_all2 (\<lambda>op v. operation_fields op = Inr v) ops sent \<and> call = declare_call org src sent
        \<and> h_parse host ''DeclareSourceOperations'' (gw_fields call) = None)"
proof (cases "all_operation_fields ops")
  case (Inl e)
  then have "\<not> list_all2 (\<lambda>op v. operation_fields op = Inr v) ops sent" for sent
    using all_operation_fields_Inr [of ops "map JObj sent"] by auto
  with Inl show ?thesis by (simp add: declare_operations_def)
next
  case (Inr vals)
  then obtain ds where ds: "vals = map JObj ds" "list_all2 (\<lambda>op v. operation_fields op = Inr v) ops ds"
    unfolding all_operation_fields_Inr by blast
  have only: "sent = ds" if "list_all2 (\<lambda>op v. operation_fields op = Inr v) ops sent" for sent
    using that ds(2) by (induction ops arbitrary: sent ds) (auto simp: list_all2_Cons1)
  have "fst (declare_operations host org src ops)
      = (if h_parse host ''DeclareSourceOperations'' (gw_fields (declare_call org src ds)) = None then [declare_call org src ds] else [])"
    using Inr ds(1) by (simp add: declare_operations_def rpc_def declare_call_def Let_def split: option.split sum.split)
  then have "call \<in> set (fst (declare_operations host org src ops)) \<longleftrightarrow> call = declare_call org src ds
      \<and> h_parse host ''DeclareSourceOperations'' (gw_fields call) = None" by auto
  with ds(2) only show ?thesis by blast
qed

text \<open>C39: declarations have one form both ways. \<open>declare_operations\<close> makes a call exactly when
  every operation has an effect and two object schemas and the request parses, and sends the
  members of each operation, in order. \<open>list_operations\<close> of a well-typed listing returns
  operations exactly when each listed value, with absent members at their default, has the
  very members that declaring its operation would send, and the digest; an operation whose
  effect is unspecified or unknown makes it fail.\<close>

theorem declarations_one_form:
  assumes "h_unary host (list_call org src) = Inr response" and "h_to_dict host response = Inr d" and "listing d ds"
    and "h_parse host ''ListSourceOperations'' (gw_fields (list_call org src)) = None"
  shows "(call \<in> set (fst (declare_operations host org src ops)) \<longleftrightarrow>
       (\<exists>sent. list_all2 (\<lambda>op v. operation_fields op = Inr v) ops sent \<and> call = declare_call org src sent
          \<and> h_parse host ''DeclareSourceOperations'' (gw_fields call) = None))
     \<and> (snd (list_operations host org src) = Inr ops \<longleftrightarrow>
       list_all2 (\<lambda>v op. operation_fields op = Inr (with_defaults v)
         \<and> jget v ''digest'' (JStr (lit [])) = JStr (op_digest op)) ds ops)"
proof (rule conjI)
  show "call \<in> set (fst (declare_operations host org src ops)) \<longleftrightarrow>
       (\<exists>sent. list_all2 (\<lambda>op v. operation_fields op = Inr v) ops sent \<and> call = declare_call org src sent
          \<and> h_parse host ''DeclareSourceOperations'' (gw_fields call) = None)"
    by (rule declare_calls)
  have "snd (list_operations host org src) = (case operations_of (map JObj ds) of Inl e \<Rightarrow> Inl (raising e) | Inr ops \<Rightarrow> Inr ops)"
    using assms by (simp add: list_operations_def rpc_def dispatch_def list_call_def listing_def)
  then show "snd (list_operations host org src) = Inr ops \<longleftrightarrow>
       list_all2 (\<lambda>v op. operation_fields op = Inr (with_defaults v)
         \<and> jget v ''digest'' (JStr (lit [])) = JStr (op_digest op)) ds ops"
    using operations_of_Inr [of ds ops] assms(3) by (auto simp: listing_def split: sum.splits)
qed

definition sample_operation :: operation where
  "sample_operation = \<lparr>op_name = lit ''send'', op_method = lit ''POST'', op_path = lit ''/v1/messages'', op_effect = Some MUTATION,
     op_query = [], op_input = Some [], op_output = Some [(lit ''type'', JStr (lit ''object''))], op_max_output_bytes = 4096,
     op_description = Str [], op_digest = lit ''sha256:0''\<rparr>"

text \<open>Its listed form, without the members at their default.\<close>

definition sample_listed :: dict where
  "sample_listed = [(lit ''name'', JStr (lit ''send'')), (lit ''method'', JStr (lit ''POST'')),
     (lit ''path'', JStr (lit ''/v1/messages'')), (lit ''input_schema'', JObj []),
     (lit ''output_schema'', JObj [(lit ''type'', JStr (lit ''object''))]), (lit ''effect'', JStr (lit ''EFFECT_MUTATION'')),
     (lit ''max_output_bytes'', JInt 4096), (lit ''digest'', JStr (lit ''sha256:0''))]"

definition listing_host :: "unit host" where
  "listing_host = \<lparr>h_unary = (\<lambda>_. Inr ()), h_options = False, h_parse = (\<lambda>_ _. None),
     h_to_dict = (\<lambda>_. Inr [(lit ''operations'', JArr [JObj sample_listed])]), h_wire = sample_wire, h_now = 0,
     h_loads = (\<lambda>_. Inl ValueErr), h_parse_time = (\<lambda>_. Inl ValueErr)\<rparr>"

lemma declarations_one_form_witness:
  "snd (list_operations listing_host (lit ''o'') (lit ''s'')) = Inr [sample_operation]
   \<and> (\<exists>v. declare_call (lit ''o'') (lit ''s'') [v] \<in> set (fst (declare_operations listing_host (lit ''o'') (lit ''s'') [sample_operation])))"
proof -
  have members: "jget sample_listed ''name'' j = JStr (lit ''send'')" "jget sample_listed ''method'' j = JStr (lit ''POST'')"
    "jget sample_listed ''path'' j = JStr (lit ''/v1/messages'')" "jget sample_listed ''input_schema'' j = JObj []"
    "jget sample_listed ''output_schema'' j = JObj [(lit ''type'', JStr (lit ''object''))]"
    "jget sample_listed ''effect'' j = JStr (lit ''EFFECT_MUTATION'')" "jget sample_listed ''max_output_bytes'' j = JInt 4096"
    "jget sample_listed ''digest'' j = JStr (lit ''sha256:0'')" "jget sample_listed ''query'' j = j"
    "jget sample_listed ''description'' j = j" for j
    by (simp_all add: jget_def sample_listed_def lit_def)
  have "typed_operation sample_listed"
    by (auto simp: typed_operation_def members lit_def intro: exI [of _ "[]"])
  then have l: "listing [(lit ''operations'', JArr [JObj sample_listed])] [sample_listed]"
    by (simp add: listing_def jget_def)
  have form: "operation_fields sample_operation = Inr (with_defaults sample_listed)"
    by (simp add: operation_fields_def with_defaults_def members sample_operation_def effect_name_def)
       (simp add: lit_def)
  have host: "h_unary listing_host call = Inr ()" "h_to_dict listing_host u = Inr [(lit ''operations'', JArr [JObj sample_listed])]"
    "h_parse listing_host m flds = None" for call u m flds
    by (simp_all add: listing_host_def)
  note forms = declarations_one_form [OF host(1) host(2) l host(3), where ops = "[sample_operation]"]
  have "snd (list_operations listing_host (lit ''o'') (lit ''s'')) = Inr [sample_operation]"
    using forms form members(8) by (simp add: sample_operation_def)
  moreover have "declare_call (lit ''o'') (lit ''s'') [with_defaults sample_listed]
      \<in> set (fst (declare_operations listing_host (lit ''o'') (lit ''s'') [sample_operation]))"
    using forms form host(3) by (simp add: exI [of _ "[with_defaults sample_listed]"])
  ultimately show ?thesis by blast
qed

text \<open>connecting a GitHub source sends exactly one data boundary: with none or both of
  \<open>collection\<close> and \<open>boundary_node_id\<close> it raises and makes no call.\<close>

theorem github_boundary_exact:
  "call \<in> set (fst (add_github_source host project a)) \<longleftrightarrow>
     call = \<lparr>gw_procedure = DATASOURCE_SERVICE @ ''AddGitHubSource'',
       gw_fields = [(lit ''org_id'', JStr (gh_org_id a)), (lit ''repo'', JStr (gh_repo a)),
         (lit ''paths'', JArr (map JStr (gh_paths a))), (lit ''branch'', JStr (gh_branch a)),
         (lit ''access_token'', JStr (gh_access_token a)), (lit ''webhook_secret'', JStr (gh_webhook_secret a)),
         if gh_boundary_node_id a = Str [] then (lit ''collection_label'', JStr (gh_collection a))
         else (lit ''boundary_node_id'', JStr (gh_boundary_node_id a))],
       gw_headers = None, gw_timeout = None\<rparr>
     \<and> (gh_boundary_node_id a = Str []) \<noteq> (gh_collection a = Str [])"
  by (cases "gh_collection a"; cases "gh_boundary_node_id a")
    (auto simp: add_github_source_def call_gateway_def truthy_def Let_def)

end
