(* ===== verification/Ds_Call.thy ===== *)
theory Ds_Call
  imports Ds_Operations
begin

text \<open>
  What the call half of \<open>datasource.py\<close> guarantees: which call an invocation makes, that
  every failure after dispatch keeps the effect identifier (and the one that does not), which
  responses give a result, and what a lookup returns.
\<close>

section \<open>Preparing an invocation\<close>

text \<open>The arguments yield the identifier \<open>i\<close>, the input text \<open>t\<close> and the timeout.\<close>

definition invoke_ready :: "invoke_args \<Rightarrow> invoke_io \<Rightarrow> pystr \<Rightarrow> pystr \<Rightarrow> int option \<Rightarrow> bool" where
  "invoke_ready a io i t timeout \<longleftrightarrow>
     chosen_effect_id a io = Inr i \<and> valid_effect_id i
     \<and> (\<exists>d. iv_input a = Mapping d \<and> nested (io_limit io) (JObj d) \<and> dumps (JObj d) = Some (codes t))
     \<and> (case iv_deadline a of None \<Rightarrow> timeout = None
        | Some NotFinite \<Rightarrow> False
        | Some (At d) \<Rightarrow> io_now io < d \<and> timeout = Some (d - io_now io))"

lemma input_text_Inr [res_iff]:
  "input_text limit given = Inr t
     \<longleftrightarrow> (\<exists>d. given = Mapping d \<and> nested limit (JObj d) \<and> dumps (JObj d) = Some (codes t))"
proof (cases given)
  case (Mapping d)
  then show ?thesis
    using json_dumps_Inr [of limit "JObj d" "codes t"]
    by (cases t; cases "json_dumps limit (JObj d)") (auto simp: input_text_def simp del: dumps.simps nested.simps)
qed (simp add: input_text_def)

lemma call_timeout_Inr [res_iff]:
  "call_timeout deadline now = Inr timeout \<longleftrightarrow>
     (case deadline of None \<Rightarrow> timeout = None | Some NotFinite \<Rightarrow> False
      | Some (At d) \<Rightarrow> now < d \<and> timeout = Some (d - now))"
  by (auto simp: call_timeout_def split: option.splits deadline.splits)

lemma invoke_prepare_Inr: "invoke_prepare a io = Inr (i, t, timeout) \<longleftrightarrow> invoke_ready a io i t timeout"
  by (cases "chosen_effect_id a io") (auto simp: invoke_prepare_def invoke_ready_def res_iff)

text \<open>The call of an invocation.\<close>

definition invocation :: "invoke_args \<Rightarrow> pystr \<Rightarrow> pystr \<Rightarrow> int option \<Rightarrow> gw_call" where
  "invocation a i t timeout =
     \<lparr>gw_procedure = DATASOURCE_SERVICE @ ''InvokeSourceOperation'', gw_fields = invoke_fields a t i,
      gw_headers = Some [(''x-codefly-effect-id'', i)], gw_timeout = timeout\<rparr>"

lemma rpc_calls:
  "rpc host method flds eid lk headers timeout =
     (if h_parse host method flds = None \<and> ((headers = None \<and> timeout = None) \<or> h_options host)
      then let call = \<lparr>gw_procedure = DATASOURCE_SERVICE @ method, gw_fields = flds, gw_headers = headers, gw_timeout = timeout\<rparr>
           in ([call], dispatch host method call eid lk)
      else ([], snd (rpc host method flds eid lk headers timeout)))"
  by (auto simp: rpc_def Let_def split: option.splits)

lemma invoke_cases:
  obtains (unready) e where "invoke host a io = ([], Inl (raising e))" "\<And>i t timeout. \<not> invoke_ready a io i t timeout"
  | (refused) i t timeout err where "invoke_ready a io i t timeout" "invoke host a io = ([], Inl err)"
      "\<not> (h_parse host ''InvokeSourceOperation'' (invoke_fields a t i) = None \<and> h_options host)"
  | (sent) i t timeout where "invoke_ready a io i t timeout"
      "h_parse host ''InvokeSourceOperation'' (invoke_fields a t i) = None" "h_options host"
      "invoke host a io = ([invocation a i t timeout],
         bindR (dispatch host ''InvokeSourceOperation'' (invocation a i t timeout) (Some i) False)
           (\<lambda>response. operation_result host response i))"
proof (cases "invoke_prepare a io")
  case (Inl e)
  then show thesis
    using invoke_prepare_Inr [of a io] by (intro unready [of e]) (auto simp: invoke_def)
next
  case (Inr r)
  obtain i t timeout where r: "r = (i, t, timeout)" by (cases r)
  with Inr have ready: "invoke_ready a io i t timeout" by (simp add: invoke_prepare_Inr)
  let ?p = "h_parse host ''InvokeSourceOperation'' (invoke_fields a t i)"
  show thesis
  proof (cases "?p = None \<and> h_options host")
    case True
    then have "invoke host a io = ([invocation a i t timeout],
         bindR (dispatch host ''InvokeSourceOperation'' (invocation a i t timeout) (Some i) False)
           (\<lambda>response. operation_result host response i))"
      using Inr r by (simp add: invoke_def rpc_def invocation_def Let_def bindR_def split: sum.split)
    with ready True show thesis by (intro sent) auto
  next
    case False
    then have "\<exists>err. invoke host a io = ([], Inl err)"
      using Inr r by (auto simp: invoke_def rpc_def split: option.split)
    with ready False show thesis by (auto intro: refused)
  qed
qed

lemma ready_unique:
  "invoke_ready a io i t timeout \<Longrightarrow> invoke_ready a io i' t' timeout' \<Longrightarrow> i' = i \<and> t' = t \<and> timeout' = timeout"
  unfolding invoke_prepare_Inr [symmetric] by simp

section \<open>What an invocation keeps\<close>

text \<open>
  \<open>reads_outputs\<close>: reading the output texts of a response raises only what the code catches.
  \<open>host_contract\<close>: the gateway's own exceptions carry no effect identifier, the reply is a
  message in its protobuf JSON form, and a timestamp in it is read or refused with
  \<open>ValueError\<close> or another of the exceptions the code catches.
\<close>

definition reads_outputs :: "'r host \<Rightarrow> dict \<Rightarrow> bool" where
  "reads_outputs host d \<longleftrightarrow>
     raises_only evidence_caught (json_object (h_loads host) (jget d ''output_json'' (JStr (lit []))))
     \<and> (case map_of d (lit ''receipt'') of
          Some (JObj v) \<Rightarrow> raises_only evidence_caught (json_object (h_loads host) (jget v ''output_json'' (JStr (lit []))))
        | _ \<Rightarrow> True)"

definition plain_error :: "raised \<Rightarrow> bool" where
  "plain_error err \<longleftrightarrow> ra_effect_id err = None \<and> (case ra_exn err of HttpError _ \<Rightarrow> True | Py _ _ \<Rightarrow> True | _ \<Rightarrow> False)"

definition host_contract :: "'r host \<Rightarrow> bool" where
  "host_contract host \<longleftrightarrow>
     (\<forall>call err. h_unary host call = Inl err \<longrightarrow> plain_error err)
     \<and> (\<forall>response err. h_to_dict host response = Inl err \<longrightarrow> plain_error err)
     \<and> (\<forall>response d. h_to_dict host response = Inr d \<longrightarrow> (case map_of d (lit ''receipt'') of Some (JObj _) \<Rightarrow> True | None \<Rightarrow> True | _ \<Rightarrow> False))
     \<and> (\<forall>t. raises_only evidence_caught (h_parse_time host t))"

lemma contractD:
  "host_contract host \<Longrightarrow> h_unary host call = Inl err \<Longrightarrow> plain_error err"
  "host_contract host \<Longrightarrow> h_to_dict host response = Inl err \<Longrightarrow> plain_error err"
  by (simp_all add: host_contract_def)

lemma plain_not_found: "plain_error err \<Longrightarrow> ra_exn err \<noteq> EffectNotFound m j"
  by (auto simp: plain_error_def)

text \<open>\<open>json.loads\<close> of a text, with the constants refused, raises these only.\<close>

definition loads_raises :: "'r host \<Rightarrow> bool" where
  "loads_raises host \<longleftrightarrow> (\<forall>t. raises_only (\<lambda>e. e = ValueErr \<or> e = RecursionErr) (h_loads host t))"

text \<open>
  The reply to \<open>call\<close> holds a committed receipt for the effect \<open>i\<close>, and an output text that is
  read of it (the receipt's own copy first) is nested past the interpreter's recursion limit.
\<close>

definition deep_output :: "'r host \<Rightarrow> gw_call \<Rightarrow> pystr \<Rightarrow> bool" where
  "deep_output host call i \<longleftrightarrow>
     (case bindR (h_unary host call) (h_to_dict host) of
        Inl _ \<Rightarrow> False
      | Inr d \<Rightarrow>
          (case read_receipt (h_parse_time host) d i of
             Inl _ \<Rightarrow> False
           | Inr (v, r) \<Rightarrow> rc_status r = Committed
               \<and> (case json_object (h_loads host) (jget v ''output_json'' (JStr (lit []))) of
                    Inl e \<Rightarrow> e = RecursionErr
                  | Inr _ \<Rightarrow> json_object (h_loads host) (jget d ''output_json'' (JStr (lit []))) = Inl RecursionErr)))"

text \<open>An exception that carries the identifier \<open>i\<close>, with a receipt for it.\<close>

definition carries :: "pystr \<Rightarrow> raised \<Rightarrow> bool" where
  "carries i err \<longleftrightarrow> ra_effect_id err = Some i \<and> (\<exists>r. ra_receipt err = Some r \<and> rc_effect_id r = i)"

lemma carries_raising: "carries i (raising e) \<longleftrightarrow> own_effect_id e = Some i"
  by (auto simp: carries_def raising_def own_effect_id_def)

text \<open>No identifier yet, or the call's.\<close>

definition own_or_none :: "pystr \<Rightarrow> raised \<Rightarrow> bool" where
  "own_or_none i err \<longleftrightarrow> ra_effect_id err = None \<or> carries i err"

lemma own_raising: "own_effect_id e = None \<or> own_effect_id e = Some i \<Longrightarrow> own_or_none i (raising e)"
  unfolding own_or_none_def carries_raising by (auto simp: raising_def)

lemma same_attributes: "own_or_none i (err\<lparr>ra_exn := e\<rparr>) \<longleftrightarrow> own_or_none i err"
  by (simp add: own_or_none_def carries_def)

lemma http_failure_own:
  assumes "own_or_none i err"
  shows "own_or_none i (http_failure host method (Some i) lk err he)"
proof (cases "map_error (h_wire host) (h_now host) he (Some i) lk")
  case (Inl e)
  then show ?thesis by (simp add: http_failure_def own_raising own_effect_id_def)
next
  case (Inr mapped)
  then show ?thesis
    using assms mapped_own [of "h_wire host" "h_now host" he "Some i" lk]
    by (cases mapped) (auto simp: http_failure_def intro!: own_raising)
qed

lemma gateway_failure_own:
  "own_or_none i err \<Longrightarrow> own_or_none i (gateway_failure host method (Some i) lk err)"
  by (cases "ra_exn err") (simp_all add: gateway_failure_def http_failure_own own_raising same_attributes)

lemma carries_retain:
  "own_or_none i err \<Longrightarrow> carries i (retain (Some i) False err)"
  by (auto simp: own_or_none_def carries_def retain_def bare_receipt_def)

lemma plain_own: "plain_error err \<Longrightarrow> own_or_none i err"
  by (simp add: plain_error_def own_or_none_def)

lemma dispatch_carries:
  assumes "host_contract host" and "dispatch host method call (Some i) False = Inl err"
  shows "carries i err"
proof (cases "h_unary host call")
  case (Inl e)
  with assms(1) have "own_or_none i e" by (auto simp: host_contract_def intro: plain_own)
  with Inl assms(2) show ?thesis
    by (auto simp: dispatch_def intro!: carries_retain gateway_failure_own)
next
  case (Inr response)
  with assms(2) obtain e where e: "h_to_dict host response = Inl e" "err = retain (Some i) False e"
    by (auto simp: dispatch_def split: sum.splits)
  with assms(1) have "own_or_none i e" by (auto simp: host_contract_def intro: plain_own)
  with e show ?thesis by (simp add: carries_retain)
qed

lemma receipt_of_caught:
  "(\<And>t. raises_only evidence_caught (parse_time t)) \<Longrightarrow> raises_only evidence_caught (receipt_of parse_time v)"
  unfolding receipt_of_def
  by (intro raises_bindR) (auto simp: evidence_caught_def Let_def split: json.split option.split intro!: raises_bindR)

lemma json_object_caught:
  "(\<And>t. raises_only evidence_caught (loads t)) \<Longrightarrow> raises_only evidence_caught (json_object loads v)"
  by (auto simp: json_object_def evidence_caught_def split: json.split intro!: raises_bindR)

lemma read_receipt_caught:
  assumes "\<And>t. raises_only evidence_caught (parse_time t)"
    and "case map_of d (lit ''receipt'') of Some (JObj _) \<Rightarrow> True | None \<Rightarrow> True | _ \<Rightarrow> False"
  shows "raises_only evidence_caught (read_receipt parse_time d i)"
  using assms(2) receipt_of_caught [OF assms(1)]
  by (auto simp: read_receipt_def evidence_caught_def split: option.splits json.splits intro!: raises_bindR)

lemma receipt_of_status: "returns_only (\<lambda>r. rc_status r \<noteq> NotAttempted) (receipt_of parse_time v)"
  unfolding receipt_of_def
  by (intro returns_bindR) (auto split: json.split option.split intro!: returns_bindR)

lemma read_receipt_Inr:
  "read_receipt parse_time d i = Inr (v, r) \<longleftrightarrow>
     map_of d (lit ''receipt'') = Some (JObj v) \<and> receipt_of parse_time v = Inr r \<and> rc_effect_id r = i"
  by (auto simp: read_receipt_def bindR_Inr split: option.splits json.splits if_splits)

text \<open>A response that gives no result: the outcome is open, or the receipt is committed and
  reading an output raised \<open>e\<close>.\<close>

lemma operation_result_Inl:
  assumes "operation_result host d i = Inl err" and "\<And>t. raises_only evidence_caught (h_parse_time host t)"
    and "case map_of d (lit ''receipt'') of Some (JObj _) \<Rightarrow> True | None \<Rightarrow> True | _ \<Rightarrow> False"
  obtains (kept) "carries i err"
  | (receipt_copy) v r e where "read_receipt (h_parse_time host) d i = Inr (v, r)" "rc_status r = Committed"
      "json_object (h_loads host) (jget v ''output_json'' (JStr (lit []))) = Inl e" "\<not> evidence_caught e"
      "err = raising (Py e (Str []))"
  | (response_copy) v r saved e where "read_receipt (h_parse_time host) d i = Inr (v, r)" "rc_status r = Committed"
      "json_object (h_loads host) (jget v ''output_json'' (JStr (lit []))) = Inr saved"
      "json_object (h_loads host) (jget d ''output_json'' (JStr (lit []))) = Inl e" "\<not> evidence_caught e"
      "err = raising (Py e (Str []))"
proof (cases "read_receipt (h_parse_time host) d i")
  case (Inl e)
  have "raises_only evidence_caught (read_receipt (h_parse_time host) d i)"
    by (rule read_receipt_caught) (use assms(2,3) in simp_all)
  with Inl have "evidence_caught e" by auto
  with Inl assms(1) have "carries i err" by (simp add: operation_result_def) (auto simp: carries_raising)
  then show ?thesis by (rule kept)
next
  case (Inr p)
  obtain v r where p: "p = (v, r)" by (cases p)
  with Inr have r: "rc_effect_id r = i" "rc_status r \<noteq> NotAttempted"
    using receipt_of_status [of "h_parse_time host" v] by (auto simp: read_receipt_Inr dest: returns_onlyD)
  show ?thesis
  proof (cases "rc_status r = Unknown")
    case True
    with Inr p r assms(1) have "carries i err" by (auto simp: operation_result_def carries_raising)
    then show ?thesis by (rule kept)
  next
    case False
    with r have committed: "rc_status r = Committed" by (cases "rc_status r") auto
    show ?thesis
    proof (cases "json_object (h_loads host) (jget v ''output_json'' (JStr (lit [])))")
      case (Inl e)
      with Inr p r committed assms(1) show ?thesis
        by (cases "evidence_caught e")
          (auto simp: operation_result_def carries_raising Let_def intro: kept receipt_copy)
    next
      case saved: (Inr saved)
      show ?thesis
      proof (cases "json_object (h_loads host) (jget d ''output_json'' (JStr (lit [])))")
        case (Inl e)
        with saved Inr p r committed assms(1) show ?thesis
          by (cases "evidence_caught e")
            (auto simp: operation_result_def carries_raising Let_def intro: kept response_copy)
      qed (use saved Inr p committed assms(1) in \<open>simp add: operation_result_def Let_def\<close>)
    qed
  qed
qed

lemma operation_result_caught:
  assumes "host_contract host" and "h_to_dict host response = Inr d" and "operation_result host d i = Inl err"
    and "reads_outputs host d"
  shows "carries i err"
proof -
  have "\<And>t. raises_only evidence_caught (h_parse_time host t)"
    and "case map_of d (lit ''receipt'') of Some (JObj _) \<Rightarrow> True | None \<Rightarrow> True | _ \<Rightarrow> False"
    using assms(1,2) by (simp_all add: host_contract_def)
  from assms(3) this show ?thesis
    by (cases rule: operation_result_Inl)
      (use assms(4) in \<open>auto simp: reads_outputs_def read_receipt_Inr dest: raises_onlyD\<close>)
qed

lemma deep_result:
  assumes "host_contract host" and "loads_raises host"
    and "h_unary host call = Inr response" and "h_to_dict host response = Inr d" and "operation_result host d i = Inl err"
  shows "if deep_output host call i then err = raising (Py RecursionErr (Str [])) else carries i err"
proof -
  have deep: "e = RecursionErr" if "json_object (h_loads host) j = Inl e" "\<not> evidence_caught e" for j e
    using that assms(2)
    by (auto simp: json_object_def loads_raises_def evidence_caught_def bindR_def
        split: json.splits sum.splits dest: raises_onlyD)
  have rec: "\<not> evidence_caught RecursionErr" by (simp add: evidence_caught_def)
  have "\<And>t. raises_only evidence_caught (h_parse_time host t)"
    and "case map_of d (lit ''receipt'') of Some (JObj _) \<Rightarrow> True | None \<Rightarrow> True | _ \<Rightarrow> False"
    using assms(1,4) by (simp_all add: host_contract_def)
  from assms(5) this show ?thesis
  proof (cases rule: operation_result_Inl)
    case kept
    have "\<not> deep_output host call i"
    proof
      assume "deep_output host call i"
      then have "err = raising (Py RecursionErr (Str []))"
        using assms(3-5) rec
        by (auto simp: deep_output_def operation_result_def Let_def split: sum.splits)
      with kept show False by (simp add: carries_raising own_effect_id_def)
    qed
    with kept show ?thesis by simp
  next
    case (receipt_copy v r e)
    with deep [OF receipt_copy(3,4)] assms(3,4) show ?thesis by (simp add: deep_output_def)
  next
    case (response_copy v r saved e)
    with deep [OF response_copy(4,5)] assms(3,4) show ?thesis by (simp add: deep_output_def)
  qed
qed

lemma invoke_failed:
  assumes "host_contract host" and "invoke host a io = ([call], Inl err)"
  obtains i t timeout where "invoke_ready a io i t timeout" "call = invocation a i t timeout"
    "carries i err \<and> \<not> deep_output host call i
     \<or> (\<exists>response d. h_unary host call = Inr response \<and> h_to_dict host response = Inr d
          \<and> operation_result host d i = Inl err)"
proof (cases rule: invoke_cases [of host a io])
  case (sent i t timeout)
  let ?d = "dispatch host ''InvokeSourceOperation'' (invocation a i t timeout) (Some i) False"
  from trans [OF sent(4) [symmetric] assms(2)] have call: "call = invocation a i t timeout"
    and err: "bindR ?d (\<lambda>response. operation_result host response i) = Inl err" by blast+
  show thesis
  proof (cases ?d)
    case (Inl e)
    then have "\<not> deep_output host call i"
      by (auto simp: dispatch_def deep_output_def call split: sum.splits)
    with Inl err dispatch_carries [OF assms(1) Inl] show thesis
      by (intro that [OF sent(1) call]) simp
  next
    case (Inr d)
    then obtain response where "h_unary host call = Inr response" "h_to_dict host response = Inr d"
      by (auto simp: dispatch_def call split: sum.splits)
    with Inr err show thesis by (intro that [OF sent(1) call]) auto
  qed
qed (use assms in simp_all)

text \<open>Without deep outputs in the reply, and in general.\<close>

definition reply_read :: "'r host \<Rightarrow> gw_call \<Rightarrow> bool" where
  "reply_read host call \<longleftrightarrow>
     (\<forall>response d. h_unary host call = Inr response \<longrightarrow> h_to_dict host response = Inr d \<longrightarrow> reads_outputs host d)"

lemma invoke_carries:
  assumes "host_contract host" and "reply_read host call" and "invoke host a io = ([call], Inl err)"
  shows "\<exists>i t timeout. invoke_ready a io i t timeout \<and> call = invocation a i t timeout \<and> carries i err"
proof -
  from assms(1,3) obtain i t timeout where *: "invoke_ready a io i t timeout" "call = invocation a i t timeout"
    "carries i err \<or> (\<exists>response d. h_unary host call = Inr response \<and> h_to_dict host response = Inr d
          \<and> operation_result host d i = Inl err)"
    by (rule invoke_failed) blast
  with assms(1,2) have "carries i err" by (auto simp: reply_read_def intro: operation_result_caught)
  with * show ?thesis by blast
qed

lemma invoke_deep:
  assumes "host_contract host" and "loads_raises host" and "invoke host a io = ([call], Inl err)"
  shows "\<exists>i t timeout. invoke_ready a io i t timeout \<and> call = invocation a i t timeout
     \<and> (if deep_output host call i then err = raising (Py RecursionErr (Str [])) else carries i err)"
proof -
  from assms(1,3) obtain i t timeout where *: "invoke_ready a io i t timeout" "call = invocation a i t timeout"
    "carries i err \<and> \<not> deep_output host call i
     \<or> (\<exists>response d. h_unary host call = Inr response \<and> h_to_dict host response = Inr d
          \<and> operation_result host d i = Inl err)"
    by (rule invoke_failed)
  with deep_result [OF assms(1,2)] show ?thesis by metis
qed

section \<open>Lookups\<close>

definition lookup_call :: "pystr \<Rightarrow> gw_call" where
  "lookup_call i = \<lparr>gw_procedure = DATASOURCE_SERVICE @ ''LookupInvokeSourceOperation'',
     gw_fields = [(lit ''effect_id'', JStr i)], gw_headers = None, gw_timeout = None\<rparr>"

lemma lookup_attempt_eq:
  "lookup_attempt host i =
     (case h_parse host ''LookupInvokeSourceOperation'' [(lit ''effect_id'', JStr i)] of
        Some m \<Rightarrow> ([], Inl (raising (InputError m (Str []))))
      | None \<Rightarrow> ([lookup_call i], bindR (dispatch host ''LookupInvokeSourceOperation'' (lookup_call i) (Some i) True)
          (\<lambda>response. operation_result host response i)))"
  by (simp add: lookup_attempt_def rpc_def lookup_call_def Let_def bindR_def split: option.split sum.split)

lemma operation_result_Inr:
  "operation_result host response i = Inr res \<longleftrightarrow>
     (\<exists>v r saved. map_of response (lit ''receipt'') = Some (JObj v) \<and> receipt_of (h_parse_time host) v = Inr r
        \<and> rc_effect_id r = i \<and> rc_status r = Committed
        \<and> json_object (h_loads host) (jget v ''output_json'' (JStr (lit []))) = Inr saved
        \<and> json_object (h_loads host) (jget response ''output_json'' (JStr (lit []))) = Inr (res_output res)
        \<and> res_receipt res = r\<lparr>rc_output := Some saved\<rparr>)"
proof (cases "read_receipt (h_parse_time host) response i")
  case (Inl e)
  then have "\<not> (read_receipt (h_parse_time host) response i = Inr p)" for p by simp
  with Inl show ?thesis
    by (auto simp: operation_result_def) (metis old.sum.distinct(1) read_receipt_Inr)
next
  case (Inr p)
  obtain v r where p: "p = (v, r)" by (cases p)
  with Inr have facts: "map_of response (lit ''receipt'') = Some (JObj v)"
    "receipt_of (h_parse_time host) v = Inr r" "rc_effect_id r = i" by (simp_all add: read_receipt_Inr)
  have res: "res = \<lparr>res_output = x, res_receipt = y\<rparr> \<longleftrightarrow> res_output res = x \<and> res_receipt res = y" for x y by auto
  have "rc_status r \<noteq> NotAttempted"
    using receipt_of_status facts(2) by (rule returns_onlyD)
  then show ?thesis
    using Inr p facts by (cases "rc_status r") (auto simp: operation_result_def Let_def res eq_commute [of _ res] split: sum.splits)
qed

lemma committed_output_error:
  assumes "map_of response (lit ''receipt'') = Some (JObj v)" and "receipt_of (h_parse_time host) v = Inr r"
    and "rc_status r = Committed" and "reads_outputs host response"
    and "operation_result host response (rc_effect_id r) = Inl err"
  shows "\<exists>r'. ra_exn err = DatasourceError (lit ''host returned invalid committed operation output'') (Some r')
     \<and> r' = r\<lparr>rc_output := rc_output r'\<rparr> \<and> ra_receipt err = Some r'"
proof -
  have "read_receipt (h_parse_time host) response (rc_effect_id r) = Inr (v, r)"
    using assms(1,2) by (simp add: read_receipt_Inr)
  moreover have caught: "json_object (h_loads host) (jget v ''output_json'' (JStr (lit []))) = Inl e \<Longrightarrow> evidence_caught e"
    "json_object (h_loads host) (jget response ''output_json'' (JStr (lit []))) = Inl e \<Longrightarrow> evidence_caught e" for e
    using assms(1,4) by (auto simp: reads_outputs_def dest: raises_onlyD)
  ultimately show ?thesis
    using assms(3,5)
    by (auto simp: operation_result_def Let_def raising_def dest!: caught split: sum.splits)
qed

lemma lookup_answer:
  "case snd (lookup host org src i) of
     Inr (FoundReceipt r) \<Rightarrow> rc_effect_id r = i \<and> rc_status r = Committed \<and> rc_output r \<noteq> None
   | Inr (FoundOutcome err) \<Rightarrow> is_outcome (ra_exn err)
   | Inl err \<Rightarrow> \<not> is_outcome (ra_exn err)"
proof (cases "validate_effect_id i")
  case (Inl e)
  then have "\<not> is_outcome e"
    by (auto simp: validate_effect_id_def split: option.splits if_splits)
  with Inl show ?thesis by (simp add: lookup_def raising_def)
next
  case (Inr u)
  obtain calls res where a: "lookup_attempt host i = (calls, res)" by (cases "lookup_attempt host i")
  show ?thesis
  proof (cases res)
    case (Inl err)
    with Inr a show ?thesis by (simp add: lookup_def)
  next
    case (Inr found)
    with a obtain response where "operation_result host response i = Inr found"
      by (auto simp: lookup_attempt_eq bindR_Inr split: option.splits)
    with Inr a \<open>validate_effect_id i = Inr u\<close> show ?thesis
      by (auto simp: lookup_def operation_result_Inr)
  qed
qed

lemma lookup_calls:
  "fst (lookup host org src i) =
     (if valid_effect_id i \<and> h_parse host ''LookupInvokeSourceOperation'' [(lit ''effect_id'', JStr i)] = None
      then [lookup_call i] else [])"
proof (cases "validate_effect_id i")
  case (Inl e)
  then have "\<not> valid_effect_id i" using validate_effect_id_Inr [of i "()"] by simp
  with Inl show ?thesis by (simp add: lookup_def)
next
  case (Inr u)
  then have "valid_effect_id i" using validate_effect_id_Inr by blast
  with Inr show ?thesis
    by (simp add: lookup_def lookup_attempt_eq split: option.split sum.split prod.split)
qed

lemma ready_valid: "invoke_ready a io i t timeout \<Longrightarrow> valid_effect_id i"
  by (simp add: invoke_ready_def)

text \<open>A lookup reports \<open>EffectNotFound\<close> only from the host's envelope.\<close>

lemma gateway_failure_not_found:
  assumes "plain_error err"
  shows "ra_exn (gateway_failure host method (Some i) True err) = EffectNotFound m j \<longleftrightarrow>
     (\<exists>he. ra_exn err = HttpError he \<and> map_error (h_wire host) (h_now host) he (Some i) True = Inr (Some (EffectNotFound m j)))"
proof (cases "ra_exn err")
  case (HttpError he)
  then show ?thesis
    by (auto simp: gateway_failure_def http_failure_def raising_def unknown_outcome_def
        split: sum.split option.split)
qed (use assms in \<open>auto simp: gateway_failure_def plain_error_def raising_def unknown_outcome_def\<close>)

lemma operation_result_not_found: "operation_result host response i = Inl err \<Longrightarrow> ra_exn err \<noteq> EffectNotFound m j"
  by (auto simp: operation_result_def raising_def Let_def unknown_outcome_def split: sum.splits if_splits)

lemma lookup_not_found:
  assumes "host_contract host"
  shows "(\<exists>err m. snd (lookup host org src i) = Inr (FoundOutcome err) \<and> ra_exn err = EffectNotFound m j) \<longleftrightarrow>
     j = i \<and> [lookup_call i] = fst (lookup host org src i)
     \<and> (\<exists>err he env. h_unary host (lookup_call i) = Inl err \<and> ra_exn err = HttpError he
          \<and> connect_envelope (h_wire host) he env \<and> env_code env = lit ''not_found'')"
proof -
  let ?p = "h_parse host ''LookupInvokeSourceOperation'' [(lit ''effect_id'', JStr i)]"
  let ?d = "dispatch host ''LookupInvokeSourceOperation'' (lookup_call i) (Some i) True"
  let ?L = "\<exists>err m. snd (lookup host org src i) = Inr (FoundOutcome err) \<and> ra_exn err = EffectNotFound m j"
  have found: "?L \<longleftrightarrow> [lookup_call i] = fst (lookup host org src i) \<and> (\<exists>err m. ?d = Inl err \<and> ra_exn err = EffectNotFound m j)"
  proof (cases "valid_effect_id i \<and> ?p = None")
    case False
    have "\<not> ?L"
    proof (cases "validate_effect_id i")
      case (Inr u)
      then have "valid_effect_id i" using validate_effect_id_Inr by blast
      with False have "?p \<noteq> None" by simp
      with Inr show ?thesis by (auto simp: lookup_def lookup_attempt_eq raising_def)
    qed (simp add: lookup_def)
    with False show ?thesis by (auto simp: lookup_calls)
  next
    case True
    then have "validate_effect_id i = Inr ()" using validate_effect_id_Inr by blast
    with True show ?thesis
      by (cases ?d)
        (auto simp: lookup_calls lookup_def lookup_attempt_eq dest: operation_result_not_found split: sum.splits)
  qed
  let ?g = "gateway_failure host ''LookupInvokeSourceOperation'' (Some i) True"
  have d: "?d = Inl err \<and> ra_exn err = EffectNotFound m j \<longleftrightarrow>
      (\<exists>e. h_unary host (lookup_call i) = Inl e \<and> err = ?g e \<and> ra_exn (?g e) = EffectNotFound m j)" for err m
    using contractD(2) [OF assms, THEN plain_not_found]
    by (auto simp: dispatch_def retain_def split: sum.splits)
  have g: "ra_exn (?g e) = EffectNotFound m j \<longleftrightarrow> (\<exists>he. ra_exn e = HttpError he
      \<and> map_error (h_wire host) (h_now host) he (Some i) True = Inr (Some (EffectNotFound m j)))"
    if "h_unary host (lookup_call i) = Inl e" for e m
    by (rule gateway_failure_not_found [OF contractD(1) [OF assms that]])
  have "(\<exists>err m. ?d = Inl err \<and> ra_exn err = EffectNotFound m j) \<longleftrightarrow>
      (\<exists>m e. h_unary host (lookup_call i) = Inl e \<and> ra_exn (?g e) = EffectNotFound m j)"
    unfolding d by blast
  also have "\<dots> \<longleftrightarrow> (\<exists>e m he. h_unary host (lookup_call i) = Inl e \<and> ra_exn e = HttpError he
      \<and> map_error (h_wire host) (h_now host) he (Some i) True = Inr (Some (EffectNotFound m j)))"
    using g by blast
  finally have "(\<exists>err m. ?d = Inl err \<and> ra_exn err = EffectNotFound m j) \<longleftrightarrow>
      (\<exists>e m he. h_unary host (lookup_call i) = Inl e \<and> ra_exn e = HttpError he
        \<and> map_error (h_wire host) (h_now host) he (Some i) True = Inr (Some (EffectNotFound m j)))" .
  with found show ?thesis by (auto simp: mapped_not_found)
qed

section \<open>Properties of the call half\<close>

text \<open>C20: an invocation makes at most one gateway call, and makes one exactly when its
  arguments are ready: the identifier (the caller's, or a minted one) is valid, the input is
  a mapping that has a JSON text and is nested within the recursion limit, the deadline lies
  ahead, the request parses and the gateway
  takes call options. The call carries the identifier in the header and in the request, and
  the time left until the deadline.\<close>

theorem invoke_calls_exact:
  "length (fst (invoke host a io)) \<le> 1
   \<and> (call \<in> set (fst (invoke host a io)) \<longleftrightarrow>
      (\<exists>i t timeout. invoke_ready a io i t timeout
         \<and> h_parse host ''InvokeSourceOperation'' (invoke_fields a t i) = None \<and> h_options host
         \<and> call = \<lparr>gw_procedure = DATASOURCE_SERVICE @ ''InvokeSourceOperation'', gw_fields = invoke_fields a t i,
              gw_headers = Some [(''x-codefly-effect-id'', i)], gw_timeout = timeout\<rparr>))"
proof (cases rule: invoke_cases [of host a io])
  case (refused i t timeout err)
  then show ?thesis by (auto dest: ready_unique [OF refused(1)])
next
  case (sent i t timeout)
  then show ?thesis by (auto simp: invocation_def dest: ready_unique [OF sent(1)])
qed auto

text \<open>C3: every failure of an invocation after its dispatch keeps the effect identifier the
  request was sent with, together with a receipt for it, with one exception: when the reply
  holds a committed receipt and an output text nested past the interpreter's recursion limit,
  the plain \<open>RecursionError\<close> of \<open>json.loads\<close> leaves \<open>invoke\<close>, and carries neither.\<close>

theorem invoke_retains:
  assumes "host_contract host" and "loads_raises host" and "invoke host a io = ([call], Inl err)"
  shows "\<exists>i. gw_headers call = Some [(''x-codefly-effect-id'', i)]
     \<and> (if deep_output host call i
        then ra_exn err = Py RecursionErr (Str []) \<and> ra_effect_id err = None \<and> ra_receipt err = None
        else ra_effect_id err = Some i \<and> (\<exists>r. ra_receipt err = Some r \<and> rc_effect_id r = i))"
proof -
  from invoke_deep [OF assms] obtain i t timeout where call: "call = invocation a i t timeout"
    and "if deep_output host call i then err = raising (Py RecursionErr (Str [])) else carries i err" by blast
  then show ?thesis
    by (intro exI [of _ i]) (auto simp: carries_def raising_def own_effect_id_def invocation_def split: if_splits)
qed

text \<open>the identifier a failed invocation keeps is one that \<open>lookup\<close> sends: the lookup
  makes exactly one call, for that identifier.\<close>

theorem retained_id_lookup:
  assumes "host_contract host" and "reply_read host call" and "invoke host a io = ([call], Inl err)"
    and "ra_effect_id err = Some i"
    and "h_parse host ''LookupInvokeSourceOperation'' [(lit ''effect_id'', JStr i)] = None"
  shows "fst (lookup host org src i) = [\<lparr>gw_procedure = DATASOURCE_SERVICE @ ''LookupInvokeSourceOperation'',
     gw_fields = [(lit ''effect_id'', JStr i)], gw_headers = None, gw_timeout = None\<rparr>]"
  using invoke_carries [OF assms(1-3)] assms(4,5) ready_valid
  by (auto simp: lookup_calls carries_def lookup_call_def)

text \<open>a response gives a result exactly when it holds a committed receipt for the
  identifier and both outputs are JSON objects; the receipt keeps the host's own copy.\<close>

theorem operation_result_exact:
  "operation_result host response i = Inr res \<longleftrightarrow>
     (\<exists>v r saved. map_of response (lit ''receipt'') = Some (JObj v) \<and> receipt_of (h_parse_time host) v = Inr r
        \<and> rc_effect_id r = i \<and> rc_status r = Committed
        \<and> json_object (h_loads host) (jget v ''output_json'' (JStr (lit []))) = Inr saved
        \<and> json_object (h_loads host) (jget response ''output_json'' (JStr (lit []))) = Inr (res_output res)
        \<and> res_receipt res = r\<lparr>rc_output := Some saved\<rparr>)"
  by (rule operation_result_Inr)

text \<open>once the receipt is committed, bad output never turns it into an unknown outcome:
  the error keeps the committed receipt.\<close>

theorem committed_receipt_kept:
  assumes "map_of response (lit ''receipt'') = Some (JObj v)" and "receipt_of (h_parse_time host) v = Inr r"
    and "rc_status r = Committed" and "reads_outputs host response"
    and "operation_result host response (rc_effect_id r) = Inl err"
  shows "\<exists>r'. ra_exn err = DatasourceError (lit ''host returned invalid committed operation output'') (Some r')
     \<and> r' = r\<lparr>rc_output := rc_output r'\<rparr> \<and> ra_receipt err = Some r'"
  using assms by (rule committed_output_error)

text \<open>C21: a lookup makes at most one call; it returns a receipt only committed, for that
  identifier and with its output, returns the three outcomes as values, and never raises
  one of them.\<close>

theorem lookup_outcomes:
  "(fst (lookup host org src i) = [] \<or> fst (lookup host org src i) = [lookup_call i])
   \<and> (case snd (lookup host org src i) of
        Inr (FoundReceipt r) \<Rightarrow> rc_effect_id r = i \<and> rc_status r = Committed \<and> rc_output r \<noteq> None
      | Inr (FoundOutcome err) \<Rightarrow> is_outcome (ra_exn err)
      | Inl err \<Rightarrow> \<not> is_outcome (ra_exn err))"
  using lookup_answer [where host = host and org = org and src = src and i = i] by (simp add: lookup_calls)

text \<open>C8: a lookup tells the caller the effect was never attempted exactly when the host
  answered the lookup with a Connect error envelope of code \<open>not_found\<close>.\<close>

theorem lookup_not_found_exact:
  assumes "host_contract host"
  shows "(\<exists>err m. snd (lookup host org src i) = Inr (FoundOutcome err) \<and> ra_exn err = EffectNotFound m j) \<longleftrightarrow>
     j = i \<and> fst (lookup host org src i) = [lookup_call i]
     \<and> (\<exists>err he env. h_unary host (lookup_call i) = Inl err \<and> ra_exn err = HttpError he
          \<and> connect_envelope (h_wire host) he env \<and> env_code env = lit ''not_found'')"
  using lookup_not_found [OF assms] by (auto simp: eq_commute)

text \<open>C38: a minted identifier is an RFC 9562 UUID text of version 7 and variant 10, and one
  \<open>invoke\<close> accepts.\<close>

theorem minted_id:
  assumes "random < 2 ^ 74" and "ms < 2 ^ 48"
  shows "\<exists>i. uuid7 ms random = Inr i \<and> valid_effect_id i \<and> length (codes i) = 36 \<and> codes i ! 14 = 55
     \<and> codes i ! 19 \<in> {56, 57, 97, 98}"
proof -
  let ?v = "uuid7_value ms random"
  have u: "uuid7 ms random = Inr (uuid_text ?v)"
    using uuid7_fits [OF assms] by (simp add: uuid7_def Let_def)
  have "?v div 2 ^ 60 mod 16 \<in> {8, 9, 10, 11}" using uuid7_nibbles(2) [OF assms(1), of ms] by auto
  then have "hex_char (?v div 2 ^ 60 mod 16) \<in> {56, 57, 97, 98}" by (auto simp: hex_char_def)
  moreover have "hex_char (?v div 2 ^ 76 mod 16) = 55"
    unfolding uuid7_nibbles(1) [OF assms(1)] by (simp add: hex_char_def)
  ultimately show ?thesis
    using u uuid7_valid [OF u] uuid_text_facts(1,3,4) [of ?v] by auto
qed

section \<open>Instances\<close>

definition sample_host :: "(raised + unit) \<Rightarrow> dict \<Rightarrow> unit host" where
  "sample_host reply d = \<lparr>h_unary = (\<lambda>_. reply), h_options = True, h_parse = (\<lambda>_ _. None), h_to_dict = (\<lambda>_. Inr d),
     h_wire = sample_wire, h_now = 0, h_loads = (\<lambda>t. if t = lit ''{}'' then Inr (JObj []) else Inl ValueErr),
     h_parse_time = (\<lambda>_. Inr 0)\<rparr>"

definition sample_args :: invoke_args where
  "sample_args = \<lparr>iv_org_id = lit ''o'', iv_source_id = lit ''s'', iv_operation = lit ''send'', iv_input = Mapping [],
     iv_effect_id = Some (lit ''e''), iv_deadline = Some (At 7)\<rparr>"

definition sample_io :: invoke_io where
  "sample_io = \<lparr>io_ms = 0, io_random = 0, io_limit = 1000, io_now = 2\<rparr>"

definition timeout_error :: raised where
  "timeout_error = raising (Py TimeoutErr (lit ''timed out''))"

lemma loads_caught_reads:
  "(\<And>t. raises_only evidence_caught (h_loads host t)) \<Longrightarrow> reads_outputs host d"
  by (simp add: reads_outputs_def json_object_caught split: option.split json.split)

lemma sample_reads: "reads_outputs (sample_host reply d) d'"
  by (rule loads_caught_reads) (simp add: sample_host_def evidence_caught_def)

lemma sample_contract: "host_contract (sample_host (Inl timeout_error) [])"
  unfolding host_contract_def
  by (auto simp: sample_host_def plain_error_def timeout_error_def raising_def own_effect_id_def)

lemma sample_raises: "loads_raises (sample_host reply d)"
  by (simp add: loads_raises_def sample_host_def)

lemma sample_reply_read: "reply_read (sample_host reply d) call"
  using sample_reads by (simp add: reply_read_def)

lemma sample_invoked:
  "invoke (sample_host (Inl timeout_error) []) sample_args sample_io
     = ([invocation sample_args (lit ''e'') (lit ''{}'') (Some 5)], Inl (raising (unknown_outcome (lit ''e'') (lit ''timed out''))))"
  by code_simp

text \<open>The reply is lost: the identifier is kept.\<close>

lemma invoke_retains_witness:
  "\<exists>i r. gw_headers (invocation sample_args (lit ''e'') (lit ''{}'') (Some 5)) = Some [(''x-codefly-effect-id'', i)]
     \<and> ra_effect_id (raising (unknown_outcome (lit ''e'') (lit ''timed out''))) = Some i
     \<and> ra_receipt (raising (unknown_outcome (lit ''e'') (lit ''timed out''))) = Some r \<and> rc_effect_id r = i"
proof -
  have "\<not> deep_output (sample_host (Inl timeout_error) []) call i" for call i
    by (simp add: deep_output_def sample_host_def)
  then show ?thesis
    using invoke_retains [OF sample_contract sample_raises sample_invoked] by auto
qed

lemma retained_id_lookup_witness:
  "fst (lookup (sample_host (Inl timeout_error) []) (lit ''o'') (lit ''s'') (lit ''e''))
     = [\<lparr>gw_procedure = DATASOURCE_SERVICE @ ''LookupInvokeSourceOperation'',
         gw_fields = [(lit ''effect_id'', JStr (lit ''e''))], gw_headers = None, gw_timeout = None\<rparr>]"
  by (rule retained_id_lookup [OF sample_contract sample_reply_read sample_invoked]) (simp_all add: raising_def sample_host_def)

definition sample_receipt :: dict where
  "sample_receipt = [(lit ''effect_id'', JStr (lit ''e'')), (lit ''status'', JStr (lit ''committed'')),
     (lit ''output_json'', JStr (lit ''{'')), (lit ''provider_status'', JInt 200)]"

lemma committed_receipt_kept_witness:
  "\<exists>err r'. operation_result (sample_host (Inl timeout_error) []) [(lit ''receipt'', JObj sample_receipt)] (lit ''e'') = Inl err
     \<and> ra_exn err = DatasourceError (lit ''host returned invalid committed operation output'') (Some r')
     \<and> rc_status r' = Committed"
proof -
  define r where "r = \<lparr>rc_effect_id = lit ''e'', rc_status = Committed, rc_committed_at = None,
    rc_provider_status = Some (JInt 200), rc_output = None\<rparr>"
  have failed: "case operation_result (sample_host (Inl timeout_error) []) [(lit ''receipt'', JObj sample_receipt)] (lit ''e'')
      of Inl _ \<Rightarrow> True | Inr _ \<Rightarrow> False" by code_simp
  then obtain err where err:
    "operation_result (sample_host (Inl timeout_error) []) [(lit ''receipt'', JObj sample_receipt)] (lit ''e'') = Inl err"
    by (auto split: sum.splits)
  have receipt: "receipt_of (h_parse_time (sample_host (Inl timeout_error) [])) sample_receipt = Inr r"
    unfolding r_def by code_simp
  have "\<exists>r'. ra_exn err = DatasourceError (lit ''host returned invalid committed operation output'') (Some r')
     \<and> r' = r\<lparr>rc_output := rc_output r'\<rparr> \<and> ra_receipt err = Some r'"
    by (rule committed_receipt_kept [OF _ receipt _ sample_reads]) (use err in \<open>simp_all add: r_def\<close>)
  then obtain r' where "ra_exn err = DatasourceError (lit ''host returned invalid committed operation output'') (Some r')"
    and eq: "r' = r\<lparr>rc_output := rc_output r'\<rparr>" by blast
  moreover from arg_cong [OF eq, of rc_status] have "rc_status r' = Committed" by (simp add: r_def)
  ultimately show ?thesis using err by blast
qed

text \<open>The host answers that it knows no attempt.\<close>

definition absent_host :: "unit host" where
  "absent_host = sample_host (Inl (raising (HttpError (sample_http_error ''identity'')))) []
     \<lparr>h_wire := sample_wire\<lparr>w_json_loads := (\<lambda>_. Inr (JObj [(lit ''code'', JStr (lit ''not_found''))]))\<rparr>\<rparr>"

lemma absent_contract: "host_contract absent_host"
  by (auto simp: host_contract_def absent_host_def sample_host_def plain_error_def raising_def own_effect_id_def)

lemma absent_says:
  "\<exists>err he env. h_unary absent_host call = Inl err \<and> ra_exn err = HttpError he
     \<and> connect_envelope (h_wire absent_host) he env \<and> env_code env = lit ''not_found''"
proof -
  let ?env = "\<lparr>env_code = lit ''not_found'', env_message = Str [], env_details = no_details\<rparr>"
  have "read_payload (h_wire absent_host) (sample_http_error ''identity'')
      = Inr (Some (JObj [(lit ''code'', JStr (lit ''not_found''))]))"
    by (simp add: read_payload_def absent_host_def sample_host_def sample_http_error_def response_encoding_def
        lit_def lower_ascii_def read_preserving_body_def read_stream_def)
  moreover have "read_envelope (h_wire absent_host) 400 (JObj [(lit ''code'', JStr (lit ''not_found''))]) = Some ?env"
    by (simp add: read_envelope_def string_member_def jget_def CONNECT_CODES_def lit_def)
  moreover have "supported_encoding (sample_http_error ''identity'')" "json_media (sample_http_error ''identity'')"
    by code_simp+
  ultimately have "connect_envelope (h_wire absent_host) (sample_http_error ''identity'') ?env"
    by (auto simp: connect_envelope_def sample_http_error_def)
  moreover have "h_unary absent_host call = Inl (raising (HttpError (sample_http_error ''identity'')))"
    by (simp add: absent_host_def sample_host_def)
  ultimately show ?thesis by (auto simp: raising_def)
qed

lemma lookup_not_found_exact_witness:
  "\<exists>err m. snd (lookup absent_host (lit ''o'') (lit ''s'') (lit ''e'')) = Inr (FoundOutcome err)
     \<and> ra_exn err = EffectNotFound m (lit ''e'')"
proof -
  have "fst (lookup absent_host (lit ''o'') (lit ''s'') (lit ''e'')) = [lookup_call (lit ''e'')]" by code_simp
  then show ?thesis
    using lookup_not_found_exact [OF absent_contract, of "lit ''o''" "lit ''s''" "lit ''e''" "lit ''e''"] absent_says
    by simp
qed

lemma minted_id_witness:
  "\<exists>i. uuid7 0 0 = Inr i \<and> valid_effect_id i \<and> length (codes i) = 36 \<and> codes i ! 14 = 55
     \<and> codes i ! 19 \<in> {56, 57, 97, 98}"
  by (rule minted_id) simp_all

text \<open>
  The exception occurs: a saved output nested past the recursion limit raises
  \<open>RecursionError\<close> after the call, with no identifier.
\<close>

lemma deep_output_loses_id:
  "\<exists>call err. invoke (sample_host (Inr ()) [(lit ''receipt'', JObj sample_receipt)]\<lparr>h_loads := (\<lambda>_. Inl RecursionErr)\<rparr>)
     sample_args sample_io = ([call], Inl err) \<and> ra_effect_id err = None"
proof -
  have "invoke (sample_host (Inr ()) [(lit ''receipt'', JObj sample_receipt)]\<lparr>h_loads := (\<lambda>_. Inl RecursionErr)\<rparr>)
     sample_args sample_io = ([invocation sample_args (lit ''e'') (lit ''{}'') (Some 5)], Inl (raising (Py RecursionErr (Str []))))"
    by code_simp
  then show ?thesis by (simp add: raising_def own_effect_id_def)
qed

text \<open>
  An HTTP error whose body breaks off: a lookup raises the exception of the read, where the
  same exception of the gateway itself is an unknown outcome.
\<close>

lemma broken_body_raised:
  "ra_exn (gateway_failure host method (Some i) True (raising (HttpError
       \<lparr>he_str = t, he_code = c, he_headers = None, he_stream = \<lparr>bs_data = d, bs_error = Some IncompleteReadErr\<rparr>\<rparr>)))
     = Py IncompleteReadErr (Str [])"
  "ra_exn (gateway_failure host method (Some i) True (raising (Py IncompleteReadErr t))) = unknown_outcome i t"
  by (simp_all add: gateway_failure_def http_failure_def raising_def map_error_def response_encoding_def read_payload_def
      read_preserving_body_def read_stream_def lower_ascii_def body_caught_def is_os_error_def lost_reply_def)

end
