(* ===== verification/Effect_Ledger.thy ===== *)
theory Effect_Ledger
  imports Ds_Call
begin

text \<open>
  What the effect identifier is for: an invocation whose reply is lost is recovered by looking
  its identifier up. The host's ledger says for each identifier that nothing was attempted,
  that the outcome is open, or which receipt was committed; \<open>answers\<close> is a host that tells
  lookups what its ledger holds. The locale \<open>effect_protocol\<close> is the contract of the call
  half that recovery rests on, interpreted on \<open>invoke\<close> and \<open>lookup\<close>.
\<close>

section \<open>The ledger\<close>

datatype entry = Absent | Unresolved | Done receipt

text \<open>How the host answers a lookup: with a \<open>not_found\<close> envelope; with an unknown receipt or
  an envelope that leaves the outcome open; with the committed receipt.\<close>

definition says_absent :: "'r host \<Rightarrow> pystr \<Rightarrow> bool" where
  "says_absent host i \<longleftrightarrow>
     (\<exists>err he env. h_unary host (lookup_call i) = Inl err \<and> ra_exn err = HttpError he
        \<and> connect_envelope (h_wire host) he env \<and> env_code env = lit ''not_found'')"

definition says_open :: "'r host \<Rightarrow> pystr \<Rightarrow> bool" where
  "says_open host i \<longleftrightarrow>
     (\<exists>response d v r. h_unary host (lookup_call i) = Inr response \<and> h_to_dict host response = Inr d
        \<and> map_of d (lit ''receipt'') = Some (JObj v) \<and> receipt_of (h_parse_time host) v = Inr r
        \<and> rc_effect_id r = i \<and> rc_status r = Unknown)
     \<or> (\<exists>err he env. h_unary host (lookup_call i) = Inl err \<and> ra_exn err = HttpError he
        \<and> connect_envelope (h_wire host) he env \<and> leaves_open True env)"

definition says_done :: "'r host \<Rightarrow> pystr \<Rightarrow> receipt \<Rightarrow> bool" where
  "says_done host i r \<longleftrightarrow>
     (\<exists>response d v bare saved out. h_unary host (lookup_call i) = Inr response \<and> h_to_dict host response = Inr d
        \<and> map_of d (lit ''receipt'') = Some (JObj v) \<and> receipt_of (h_parse_time host) v = Inr bare
        \<and> rc_effect_id bare = i \<and> rc_status bare = Committed
        \<and> json_object (h_loads host) (jget v ''output_json'' (JStr (lit []))) = Inr saved
        \<and> json_object (h_loads host) (jget d ''output_json'' (JStr (lit []))) = Inr out
        \<and> r = bare\<lparr>rc_output := Some saved\<rparr>)"

definition answers :: "'r host \<Rightarrow> (pystr \<Rightarrow> entry) \<Rightarrow> bool" where
  "answers host book \<longleftrightarrow> host_contract host
     \<and> (\<forall>i. valid_effect_id i \<longrightarrow> h_parse host ''LookupInvokeSourceOperation'' [(lit ''effect_id'', JStr i)] = None
          \<and> (case book i of Absent \<Rightarrow> says_absent host i | Unresolved \<Rightarrow> says_open host i | Done r \<Rightarrow> says_done host i r))"

text \<open>What a lookup tells the caller for an entry.\<close>

fun tells :: "entry \<Rightarrow> pystr \<Rightarrow> raised + found \<Rightarrow> bool" where
  "tells Absent i answer \<longleftrightarrow> (\<exists>err m. answer = Inr (FoundOutcome err) \<and> ra_exn err = EffectNotFound m i)"
| "tells Unresolved i answer \<longleftrightarrow> (\<exists>err. answer = Inr (FoundOutcome err) \<and> is_unknown (ra_exn err))"
| "tells (Done r) i answer \<longleftrightarrow> answer = Inr (FoundReceipt r)"

lemma tells_unique: "tells e i answer \<Longrightarrow> tells e' i answer \<Longrightarrow> e = e'"
  by (cases e; cases e') auto

section \<open>The contract\<close>

locale effect_protocol =
  fixes failed :: "'h \<Rightarrow> 'a \<Rightarrow> pystr \<Rightarrow> raised \<Rightarrow> bool"
    and looked :: "'h \<Rightarrow> pystr \<Rightarrow> raised + found"
    and sane :: "'h \<Rightarrow> bool"
    and ledger :: "'h \<Rightarrow> (pystr \<Rightarrow> entry) \<Rightarrow> bool"
  assumes failure_keeps: "sane h \<Longrightarrow> failed h a i err \<Longrightarrow> ra_effect_id err = Some i \<and> valid_effect_id i"
    and lookup_tells: "ledger h book \<Longrightarrow> valid_effect_id i \<Longrightarrow> tells (book i) i (looked h i)"
begin

text \<open>A failed invocation is recovered at any later time, and only one ledger fits the answer.\<close>

lemma recovered:
  assumes "sane h" and "failed h a i err" and "ledger h' book"
  shows "ra_effect_id err = Some i \<and> tells (book i) i (looked h' i)"
  using failure_keeps [OF assms(1,2)] lookup_tells [OF assms(3)] by blast

lemma only_ledger:
  assumes "ledger h book" and "ledger h book'" and "valid_effect_id i"
  shows "book i = book' i"
  using lookup_tells [OF assms(1,3)] lookup_tells [OF assms(2,3)] by (rule tells_unique)

end

section \<open>invoke and lookup\<close>

lemma lookup_answered:
  assumes "valid_effect_id i" and "h_parse host ''LookupInvokeSourceOperation'' [(lit ''effect_id'', JStr i)] = None"
  shows "snd (lookup host org src i) =
     (case bindR (dispatch host ''LookupInvokeSourceOperation'' (lookup_call i) (Some i) True)
         (\<lambda>response. operation_result host response i) of
        Inr res \<Rightarrow> Inr (FoundReceipt (res_receipt res))
      | Inl err \<Rightarrow> if is_outcome (ra_exn err) then Inr (FoundOutcome err) else Inl err)"
proof -
  have "validate_effect_id i = Inr ()" using assms(1) validate_effect_id_Inr by blast
  with assms(2) show ?thesis by (simp add: lookup_def lookup_attempt_eq split: sum.split)
qed

lemma dispatch_response:
  "h_unary host call = Inr response \<Longrightarrow> h_to_dict host response = Inr d \<Longrightarrow> dispatch host method call eid lk = Inr d"
  by (simp add: dispatch_def)

lemma done_told:
  assumes "valid_effect_id i" and "h_parse host ''LookupInvokeSourceOperation'' [(lit ''effect_id'', JStr i)] = None"
    and "says_done host i r"
  shows "snd (lookup host org src i) = Inr (FoundReceipt r)"
proof -
  from assms(3) obtain response d v bare saved out where d: "h_unary host (lookup_call i) = Inr response"
    "h_to_dict host response = Inr d" and ok: "map_of d (lit ''receipt'') = Some (JObj v)"
    "receipt_of (h_parse_time host) v = Inr bare" "rc_effect_id bare = i" "rc_status bare = Committed"
    "json_object (h_loads host) (jget v ''output_json'' (JStr (lit []))) = Inr saved"
    "json_object (h_loads host) (jget d ''output_json'' (JStr (lit []))) = Inr out"
    and r: "r = bare\<lparr>rc_output := Some saved\<rparr>" unfolding says_done_def by blast
  have "operation_result host d i = Inr \<lparr>res_output = out, res_receipt = r\<rparr>"
    unfolding operation_result_Inr using ok r by auto
  then show ?thesis
    unfolding lookup_answered [OF assms(1,2)] dispatch_response [OF d] by simp
qed

lemma unknown_is_outcome: "is_unknown e \<Longrightarrow> is_outcome e"
  by (cases e) simp_all

lemma open_told:
  assumes "valid_effect_id i" and "h_parse host ''LookupInvokeSourceOperation'' [(lit ''effect_id'', JStr i)] = None"
    and "says_open host i"
  shows "\<exists>err. snd (lookup host org src i) = Inr (FoundOutcome err) \<and> is_unknown (ra_exn err)"
  using assms(3) unfolding says_open_def
proof (elim disjE exE conjE)
  fix response d v r
  assume d: "h_unary host (lookup_call i) = Inr response" "h_to_dict host response = Inr d"
    and ok: "map_of d (lit ''receipt'') = Some (JObj v)" "receipt_of (h_parse_time host) v = Inr r"
      "rc_effect_id r = i" "rc_status r = Unknown"
  then have "read_receipt (h_parse_time host) d i = Inr (v, r)" by (simp add: read_receipt_Inr)
  with ok have "operation_result host d i = Inl (raising (OutcomeUnknown (lit ''host has not resolved the effect'') r))"
    by (simp add: operation_result_def)
  then show ?thesis
    unfolding lookup_answered [OF assms(1,2)] dispatch_response [OF d] by (simp add: raising_def)
next
  fix err he env
  assume err: "h_unary host (lookup_call i) = Inl err" "ra_exn err = HttpError he"
    and env: "connect_envelope (h_wire host) he env" "leaves_open True env"
  let ?m = "classify (h_wire host) (h_now host) he (Some i) True env"
  have "map_error (h_wire host) (h_now host) he (Some i) True = Inr (Some ?m)"
    by (cases rule: map_error_cases [of he "h_wire host" "h_now host" "Some i" True])
      (use env envelope_supported envelope_unique in \<open>blast+\<close>)
  moreover have m: "is_unknown ?m" using env(2) classify_unknown by blast
  ultimately have "dispatch host ''LookupInvokeSourceOperation'' (lookup_call i) (Some i) True = Inl (raising ?m)"
    using err by (auto simp: dispatch_def gateway_failure_def http_failure_def retain_def)
  then show ?thesis
    unfolding lookup_answered [OF assms(1,2)] using m unknown_is_outcome [OF m] by (simp add: raising_def)
qed

lemma answers_told:
  assumes "answers host book" and "valid_effect_id i"
  shows "tells (book i) i (snd (lookup host org src i))"
proof -
  from assms have contract: "host_contract host"
    and p: "h_parse host ''LookupInvokeSourceOperation'' [(lit ''effect_id'', JStr i)] = None"
    and says: "case book i of Absent \<Rightarrow> says_absent host i | Unresolved \<Rightarrow> says_open host i | Done r \<Rightarrow> says_done host i r"
    by (auto simp: answers_def)
  show ?thesis
  proof (cases "book i")
    case Absent
    with says have "says_absent host i" by simp
    moreover have "fst (lookup host org src i) = [lookup_call i]" using assms(2) p by (simp add: lookup_calls)
    ultimately show ?thesis
      using lookup_not_found [OF contract, of org src i i] Absent by (simp add: says_absent_def)
  next
    case Unresolved
    with says open_told [OF assms(2) p] show ?thesis by simp
  next
    case (Done r)
    with says done_told [OF assms(2) p] show ?thesis by simp
  qed
qed

lemma carried_header:
  assumes "host_contract host" and "reply_read host call" and "invoke host a io = ([call], Inl err)"
    and "gw_headers call = Some [(''x-codefly-effect-id'', i)]"
  shows "ra_effect_id err = Some i \<and> valid_effect_id i"
  using invoke_carries [OF assms(1-3)] assms(4) ready_valid by (auto simp: invocation_def carries_def)

interpretation effects: effect_protocol
  "\<lambda>(host, org, src) (a, io) i err.
     \<exists>call. reply_read host call \<and> invoke host a io = ([call], Inl err) \<and> gw_headers call = Some [(''x-codefly-effect-id'', i)]"
  "\<lambda>(host, org, src) i. snd (lookup host org src i)"
  "\<lambda>(host, org, src). host_contract host" "\<lambda>(host, org, src) book. answers host book"
  by unfold_locales (auto dest: carried_header answers_told split: prod.splits)

section \<open>Recovery\<close>

lemma invoke_call_fields:
  assumes "call \<in> set (fst (invoke host a io))"
  shows "\<exists>i t d. chosen_effect_id a io = Inr i \<and> iv_input a = Mapping d \<and> dumps (JObj d) = Some (codes t)
     \<and> gw_fields call = invoke_fields a t i \<and> gw_headers call = Some [(''x-codefly-effect-id'', i)]"
proof (cases rule: invoke_cases [of host a io])
  case (sent i t timeout)
  with assms show ?thesis by (auto simp: invocation_def invoke_ready_def)
qed (use assms in simp_all)

text \<open>An invocation under the identifier of an earlier one is the same request.\<close>

lemma same_request:
  assumes "call \<in> set (fst (invoke host a io))" and "gw_headers call = Some [(''x-codefly-effect-id'', i)]"
    and "again \<in> set (fst (invoke host' (a\<lparr>iv_effect_id := Some i, iv_deadline := dl\<rparr>) io'))"
  shows "gw_fields again = gw_fields call \<and> gw_headers again = gw_headers call"
proof -
  from invoke_call_fields [OF assms(1)] assms(2) obtain t d where "iv_input a = Mapping d"
    "dumps (JObj d) = Some (codes t)" "gw_fields call = invoke_fields a t i" by auto
  moreover from invoke_call_fields [OF assms(3)] obtain t' d' where "iv_input a = Mapping d'"
    "dumps (JObj d') = Some (codes t')" "gw_fields again = invoke_fields a t' i"
    "gw_headers again = Some [(''x-codefly-effect-id'', i)]"
    by (auto simp: chosen_effect_id_def invoke_fields_def)
  ultimately show ?thesis using assms(2) by (cases t; cases t') auto
qed

text \<open>C2: a lost reply is recoverable. After an invocation that was dispatched and failed (other
  than by \<open>RecursionError\<close> on an output text of its reply, which \<open>reply_read\<close> excludes), the
  exception keeps the identifier the call was sent under; a lookup of it at any later time,
  at a host that answers from its ledger, tells the caller what the ledger holds (the
  committed receipt with its output, that the outcome is open, or that nothing was
  attempted); and invoking again under it sends the same request.\<close>

theorem effect_recovered:
  fixes host later :: "'r host"
  assumes "host_contract host" and "reply_read host call" and "invoke host a io = ([call], Inl err)"
    and "answers later book"
  shows "\<exists>i. ra_effect_id err = Some i \<and> gw_headers call = Some [(''x-codefly-effect-id'', i)]
     \<and> tells (book i) i (snd (lookup later org src i))
     \<and> (\<forall>(host' :: 'r host) dl io'. \<forall>again \<in> set (fst (invoke host' (a\<lparr>iv_effect_id := Some i, iv_deadline := dl\<rparr>) io')).
          gw_fields again = gw_fields call \<and> gw_headers again = gw_headers call)"
proof -
  have sent: "call \<in> set (fst (invoke host a io))" using assms(3) by simp
  with invoke_call_fields obtain i where i: "gw_headers call = Some [(''x-codefly-effect-id'', i)]" by blast
  have "ra_effect_id err = Some i \<and> tells (book i) i (snd (lookup later org src i))"
    using effects.recovered [of "(host, org, src)" "(a, io)" i err "(later, org, src)" book] assms i by auto
  with i same_request [OF sent i] show ?thesis by blast
qed

lemma absent_answers: "answers absent_host (\<lambda>_. Absent)"
  using absent_contract absent_says by (simp add: answers_def says_absent_def) (simp add: absent_host_def sample_host_def)

lemma effect_recovered_witness:
  "\<exists>i err m. snd (lookup absent_host (lit ''o'') (lit ''s'') i) = Inr (FoundOutcome err) \<and> ra_exn err = EffectNotFound m i"
  using effect_recovered [OF sample_contract sample_reply_read sample_invoked absent_answers, of "lit ''o''" "lit ''s''"] by auto

end
