(* ===== verification/Json_Scanner.thy ===== *)
theory Json_Scanner
  imports Json "HOL-Library.Sublist"
begin

text \<open>
  \<open>json.loads\<close> on a text, as CPython's scanner reads it, with the two hooks the SDK passes:
  \<open>parse_constant\<close> (here whether \<open>NaN\<close> and the infinities are taken) and what an object
  becomes of its items (\<open>object_pairs_hook\<close>, or a dict). The recursion limit is a number of
  nested arrays and objects. Every call of the scanner spends fuel; \<open>loads\<close> gives it twice
  the length of the text and two more, which is always enough (\<open>loads_fuel\<close>).

  What remains of a text is a proper suffix of it, from which the bounds on fuel and on
  nesting follow: \<open>TooDeep\<close> needs more opening brackets than the limit (\<open>loads_depth\<close>).
\<close>

section \<open>Strings\<close>

definition hex_value :: "nat \<Rightarrow> nat option" where
  "hex_value c =
     (if 48 \<le> c \<and> c \<le> 57 then Some (c - 48) else if 97 \<le> c \<and> c \<le> 102 then Some (c - 87)
      else if 65 \<le> c \<and> c \<le> 70 then Some (c - 55) else None)"

text \<open>The four hexadecimal digits after \<open>\u\<close>.\<close>

definition u_value :: "nat list \<Rightarrow> nat option" where
  "u_value cs =
     (case map hex_value (take 4 cs) of
        [Some a, Some b, Some c, Some d] \<Rightarrow> Some (a * 4096 + b * 256 + c * 16 + d)
      | _ \<Rightarrow> None)"

definition simple_escape :: "nat \<Rightarrow> nat option" where
  "simple_escape e = map_of [(34, 34), (92, 92), (47, 47), (98, 8), (102, 12), (110, 10), (114, 13), (116, 9)] e"

definition is_high :: "nat \<Rightarrow> bool" where
  "is_high c \<longleftrightarrow> 0xD800 \<le> c \<and> c \<le> 0xDBFF"

definition is_low :: "nat \<Rightarrow> bool" where
  "is_low c \<longleftrightarrow> 0xDC00 \<le> c \<and> c \<le> 0xDFFF"

definition join_pair :: "nat \<Rightarrow> nat \<Rightarrow> nat" where
  "join_pair u v = 0x10000 + (u - 0xD800) * 1024 + (v - 0xDC00)"

text \<open>What follows the opening quote: the code points and the text after the closing one.\<close>

definition consS :: "nat \<Rightarrow> (nat list \<times> nat list) option \<Rightarrow> (nat list \<times> nat list) option" where
  "consS c m = map_option (\<lambda>(s, rest). (c # s, rest)) m"

function scan_string :: "nat list \<Rightarrow> (nat list \<times> nat list) option" where
  "scan_string [] = None"
| "scan_string (c # r) =
     (if c = 34 then Some ([], r)
      else if c \<noteq> 92 then (if c < 32 then None else consS c (scan_string r))
      else case r of
        [] \<Rightarrow> None
      | e # r' \<Rightarrow>
          if e \<noteq> 117 then
            (case simple_escape e of None \<Rightarrow> None | Some x \<Rightarrow> consS x (scan_string r'))
          else
            (case u_value r' of
               None \<Rightarrow> None
             | Some u \<Rightarrow>
                 if is_high u \<and> take 2 (drop 4 r') = [92, 117] then
                   (case u_value (drop 6 r') of
                      None \<Rightarrow> None
                    | Some v \<Rightarrow>
                        if is_low v then consS (join_pair u v) (scan_string (drop 10 r'))
                        else consS u (scan_string (drop 4 r')))
                 else consS u (scan_string (drop 4 r'))))"
  by pat_completeness auto
termination
  by (relation "measure length") auto

declare scan_string.simps(2) [simp del]

section \<open>Numbers\<close>

text \<open>\<open>(-?(?:0|[1-9]\d*))(\.\d+)?([eE][-+]?\d+)?\<close>: the parts of a number's text.\<close>

definition int_part :: "nat list \<Rightarrow> nat list" where
  "int_part cs = (if take 1 cs = [48] then [48] else takeWhile is_ascii_digit cs)"

definition frac_part :: "nat list \<Rightarrow> nat list" where
  "frac_part cs =
     (if take 1 cs = [46] \<and> takeWhile is_ascii_digit (drop 1 cs) \<noteq> []
      then 46 # takeWhile is_ascii_digit (drop 1 cs) else [])"

definition exp_sign :: "nat list \<Rightarrow> nat list" where
  "exp_sign cs = (if take 1 cs = [43] \<or> take 1 cs = [45] then take 1 cs else [])"

definition exp_part :: "nat list \<Rightarrow> nat list" where
  "exp_part cs =
     (if take 1 cs = [101] \<or> take 1 cs = [69] then
        let sgn = exp_sign (drop 1 cs); ds = takeWhile is_ascii_digit (drop (length sgn) (drop 1 cs))
        in if ds = [] then [] else take 1 cs @ sgn @ ds
      else [])"

text \<open>\<open>None\<close>: no number starts here, or an integer of more than 4300 digits.\<close>

definition scan_number :: "nat list \<Rightarrow> (json \<times> nat list) option" where
  "scan_number cs =
     (let sgn = (if take 1 cs = [45] then [45] else []); r = drop (length sgn) cs;
          whole = int_part r; r1 = drop (length whole) r;
          frac = frac_part r1; r2 = drop (length frac) r1;
          ex = exp_part r2; r3 = drop (length ex) r2
      in if whole = [] then None
         else if frac = [] \<and> ex = [] then
           (if length whole > 4300 then None
            else Some (JInt (if sgn = [] then int (decimal whole) else - int (decimal whole)), r3))
         else Some (JFloat (Str (sgn @ whole @ frac @ ex)), r3))"

section \<open>Values\<close>

datatype json_error = Malformed | TooDeep | OutOfFuel

record reader =
  rd_constants :: bool
  rd_object :: "(pystr \<times> json) list \<Rightarrow> json option"

definition is_ws :: "nat \<Rightarrow> bool" where
  "is_ws c \<longleftrightarrow> c \<in> {32, 9, 10, 13}"

definition skip_ws :: "nat list \<Rightarrow> nat list" where
  "skip_ws cs = dropWhile is_ws cs"

text \<open>The constants, by their texts.\<close>

definition constants :: "reader \<Rightarrow> (nat list \<times> json) list" where
  "constants rd =
     [(codes (lit ''null''), JNull), (codes (lit ''true''), JBool True), (codes (lit ''false''), JBool False)]
     @ (if rd_constants rd then
          map (\<lambda>t. (codes (lit t), JFloat (lit t))) [''NaN'', ''Infinity'', ''-Infinity''] else [])"

definition scan_constant :: "reader \<Rightarrow> nat list \<Rightarrow> (json \<times> nat list) option" where
  "scan_constant rd cs =
     map_option (\<lambda>(t, j). (j, drop (length t) cs)) (find (\<lambda>(t, _). take (length t) cs = t) (constants rd))"

definition built_object :: "reader \<Rightarrow> (pystr \<times> json) list \<times> nat list \<Rightarrow> json_error + (json \<times> nat list)" where
  "built_object rd = (\<lambda>(items, rest). case rd_object rd items of None \<Rightarrow> Inl Malformed | Some j \<Rightarrow> Inr (j, rest))"

definition scanned :: "('a \<times> nat list) option \<Rightarrow> json_error + ('a \<times> nat list)" where
  "scanned m = (case m of None \<Rightarrow> Inl Malformed | Some r \<Rightarrow> Inr r)"

text \<open>The value that starts the text; the elements after \<open>[\<close>; the items after \<open>{\<close>.\<close>

fun scan_value :: "reader \<Rightarrow> nat \<Rightarrow> nat \<Rightarrow> nat list \<Rightarrow> json_error + (json \<times> nat list)" and
    scan_elements :: "reader \<Rightarrow> nat \<Rightarrow> nat \<Rightarrow> nat list \<Rightarrow> json_error + (json list \<times> nat list)" and
    scan_items :: "reader \<Rightarrow> nat \<Rightarrow> nat \<Rightarrow> nat list \<Rightarrow> json_error + ((pystr \<times> json) list \<times> nat list)" where
  "scan_value rd 0 d cs = Inl OutOfFuel"
| "scan_value rd (Suc n) d cs =
     (case cs of
        [] \<Rightarrow> Inl Malformed
      | c # r \<Rightarrow>
          if c = 34 then bindR (scanned (scan_string r)) (\<lambda>(s, rest). Inr (JStr (Str s), rest))
          else if c = 123 then
            (if d = 0 then Inl TooDeep
             else if take 1 (skip_ws r) = [125] then built_object rd ([], drop 1 (skip_ws r))
             else bindR (scan_items rd n (d - 1) (skip_ws r)) (built_object rd))
          else if c = 91 then
            (if d = 0 then Inl TooDeep
             else if take 1 (skip_ws r) = [93] then Inr (JArr [], drop 1 (skip_ws r))
             else bindR (scan_elements rd n (d - 1) (skip_ws r)) (\<lambda>(vs, rest). Inr (JArr vs, rest)))
          else
            (case scan_constant rd cs of
               Some found \<Rightarrow> Inr found
             | None \<Rightarrow> scanned (scan_number cs)))"
| "scan_elements rd 0 d cs = Inl OutOfFuel"
| "scan_elements rd (Suc n) d cs =
     bindR (scan_value rd n d cs) (\<lambda>(v, rest).
       case skip_ws rest of
         [] \<Rightarrow> Inl Malformed
       | c # r \<Rightarrow>
           if c = 93 then Inr ([v], r)
           else if c = 44 then bindR (scan_elements rd n d (skip_ws r)) (\<lambda>(vs, rest). Inr (v # vs, rest))
           else Inl Malformed)"
| "scan_items rd 0 d cs = Inl OutOfFuel"
| "scan_items rd (Suc n) d cs =
     (if take 1 cs \<noteq> [34] then Inl Malformed
      else bindR (scanned (scan_string (drop 1 cs))) (\<lambda>(k, rest).
        if take 1 (skip_ws rest) \<noteq> [58] then Inl Malformed
        else bindR (scan_value rd n d (skip_ws (drop 1 (skip_ws rest)))) (\<lambda>(v, rest).
          case skip_ws rest of
            [] \<Rightarrow> Inl Malformed
          | c # r \<Rightarrow>
              if c = 125 then Inr ([(Str k, v)], r)
              else if c = 44 then bindR (scan_items rd n d (skip_ws r)) (\<lambda>(items, rest). Inr ((Str k, v) # items, rest))
              else Inl Malformed)))"

definition loads :: "reader \<Rightarrow> nat \<Rightarrow> nat list \<Rightarrow> json_error + json" where
  "loads rd limit cs =
     bindR (scan_value rd (2 * length cs + 2) limit (skip_ws cs)) (\<lambda>(j, rest).
       if skip_ws rest = [] then Inr j else Inl Malformed)"

lemma loads_Inr:
  "loads rd limit cs = Inr j \<longleftrightarrow>
     (\<exists>rest. scan_value rd (2 * length cs + 2) limit (skip_ws cs) = Inr (j, rest) \<and> skip_ws rest = [])"
  unfolding loads_def bindR_Inr by (auto split: if_splits)

section \<open>Fuel\<close>

text \<open>Whatever is read, the rest is a proper suffix of the text.\<close>

lemma rest_Cons: "suffix rest cs \<Longrightarrow> strict_suffix rest (c # cs)"
  by (auto simp: suffix_def strict_suffix_def)

lemmas rest_trans = suffix_order.less_le_trans suffix_order.le_less_trans suffix_order.less_trans
lemmas rest_le = suffix_order.less_imp_le

lemma suffix_length: "suffix rest cs \<Longrightarrow> length rest \<le> length cs"
  by (auto simp: suffix_def)

lemma consS_Some: "consS c m = Some (s, rest) \<longleftrightarrow> (\<exists>s'. m = Some (s', rest) \<and> s = c # s')"
  by (cases m) (auto simp: consS_def)

lemma scan_string_suffix: "scan_string cs = Some (s, rest) \<Longrightarrow> strict_suffix rest cs"
proof (induction cs arbitrary: s rule: scan_string.induct)
  case (2 c r)
  then have "suffix rest r"
    by (subst (asm) scan_string.simps)
      (fastforce simp: consS_Some split: if_splits list.splits option.splits
        intro: suffix_order.trans [OF rest_le suffix_drop] suffix_ConsI rest_le)
  then show ?case by (rule rest_Cons)
qed simp

lemma skip_ws_suffix: "suffix (skip_ws cs) cs"
  by (simp add: skip_ws_def suffix_dropWhile)

lemma skip_drop_suffix: "suffix (skip_ws (drop n (skip_ws cs))) cs"
  using skip_ws_suffix suffix_drop suffix_order.trans by blast

lemma skip_ws_le: "length (skip_ws cs) \<le> length cs"
  by (rule suffix_length [OF skip_ws_suffix])

lemma skip_ws_Cons: "skip_ws cs = c # r \<Longrightarrow> strict_suffix r cs"
  using skip_ws_suffix [of cs] suffix_ConsD' by fastforce

lemma scan_number_suffix:
  assumes "scan_number cs = Some (j, rest)"
  shows "strict_suffix rest cs"
proof -
  define r where "r = drop (length (if take 1 cs = [45] then [45 :: nat] else [])) cs"
  define r1 where "r1 = drop (length (int_part r)) r"
  define r2 where "r2 = drop (length (frac_part r1)) r1"
  from assms have whole: "int_part r \<noteq> []" and rest: "rest = drop (length (exp_part r2)) r2"
    unfolding scan_number_def Let_def r_def [symmetric] r1_def [symmetric] r2_def [symmetric]
    by (auto split: if_splits)
  from whole have "0 < length (int_part r)" "r \<noteq> []" by (auto simp: int_part_def split: if_splits)
  then have "length r1 < length r" by (cases r) (auto simp: r1_def)
  moreover have "suffix r1 r" by (simp add: r1_def suffix_drop)
  ultimately have "strict_suffix r1 r" by (auto simp: strict_suffix_def)
  moreover have "suffix r cs" "suffix rest r1"
    unfolding r_def rest r2_def by (simp_all only: suffix_drop drop_drop)
  ultimately show ?thesis by (blast intro: rest_trans)
qed

lemma scan_constant_Some:
  assumes "scan_constant rd cs = Some (j, rest)"
  obtains t where "(t, j) \<in> set (constants rd)" "t \<noteq> []" "take (length t) cs = t" "rest = drop (length t) cs"
proof -
  from assms obtain t where t: "find (\<lambda>(t, _). take (length t) cs = t) (constants rd) = Some (t, j)"
    "rest = drop (length t) cs" by (auto simp: scan_constant_def)
  then have "(t, j) \<in> set (constants rd)" "take (length t) cs = t"
    by (auto simp: find_Some_iff) (metis nth_mem)
  moreover from this(1) have "t \<noteq> []" by (auto simp: constants_def lit_def split: if_splits)
  ultimately show thesis using t(2) that by blast
qed

lemma scan_constant_suffix:
  assumes "scan_constant rd cs = Some (j, rest)"
  shows "strict_suffix rest cs"
  using assms
proof (rule scan_constant_Some)
  fix t assume t: "t \<noteq> []" "take (length t) cs = t" and rest: "rest = drop (length t) cs"
  then have "cs = t @ rest" by (metis append_take_drop_id)
  with t(1) show ?thesis by (auto simp: strict_suffix_def suffix_def)
qed

lemma scanned_Inr: "scanned m = Inr x \<longleftrightarrow> m = Some x"
  by (cases m) (auto simp: scanned_def)

lemma built_object_Inr: "built_object rd (items, rest) = Inr (j, rest') \<longleftrightarrow> rd_object rd items = Some j \<and> rest' = rest"
  by (auto simp: built_object_def split: option.splits)

lemma scan_elements_Suc:
  "scan_elements rd (Suc n) d cs = Inr (vs, rest) \<longleftrightarrow>
     (\<exists>v r1 c r. scan_value rd n d cs = Inr (v, r1) \<and> skip_ws r1 = c # r
        \<and> (c = 93 \<and> vs = [v] \<and> rest = r
           \<or> c = 44 \<and> (\<exists>vs'. scan_elements rd n d (skip_ws r) = Inr (vs', rest) \<and> vs = v # vs')))"
proof (cases "scan_value rd n d cs")
  case (Inr p)
  obtain v r1 where "p = (v, r1)" by (cases p)
  with Inr show ?thesis by (cases "skip_ws r1") (auto simp: bindR_Inr)
qed simp

lemma scan_items_Suc:
  "scan_items rd (Suc n) d cs = Inr (items, rest) \<longleftrightarrow>
     (\<exists>k r1 v r2 c r. take 1 cs = [34] \<and> scan_string (drop 1 cs) = Some (k, r1) \<and> take 1 (skip_ws r1) = [58]
        \<and> scan_value rd n d (skip_ws (drop 1 (skip_ws r1))) = Inr (v, r2) \<and> skip_ws r2 = c # r
        \<and> (c = 125 \<and> items = [(Str k, v)] \<and> rest = r
           \<or> c = 44 \<and> (\<exists>more. scan_items rd n d (skip_ws r) = Inr (more, rest) \<and> items = (Str k, v) # more)))"
proof (cases "take 1 cs = [34] \<and> (\<exists>k r1. scan_string (drop 1 cs) = Some (k, r1) \<and> take 1 (skip_ws r1) = [58])")
  case True
  then obtain k r1 where k: "take 1 cs = [34]" "scan_string (drop 1 cs) = Some (k, r1)" "take 1 (skip_ws r1) = [58]"
    by blast
  show ?thesis
  proof (cases "scan_value rd n d (skip_ws (drop 1 (skip_ws r1)))")
    case (Inr p)
    obtain v r2 where "p = (v, r2)" by (cases p)
    with Inr k show ?thesis by (cases "skip_ws r2") (auto simp: bindR_Inr scanned_def)
  qed (use k in \<open>auto simp: scanned_def\<close>)
next
  case False
  then show ?thesis by (auto simp: bindR_Inr scanned_Inr)
qed

lemma scan_suffix:
  "scan_value rd n d cs = Inr (j, rest) \<Longrightarrow> strict_suffix rest cs"
  "scan_elements rd n d cs = Inr (vs, rest) \<Longrightarrow> strict_suffix rest cs"
  "scan_items rd n d cs = Inr (items, rest) \<Longrightarrow> strict_suffix rest cs"
proof (induction rd n d cs and rd n d cs and rd n d cs arbitrary: j rest and vs rest and items rest
    rule: scan_value_scan_elements_scan_items.induct)
  case (2 rd n d cs)
  show ?case
  proof (cases cs)
    case (Cons c r)
    have r: "suffix (drop 1 (skip_ws r)) r" using suffix_order.trans [OF suffix_drop skip_ws_suffix] .
    consider "c = 34" | "c = 123" | "c = 91" | "c \<notin> {34, 123, 91}" by blast
    then show ?thesis
    proof cases
      case 1
      with Cons "2.prems" show ?thesis
        by (auto simp: bindR_Inr scanned_Inr intro: rest_Cons rest_le dest: scan_string_suffix)
    next
      case 2
      with Cons "2.prems" r consider "rest = drop 1 (skip_ws r)" | "strict_suffix rest (skip_ws r)"
        using "2.IH"(1) [OF Cons] by (fastforce simp: bindR_Inr built_object_Inr split: if_splits)
      then show ?thesis
        unfolding Cons by cases (use r skip_ws_suffix in \<open>blast intro: rest_Cons rest_trans rest_le\<close>)+
    next
      case 3
      with Cons "2.prems" r consider "rest = drop 1 (skip_ws r)" | "strict_suffix rest (skip_ws r)"
        using "2.IH"(2) [OF Cons] by (fastforce simp: bindR_Inr split: if_splits)
      then show ?thesis
        unfolding Cons by cases (use r skip_ws_suffix in \<open>blast intro: rest_Cons rest_trans rest_le\<close>)+
    next
      case 4
      with Cons "2.prems" show ?thesis
        by (auto simp: scanned_Inr split: option.splits dest: scan_constant_suffix scan_number_suffix)
    qed
  qed (use "2.prems" in simp)
next
  case (4 rd n d cs)
  then obtain v r1 c r where v: "scan_value rd n d cs = Inr (v, r1)" and s: "skip_ws r1 = c # r"
    and c: "c = 93 \<and> rest = r \<or> c = 44 \<and> (\<exists>vs. scan_elements rd n d (skip_ws r) = Inr (vs, rest))"
    unfolding scan_elements_Suc by blast
  have r: "strict_suffix r cs" using "4.IH"(1) [OF v] skip_ws_Cons [OF s] by (blast intro: rest_trans)
  moreover have "strict_suffix rest (skip_ws r)" if "c = 44" "scan_elements rd n d (skip_ws r) = Inr (vs, rest)" for vs
    using "4.IH"(2) [OF v refl s _ that(1) that(2)] that(1) by simp
  ultimately show ?case using c skip_ws_suffix [of r] by (blast intro: rest_trans)
next
  case (6 rd n d cs)
  then obtain k r1 v r2 c r where k: "take 1 cs = [34]" "scan_string (drop 1 cs) = Some (k, r1)" "take 1 (skip_ws r1) = [58]"
    and v: "scan_value rd n d (skip_ws (drop 1 (skip_ws r1))) = Inr (v, r2)" and s: "skip_ws r2 = c # r"
    and c: "c = 125 \<and> rest = r \<or> c = 44 \<and> (\<exists>items. scan_items rd n d (skip_ws r) = Inr (items, rest))"
    unfolding scan_items_Suc by blast
  have sc: "scanned (scan_string (drop 1 cs)) = Inr (k, r1)" using k by (simp add: scanned_Inr)
  have "strict_suffix r1 cs" using scan_string_suffix [OF k(2)] suffix_drop by (rule suffix_order.less_le_trans)
  moreover have "strict_suffix r2 (skip_ws (drop 1 (skip_ws r1)))"
    using "6.IH"(1) [OF _ sc refl _ v] k by simp
  then have "strict_suffix r2 r1" using skip_drop_suffix by (rule suffix_order.less_le_trans)
  ultimately have "strict_suffix r cs" using skip_ws_Cons [OF s] by (blast intro: rest_trans)
  moreover have "strict_suffix rest (skip_ws r)" if "c = 44" "scan_items rd n d (skip_ws r) = Inr (items, rest)" for items
    using "6.IH"(2) [OF _ sc refl _ v refl s _ that(1) that(2)] k that(1) by simp
  ultimately show ?case using c skip_ws_suffix [of r] by (blast intro: rest_trans)
qed simp_all

lemmas scan_shorter = scan_suffix [THEN suffix_length_less]

lemma scanned_Inl: "scanned m \<noteq> Inl OutOfFuel"
  by (cases m) (simp_all add: scanned_def)

lemma built_object_Inl: "built_object rd p \<noteq> Inl OutOfFuel"
  by (auto simp: built_object_def split: option.split prod.split)

text \<open>Where an error other than \<open>Malformed\<close> comes from.\<close>

lemma scan_elements_Inl:
  assumes "e \<noteq> Malformed"
  shows "scan_elements rd (Suc n) d cs = Inl e \<longleftrightarrow>
     scan_value rd n d cs = Inl e
     \<or> (\<exists>v r1 r. scan_value rd n d cs = Inr (v, r1) \<and> skip_ws r1 = 44 # r
          \<and> scan_elements rd n d (skip_ws r) = Inl e)"
proof (cases "scan_value rd n d cs")
  case (Inr p)
  obtain v r1 where "p = (v, r1)" by (cases p)
  with Inr assms show ?thesis by (cases "skip_ws r1") (auto simp: bindR_Inl)
qed simp

lemma scan_items_Inl:
  assumes "e \<noteq> Malformed" and out: "scan_items rd (Suc n) d cs = Inl e"
  shows "\<exists>k r1. scan_string (drop 1 cs) = Some (k, r1) \<and> cs \<noteq> []
       \<and> (scan_value rd n d (skip_ws (drop 1 (skip_ws r1))) = Inl e
          \<or> (\<exists>v r2 r. scan_value rd n d (skip_ws (drop 1 (skip_ws r1))) = Inr (v, r2) \<and> skip_ws r2 = 44 # r
               \<and> scan_items rd n d (skip_ws r) = Inl e))"
proof (cases "take 1 cs = [34] \<and> (\<exists>k r1. scan_string (drop 1 cs) = Some (k, r1) \<and> take 1 (skip_ws r1) = [58])")
  case True
  then obtain k r1 where k: "take 1 cs = [34]" "scan_string (drop 1 cs) = Some (k, r1)" "take 1 (skip_ws r1) = [58]"
    by blast
  show ?thesis
  proof (cases "scan_value rd n d (skip_ws (drop 1 (skip_ws r1)))")
    case (Inr p)
    obtain v r2 where "p = (v, r2)" by (cases p)
    with Inr k out assms(1) show ?thesis by (cases "skip_ws r2") (auto simp: bindR_Inl scanned_def split: if_splits)
  qed (use k out in \<open>auto simp: scanned_def\<close>)
next
  case False
  with out assms(1) show ?thesis
    by (cases "scan_string (drop 1 cs)") (auto simp: scanned_def split: if_splits)
qed

lemma fuel_error: "OutOfFuel \<noteq> Malformed" and depth_error: "TooDeep \<noteq> Malformed"
  by simp_all

text \<open>Twice the length of the text is enough.\<close>

lemma scan_fuel:
  "scan_value rd n d cs = Inl OutOfFuel \<Longrightarrow> n \<le> 2 * length cs"
  "scan_elements rd n d cs = Inl OutOfFuel \<Longrightarrow> n \<le> 2 * length cs + 1"
  "scan_items rd n d cs = Inl OutOfFuel \<Longrightarrow> n \<le> 2 * length cs + 1"
proof (induction n arbitrary: d cs)
  case (Suc n)
  {
    case 1
    then obtain c r where cs: "cs = c # r" by (cases cs) auto
    have "c = 91 \<and> scan_elements rd n (d - 1) (skip_ws r) = Inl OutOfFuel
        \<or> c = 123 \<and> scan_items rd n (d - 1) (skip_ws r) = Inl OutOfFuel"
      using 1 cs by (auto simp: bindR_Inl scanned_Inl built_object_Inl split: if_splits option.splits)
    then have "n \<le> 2 * length (skip_ws r) + 1" using Suc.IH(2,3) by blast
    then show ?case using skip_ws_le [of r] by (simp add: cs)
  next
    case 2
    then consider "scan_value rd n d cs = Inl OutOfFuel"
      | v r1 r where "scan_value rd n d cs = Inr (v, r1)" "skip_ws r1 = 44 # r" "scan_elements rd n d (skip_ws r) = Inl OutOfFuel"
      unfolding scan_elements_Inl [OF fuel_error] by blast
    then show ?case
    proof cases
      case (2 v r1 r)
      from Suc.IH(2) [OF 2(3)] scan_shorter(1) [OF 2(1)] suffix_length_less [OF skip_ws_Cons [OF 2(2)]] skip_ws_le [of r]
      show ?thesis by simp
    qed (use Suc.IH(1) in fastforce)
  next
    case 3
    from scan_items_Inl [OF fuel_error 3] obtain k r1 where k: "scan_string (drop 1 cs) = Some (k, r1)" "cs \<noteq> []"
      and out: "scan_value rd n d (skip_ws (drop 1 (skip_ws r1))) = Inl OutOfFuel
        \<or> (\<exists>v r2 r. scan_value rd n d (skip_ws (drop 1 (skip_ws r1))) = Inr (v, r2) \<and> skip_ws r2 = 44 # r
             \<and> scan_items rd n d (skip_ws r) = Inl OutOfFuel)" by blast
    let ?t = "skip_ws (drop 1 (skip_ws r1))"
    have t: "length ?t < length cs"
      using suffix_length_less [OF scan_string_suffix [OF k(1)]] skip_ws_le [of "drop 1 (skip_ws r1)"] skip_ws_le [of r1] by simp
    from out show ?case
    proof
      assume "scan_value rd n d ?t = Inl OutOfFuel"
      from Suc.IH(1) [OF this] t show ?thesis by simp
    next
      assume "\<exists>v r2 r. scan_value rd n d ?t = Inr (v, r2) \<and> skip_ws r2 = 44 # r \<and> scan_items rd n d (skip_ws r) = Inl OutOfFuel"
      then obtain v r2 r where v: "scan_value rd n d ?t = Inr (v, r2)" "skip_ws r2 = 44 # r"
        "scan_items rd n d (skip_ws r) = Inl OutOfFuel" by blast
      from Suc.IH(3) [OF v(3)] scan_shorter(1) [OF v(1)] suffix_length_less [OF skip_ws_Cons [OF v(2)]] skip_ws_le [of r] t
      show ?thesis by simp
    qed
  }
qed simp_all

lemma loads_fuel: "loads rd limit cs \<noteq> Inl OutOfFuel"
  using scan_fuel(1) [of rd "2 * length cs + 2" limit "skip_ws cs"] skip_ws_le [of cs]
  by (auto simp: loads_def bindR_Inl split: if_splits)

section \<open>Depth\<close>

text \<open>The brackets of a text that may open a nesting level.\<close>

definition openings :: "nat list \<Rightarrow> nat" where
  "openings cs = length (filter (\<lambda>c. c \<in> {91, 123}) cs)"

lemma openings_Cons: "openings (c # cs) = (if c \<in> {91, 123} then 1 else 0) + openings cs"
  by (simp add: openings_def)

lemma openings_suffix: "suffix rest cs \<Longrightarrow> openings rest \<le> openings cs"
  by (auto simp: suffix_def openings_def)

lemma scanned_deep: "scanned m \<noteq> Inl TooDeep"
  by (cases m) (simp_all add: scanned_def)

lemma built_object_deep: "built_object rd p \<noteq> Inl TooDeep"
  by (auto simp: built_object_def split: option.split prod.split)

text \<open>A text is too deep only with more brackets than the limit.\<close>

lemma scan_depth:
  "scan_value rd n d cs = Inl TooDeep \<Longrightarrow> d < openings cs"
  "scan_elements rd n d cs = Inl TooDeep \<Longrightarrow> d < openings cs"
  "scan_items rd n d cs = Inl TooDeep \<Longrightarrow> d < openings cs"
proof (induction n arbitrary: d cs)
  case (Suc n)
  {
    case 1
    then obtain c r where cs: "cs = c # r" by (cases cs) auto
    have le: "openings (skip_ws r) \<le> openings r" by (rule openings_suffix [OF skip_ws_suffix])
    have "c \<in> {91, 123} \<and> (d = 0 \<or> scan_elements rd n (d - 1) (skip_ws r) = Inl TooDeep
        \<or> scan_items rd n (d - 1) (skip_ws r) = Inl TooDeep)"
      using 1 cs by (auto simp: bindR_Inl scanned_deep built_object_deep split: if_splits option.splits)
    then have "c \<in> {91, 123}" "d \<le> openings r"
      using Suc.IH(2,3) [of "d - 1" "skip_ws r"] le by fastforce+
    then show ?case by (simp add: cs openings_Cons)
  next
    case 2
    then consider "scan_value rd n d cs = Inl TooDeep"
      | v r1 r where "scan_value rd n d cs = Inr (v, r1)" "skip_ws r1 = 44 # r" "scan_elements rd n d (skip_ws r) = Inl TooDeep"
      unfolding scan_elements_Inl [OF depth_error] by blast
    then show ?case
    proof cases
      case (2 v r1 r)
      have "suffix (skip_ws r) cs"
        using skip_ws_suffix [of r] skip_ws_Cons [OF 2(2)] scan_suffix(1) [OF 2(1)] by (blast intro: rest_trans rest_le)
      with Suc.IH(2) [OF 2(3)] openings_suffix show ?thesis by (meson order_less_le_trans)
    qed (use Suc.IH(1) in blast)
  next
    case 3
    from scan_items_Inl [OF depth_error 3] obtain k r1 where k: "scan_string (drop 1 cs) = Some (k, r1)" "cs \<noteq> []"
      and out: "scan_value rd n d (skip_ws (drop 1 (skip_ws r1))) = Inl TooDeep
        \<or> (\<exists>v r2 r. scan_value rd n d (skip_ws (drop 1 (skip_ws r1))) = Inr (v, r2) \<and> skip_ws r2 = 44 # r
             \<and> scan_items rd n d (skip_ws r) = Inl TooDeep)" by blast
    let ?t = "skip_ws (drop 1 (skip_ws r1))"
    have "suffix r1 cs" using scan_string_suffix [OF k(1)] suffix_drop [of 1 cs] by (blast intro: rest_trans rest_le)
    then have t: "suffix ?t cs" using skip_drop_suffix suffix_order.trans by blast
    from out show ?case
    proof
      assume "scan_value rd n d ?t = Inl TooDeep"
      from Suc.IH(1) [OF this] openings_suffix [OF t] show ?thesis by simp
    next
      assume "\<exists>v r2 r. scan_value rd n d ?t = Inr (v, r2) \<and> skip_ws r2 = 44 # r \<and> scan_items rd n d (skip_ws r) = Inl TooDeep"
      then obtain v r2 r where v: "scan_value rd n d ?t = Inr (v, r2)" "skip_ws r2 = 44 # r"
        "scan_items rd n d (skip_ws r) = Inl TooDeep" by blast
      have "suffix (skip_ws r) cs"
        using skip_ws_suffix [of r] skip_ws_Cons [OF v(2)] scan_suffix(1) [OF v(1)] t by (blast intro: rest_trans rest_le)
      with Suc.IH(3) [OF v(3)] openings_suffix show ?thesis by (meson order_less_le_trans)
    qed
  }
qed simp_all

lemma loads_depth: "loads rd limit cs = Inl TooDeep \<Longrightarrow> limit < openings cs"
  using scan_depth(1) [of rd "2 * length cs + 2" limit "skip_ws cs"] openings_suffix [OF skip_ws_suffix [of cs]]
  by (auto simp: loads_def bindR_Inl split: if_splits)

end
