(* ===== verification/Json_Roundtrip.thy ===== *)
theory Json_Roundtrip
  imports Json_Scanner
begin

text \<open>
  \<open>json.loads\<close> inverts \<open>json.dumps\<close>: the text printed for a value is read back as that value,
  for strings in which no surrogate pair is spelled as two code points (the scanner joins
  these) and nesting within the recursion limit. The printed text is printable ASCII.
\<close>

section \<open>Values that survive\<close>

fun unpaired :: "nat list \<Rightarrow> bool" where
  "unpaired (c # d # cs) \<longleftrightarrow> \<not> (is_high c \<and> is_low d) \<and> unpaired (d # cs)"
| "unpaired _ = True"

definition plain_text :: "nat list \<Rightarrow> bool" where
  "plain_text cs \<longleftrightarrow> list_all (\<lambda>c. c < 0x110000) cs \<and> unpaired cs"

text \<open>A float is the text \<open>float.__repr__\<close> gives it: one that reads as a float.\<close>

definition float_text :: "pystr \<Rightarrow> bool" where
  "float_text t \<longleftrightarrow> scan_number (codes t) = Some (JFloat t, [])"

fun python_json :: "json \<Rightarrow> bool" where
  "python_json (JFloat t) = float_text t"
| "python_json (JStr s) = plain_text (codes s)"
| "python_json (JArr vs) = list_all python_json vs"
| "python_json (JObj items) \<longleftrightarrow>
     distinct (map fst items) \<and> list_all (\<lambda>(k, v). plain_text (codes k) \<and> python_json v) items"
| "python_json _ = True"

section \<open>Strings\<close>

lemma hex_value_char: "n < 16 \<Longrightarrow> hex_value (hex_char n) = Some n"
  by (auto simp: hex_value_def hex_char_def)

lemma four_digits:
  fixes c :: nat
  assumes c: "c < 0x10000"
  shows "c div 4096 mod 16 * 4096 + c div 256 mod 16 * 256 + c div 16 mod 16 * 16 + c mod 16 = c"
proof -
  have d: "c div 256 = c div 16 div 16" "c div 4096 = c div 256 div 16"
    by (simp_all add: div_mult2_eq [symmetric])
  have "c = c div 16 * 16 + c mod 16" by simp
  moreover have "c div 16 = c div 256 * 16 + c div 16 mod 16" unfolding d(1) by simp
  moreover have "c div 256 = c div 4096 * 16 + c div 256 mod 16" unfolding d(2) by simp
  moreover have "c div 4096 mod 16 = c div 4096" using c by (simp add: div_less_iff_less_mult)
  ultimately show ?thesis by linarith
qed

lemma u_value_escape: "c < 0x10000 \<Longrightarrow> u_value (drop 2 (u_escape c) @ rest) = Some c"
  using four_digits [of c] by (simp add: u_value_def u_escape_def hex_value_char)

lemma u_escape_shape: "u_escape c = 92 # 117 # drop 2 (u_escape c)" "length (drop 2 (u_escape c)) = 4"
  by (simp_all add: u_escape_def)

text \<open>One escape is read as one code point, unless it is a high surrogate before a low one.\<close>

definition not_low :: "nat list \<Rightarrow> bool" where
  "not_low cs \<longleftrightarrow> take 2 cs \<noteq> [92, 117] \<or> (\<exists>v. u_value (drop 2 cs) = Some v \<and> \<not> is_low v)"

lemma scan_u_escape:
  assumes "c < 0x10000" and "is_high c \<Longrightarrow> not_low cs"
  shows "scan_string (u_escape c @ cs) = consS c (scan_string cs)"
proof -
  let ?h = "drop 2 (u_escape c)"
  have u: "u_value (?h @ cs) = Some c" by (rule u_value_escape [OF assms(1)])
  have len: "length ?h = 4" by (rule u_escape_shape)
  have d: "drop 4 (?h @ cs) = cs" "drop 6 (?h @ cs) = drop 2 cs" using len by simp_all
  have "scan_string (92 # 117 # ?h @ cs) = consS c (scan_string cs)"
    using u assms(2) unfolding scan_string.simps(2) [of 92] d
    by (auto simp: not_low_def d simp del: drop_append)
  then show ?thesis by (subst u_escape_shape) simp
qed

lemma scan_pair:
  assumes "0x10000 \<le> c" and "c < 0x110000"
  shows "scan_string (escape_char c @ cs) = consS c (scan_string cs)"
proof -
  define u v where "u = 0xD800 + (c - 0x10000) div 1024" and "v = 0xDC00 + (c - 0x10000) mod 1024"
  have q: "(c - 0x10000) div 1024 < 1024" using assms by (simp add: div_less_iff_less_mult)
  have u: "is_high u" "u < 0x10000" using q by (simp_all add: u_def is_high_def)
  have "(c - 0x10000) mod 1024 < 1024" by simp
  then have v: "is_low v" "v < 0x10000" unfolding v_def is_low_def by linarith+
  have join: "join_pair u v = c"
    using assms by (simp add: join_pair_def u_def v_def)
  let ?h = "drop 2 (u_escape u)" and ?l = "drop 2 (u_escape v)"
  have esc: "escape_char c = 92 # 117 # ?h @ 92 # 117 # ?l"
    using assms u_escape_shape(1) by (simp add: escape_char_def u_def v_def)
  have len: "length ?h = 4" "length ?l = 4" by (rule u_escape_shape)+
  have parts: "u_value (?h @ 92 # 117 # ?l @ cs) = Some u" "u_value (?l @ cs) = Some v"
    using u_value_escape u(2) v(2) by blast+
  have d: "drop 4 (?h @ 92 # 117 # ?l @ cs) = 92 # 117 # ?l @ cs" "drop 6 (?h @ 92 # 117 # ?l @ cs) = ?l @ cs"
    "drop 10 (?h @ 92 # 117 # ?l @ cs) = cs" using len by simp_all
  have "scan_string (92 # 117 # ?h @ 92 # 117 # ?l @ cs) = consS c (scan_string cs)"
    unfolding scan_string.simps(2) [of 92] using parts u(1) v(1) join
    by (simp add: d del: drop_append)
  then show ?thesis by (simp add: esc)
qed

lemma scan_escape_char:
  assumes "c < 0x110000" and "is_high c \<Longrightarrow> not_low cs"
  shows "scan_string (escape_char c @ cs) = consS c (scan_string cs)"
proof (cases "0x10000 \<le> c")
  case False
  consider "c \<in> {34, 92, 10, 13, 9, 12, 8}" | "c \<notin> {34, 92}" "32 \<le> c" "c \<le> 126"
    | "c \<notin> {34, 92, 10, 13, 9, 12, 8}" "\<not> (32 \<le> c \<and> c \<le> 126)" by blast
  then show ?thesis
  proof cases
    case 1
    then show ?thesis by (auto simp: escape_char_def scan_string.simps(2) simple_escape_def)
  next
    case 2
    then show ?thesis by (auto simp: escape_char_def scan_string.simps(2))
  next
    case 3
    with False have "escape_char c = u_escape c" by (auto simp: escape_char_def)
    with False assms scan_u_escape show ?thesis by simp
  qed
qed (use assms scan_pair in simp)

lemma escape_not_low:
  assumes "d < 0x110000" and "\<not> is_low d"
  shows "not_low (escape_char d @ cs)"
proof -
  have u: "not_low (u_escape e @ cs)" if "e < 0x10000" "\<not> is_low e" for e cs
    using u_value_escape [OF that(1)] that(2) by (simp add: not_low_def u_escape_def)
  have "not_low (u_escape (0xD800 + (d - 0x10000) div 1024) @ cs)" if "0x10000 \<le> d" for cs
    using assms(1) that by (intro u) (auto simp: is_low_def div_less_iff_less_mult)
  with u [of d] assms(2) show ?thesis
    by (auto simp: escape_char_def not_low_def [of "_ # _"])
qed

lemma scan_escape:
  "plain_text cs \<Longrightarrow> scan_string (concat (map escape_char cs) @ 34 # rest) = Some (cs, rest)"
proof (induction cs)
  case (Cons c cs)
  then have c: "c < 0x110000" and tail: "plain_text cs"
    by (cases cs; simp add: plain_text_def)+
  have "not_low (concat (map escape_char cs) @ 34 # rest)" if "is_high c"
  proof (cases cs)
    case (Cons d ds)
    with Cons.prems that have "d < 0x110000" "\<not> is_low d" by (auto simp: plain_text_def)
    then show ?thesis using escape_not_low by (simp add: Cons)
  qed (simp add: not_low_def)
  with c have "scan_string (escape_char c @ (concat (map escape_char cs) @ 34 # rest))
      = consS c (scan_string (concat (map escape_char cs) @ 34 # rest))"
    by (rule scan_escape_char)
  with Cons.IH [OF tail] show ?case by (simp add: consS_def)
qed (simp add: scan_string.simps(2))

section \<open>Numbers\<close>

text \<open>What follows a value in printed text: nothing, or a character no number goes on with.\<close>

definition ends :: "nat list \<Rightarrow> bool" where
  "ends rest \<longleftrightarrow> rest = [] \<or> hd rest \<in> {44, 93, 125}"

lemma ends_take: "ends rest \<Longrightarrow> c \<notin> {44, 93, 125} \<Longrightarrow> take 1 (cs @ rest) = [c] \<longleftrightarrow> take 1 cs = [c]"
  by (cases cs; cases rest) (auto simp: ends_def)

lemma ends_digits: "ends rest \<Longrightarrow> takeWhile is_ascii_digit (cs @ rest) = takeWhile is_ascii_digit cs"
  by (cases rest; induction cs) (auto simp: ends_def is_ascii_digit_def)

lemma ends_drop1: "ends rest \<Longrightarrow> cs \<noteq> [] \<Longrightarrow> drop 1 (cs @ rest) = drop 1 cs @ rest"
  by (cases cs) auto

lemma part_lengths:
  "length (int_part cs) \<le> length cs" "length (frac_part cs) \<le> length cs" "length (exp_part cs) \<le> length cs"
proof -
  have w: "length (takeWhile is_ascii_digit (drop k cs)) \<le> length cs - k" for k
    using length_takeWhile_le [of is_ascii_digit "drop k cs"] by simp
  show "length (int_part cs) \<le> length cs"
    using w [of 0] by (cases cs) (auto simp: int_part_def)
  show "length (frac_part cs) \<le> length cs"
    using w [of 1] by (cases cs) (auto simp: frac_part_def)
  show "length (exp_part cs) \<le> length cs"
    using w [of 1] w [of 2] by (cases cs; cases "drop 1 cs") (auto simp: exp_part_def exp_sign_def Let_def)
qed

lemma parts_end:
  assumes "ends rest"
  shows "int_part (cs @ rest) = int_part cs" "frac_part (cs @ rest) = frac_part cs" "exp_part (cs @ rest) = exp_part cs"
proof -
  note take = ends_take [OF assms] and digits = ends_digits [OF assms] and drop = ends_drop1 [OF assms]
  show "int_part (cs @ rest) = int_part cs"
    using take [of 48 cs] digits [of cs] by (simp only: int_part_def) simp
  show "frac_part (cs @ rest) = frac_part cs"
    using take [of 46 cs] digits [of "drop 1 cs"] drop [of cs] by (cases "cs = []") (auto simp: frac_part_def)
  show "exp_part (cs @ rest) = exp_part cs"
  proof (cases "take 1 cs = [101] \<or> take 1 cs = [69]")
    case True
    then have ne: "cs \<noteq> []" by auto
    have sgn: "exp_sign (drop 1 cs @ rest) = exp_sign (drop 1 cs)"
      using take [of 43 "drop 1 cs"] take [of 45 "drop 1 cs"] by (auto simp: exp_sign_def)
    have "length (exp_sign (drop 1 cs)) \<le> length (drop 1 cs)" by (auto simp: exp_sign_def)
    then have "takeWhile is_ascii_digit (drop (length (exp_sign (drop 1 cs))) (drop 1 cs @ rest))
        = takeWhile is_ascii_digit (drop (length (exp_sign (drop 1 cs))) (drop 1 cs))"
      using digits by simp
    moreover have "take 1 (cs @ rest) = take 1 cs" using ne by (cases cs) auto
    ultimately show ?thesis using True sgn unfolding exp_part_def Let_def drop [OF ne] by presburger
  next
    case False
    with take [of 101 cs] take [of 69 cs] show ?thesis by (simp add: exp_part_def)
  qed
qed

lemma scan_number_ends:
  assumes "ends rest"
  shows "scan_number (cs @ rest) = map_option (\<lambda>(j, r). (j, r @ rest)) (scan_number cs)"
proof -
  define k where "k = length (if take 1 cs = [45] then [45 :: nat] else [])"
  have sgn: "(if take 1 (cs @ rest) = [45] then [45] else []) = (if take 1 cs = [45] then [45 :: nat] else [])"
    using ends_take [OF assms, of 45 cs] by simp
  have k: "k \<le> length cs" by (cases cs) (simp_all add: k_def)
  define r where "r = drop k cs"
  define r1 where "r1 = drop (length (int_part r)) r"
  define r2 where "r2 = drop (length (frac_part r1)) r1"
  have drops: "drop k (cs @ rest) = r @ rest" "drop (length (int_part r)) (r @ rest) = r1 @ rest"
    "drop (length (frac_part r1)) (r1 @ rest) = r2 @ rest"
    "drop (length (exp_part r2)) (r2 @ rest) = drop (length (exp_part r2)) r2 @ rest"
    using k part_lengths(1) [of r] part_lengths(2) [of r1] part_lengths(3) [of r2]
    unfolding r_def [symmetric] r1_def [symmetric] r2_def [symmetric] by (simp_all add: r_def [symmetric] r1_def [symmetric] r2_def [symmetric])
  show ?thesis
    unfolding scan_number_def Let_def sgn k_def [symmetric] drops parts_end [OF assms] r_def [symmetric]
      r1_def [symmetric] r2_def [symmetric]
    by simp
qed

lemma digits_start: "0 < n \<Longrightarrow> take 1 (digits n) \<noteq> [48]"
proof (induction n rule: digits.induct)
  case (1 n)
  show ?case
  proof (cases "n < 10")
    case False
    with 1 have "take 1 (digits (n div 10)) \<noteq> [48]" by simp
    with False digits_nonempty [of "n div 10"] show ?thesis
      by (cases "digits (n div 10)") (simp_all add: digits.simps [of n])
  qed (use 1 in \<open>simp add: digits.simps [of n]\<close>)
qed

lemma int_part_digits: "int_part (digits n) = digits n"
proof (cases "n = 0")
  case False
  then have "take 1 (digits n) \<noteq> [48]" using digits_start by simp
  moreover have "takeWhile is_ascii_digit (digits n) = digits n"
    using digits_ascii [of n] by (simp add: takeWhile_eq_all_conv list_all_iff)
  ultimately show ?thesis by (simp add: int_part_def)
qed (simp add: int_part_def digits.simps [of 0])

lemma scan_whole:
  assumes "int_part ds = ds" "ds \<noteq> []" "take 1 ds \<noteq> [45]" "length ds \<le> 4300"
  shows "scan_number ds = Some (JInt (int (decimal ds)), [])"
    and "scan_number (45 # ds) = Some (JInt (- int (decimal ds)), [])"
proof -
  have nil: "frac_part [] = []" "exp_part [] = []" by (simp_all add: frac_part_def exp_part_def)
  have len: "(4300 < length ds) = False" using assms(4) by simp
  have sgn: "(if take 1 ds = [45] then [45] else []) = ([] :: nat list)"
    "(if take 1 (45 # ds) = [45] then [45] else []) = [45 :: nat]" using assms(3) by simp_all
  show "scan_number ds = Some (JInt (int (decimal ds)), [])"
    unfolding scan_number_def Let_def sgn list.size(3) drop_0 assms(1) drop_all [OF order.refl] nil len using assms(2) by simp
  have drop: "drop (length [45 :: nat]) (45 # ds) = ds" by simp
  show "scan_number (45 # ds) = Some (JInt (- int (decimal ds)), [])"
    unfolding scan_number_def Let_def sgn drop list.size(3) drop_0 assms(1) drop_all [OF order.refl] nil len using assms(2) by simp
qed

lemma scan_dumps_int:
  assumes "dumps_int i = Some t" and "ends rest"
  shows "scan_number (t @ rest) = Some (JInt i, rest)"
proof -
  let ?ds = "digits (nat \<bar>i\<bar>)"
  from assms(1) have t: "t = (if i < 0 then 45 # ?ds else ?ds)" and len: "length ?ds \<le> 4300"
    unfolding dumps_int_def Let_def by (metis option.distinct(1) option.inject linorder_not_less)+
  have "take 1 ?ds \<noteq> [45]"
    using digits_ascii [of "nat \<bar>i\<bar>"] digits_nonempty [of "nat \<bar>i\<bar>"]
    by (cases ?ds) (auto simp: is_ascii_digit_def)
  note whole = scan_whole [OF int_part_digits digits_nonempty this len, unfolded decimal_digits]
  have "scan_number t = Some (JInt i, [])"
    by (cases "i < 0") (simp_all only: t whole if_True if_False, simp_all)
  then show ?thesis by (simp add: scan_number_ends [OF assms(2)])
qed

text \<open>A number's text starts with a digit, or with a minus and a digit.\<close>

lemma scan_number_start:
  assumes "scan_number cs \<noteq> None"
  obtains (plain) c r where "cs = c # r" "is_ascii_digit c" | (minus) c r where "cs = 45 # c # r" "is_ascii_digit c"
proof -
  have start: "\<exists>c r. x = c # r \<and> is_ascii_digit c" if "int_part x \<noteq> []" for x
    using that by (cases x) (auto simp: int_part_def is_ascii_digit_def split: if_splits)
  define r where "r = drop (length (if take 1 cs = [45] then [45 :: nat] else [])) cs"
  from assms have "int_part r \<noteq> []" unfolding scan_number_def Let_def r_def by (auto split: if_splits)
  then obtain c q where "r = c # q" "is_ascii_digit c" using start by blast
  then show thesis using plain minus by (cases cs) (auto simp: r_def split: if_splits)
qed

lemma scan_number_no_constant:
  assumes "scan_number cs \<noteq> None"
  shows "scan_constant rd cs = None"
  using assms by (rule scan_number_start) (auto simp: scan_constant_def constants_def lit_def is_ascii_digit_def)

section \<open>Values\<close>

text \<open>The reader builds the object it has read, where no key is repeated.\<close>

definition faithful :: "reader \<Rightarrow> bool" where
  "faithful rd \<longleftrightarrow> (\<forall>items. distinct (map fst items) \<longrightarrow> rd_object rd items = Some (JObj items))"

definition starts_value :: "nat list \<Rightarrow> bool" where
  "starts_value t \<longleftrightarrow> (\<exists>c r. t = c # r \<and> \<not> is_ws c \<and> c \<notin> {44, 93, 125})"

lemma starts_value_Cons [simp]: "starts_value (c # r) \<longleftrightarrow> \<not> is_ws c \<and> c \<notin> {44, 93, 125}"
  by (simp add: starts_value_def)

lemma starts_value_take: "starts_value t \<Longrightarrow> take 1 t \<noteq> [93]"
  by (auto simp: starts_value_def)

lemma starts_value_append: "starts_value t \<Longrightarrow> starts_value (t @ rest)"
  by (auto simp: starts_value_def)

lemma starts_value_number: "scan_number cs \<noteq> None \<Longrightarrow> starts_value cs"
  by (erule scan_number_start) (auto simp: is_ws_def is_ascii_digit_def)

lemma skip_ws_start [simp]: "starts_value t \<Longrightarrow> skip_ws t = t"
  by (auto simp: starts_value_def skip_ws_def)

lemma skip_ws_stays [simp]: "\<not> is_ws c \<Longrightarrow> skip_ws (c # r) = c # r"
  by (simp add: skip_ws_def)

lemma not_ws [simp]: "\<not> is_ws 44" "\<not> is_ws 58" "\<not> is_ws 93" "\<not> is_ws 125" "\<not> is_ws 34" "\<not> is_ws 91" "\<not> is_ws 123"
  by (simp_all add: is_ws_def)

lemma ends_Nil [simp]: "ends []" and ends_Cons [simp]: "ends (c # r) \<longleftrightarrow> c \<in> {44, 93, 125}"
  by (simp_all add: ends_def)

lemma dumps_starts:
  assumes "dumps j = Some t" and "python_json j"
  shows "starts_value t"
proof (cases j)
  case (JInt i)
  with assms scan_dumps_int [of i t "[]"] show ?thesis by (intro starts_value_number) simp
next
  case (JFloat f)
  with assms show ?thesis by (intro starts_value_number) (auto simp: float_text_def split: if_splits)
qed (use assms in \<open>auto simp: lit_def is_ws_def dumps_str_def split: if_splits\<close>)

lemma scan_dumps_number:
  assumes "scan_number t = Some (j, [])" and "ends rest" and "2 * length t \<le> n"
  shows "scan_value rd n d (t @ rest) = Inr (j, rest)"
proof -
  have num: "scan_number (t @ rest) = Some (j, rest)" using assms by (simp add: scan_number_ends)
  then have "scan_constant rd (t @ rest) = None" by (simp add: scan_number_no_constant)
  moreover have "t \<noteq> []" using starts_value_number [of t] assms(1) by (auto simp: starts_value_def)
  then obtain m where "n = Suc m" using assms(3) by (cases n) auto
  moreover from num have "scan_number (t @ rest) \<noteq> None" by simp
  then obtain c r where "t @ rest = c # r" "c \<notin> {34, 91, 123}"
    by (rule scan_number_start) (auto simp: is_ascii_digit_def)
  ultimately show ?thesis using num by (simp add: scanned_def)
qed

lemma scan_dumps_constant:
  assumes "(t, j) \<in> {(''null'', JNull), (''true'', JBool True), (''false'', JBool False)}" and "0 < n"
  shows "scan_value rd n d (codes (lit t) @ rest) = Inr (j, rest)"
proof -
  obtain m where "n = Suc m" using assms(2) gr0_implies_Suc by blast
  with assms(1) show ?thesis by (auto simp: scan_constant_def constants_def lit_def)
qed

lemma dumps_list_starts:
  "dumps_list vs = Some t \<Longrightarrow> list_all python_json vs \<Longrightarrow> vs \<noteq> [] \<Longrightarrow> starts_value t"
  by (cases vs) (auto split: option.splits simp: starts_value_append dumps_starts)

lemma dumps_items_starts: "dumps_items items = Some t \<Longrightarrow> items \<noteq> [] \<Longrightarrow> \<exists>r. t = 34 # r"
  by (cases items) (auto split: option.splits simp: dumps_str_def)

lemma dumps_list_Cons:
  "dumps_list (v # vs) = Some t \<longleftrightarrow>
     (\<exists>a b. dumps v = Some a \<and> dumps_list vs = Some b \<and> t = a @ (if vs = [] then [] else 44 # b))"
  by (auto split: option.splits)

lemma dumps_items_Cons:
  "dumps_items ((k, v) # items) = Some t \<longleftrightarrow>
     (\<exists>a b. dumps v = Some a \<and> dumps_items items = Some b
        \<and> t = dumps_str k @ 58 # a @ (if items = [] then [] else 44 # b))"
  by (auto split: option.splits)

lemma scan_dumps_str: "plain_text (codes k) \<Longrightarrow> scan_string (drop 1 (dumps_str k @ rest)) = Some (codes k, rest)"
  using scan_escape [of "codes k" rest] by (simp add: dumps_str_def)

lemma scan_dumps:
  assumes "faithful rd"
  shows
    "dumps j = Some t \<Longrightarrow> python_json j \<Longrightarrow> nested d j \<Longrightarrow> ends rest \<Longrightarrow> 2 * length t \<le> n \<Longrightarrow>
      scan_value rd n d (t @ rest) = Inr (j, rest)"
    "dumps_list vs = Some t \<Longrightarrow> vs \<noteq> [] \<Longrightarrow> list_all python_json vs \<Longrightarrow> list_all (nested d) vs \<Longrightarrow>
      2 * length t + 1 \<le> n \<Longrightarrow> scan_elements rd n d (t @ 93 # rest) = Inr (vs, rest)"
    "dumps_items items = Some t \<Longrightarrow> items \<noteq> [] \<Longrightarrow>
      list_all (\<lambda>(k, v). plain_text (codes k) \<and> python_json v) items \<Longrightarrow> list_all (\<lambda>(_, v). nested d v) items \<Longrightarrow>
      2 * length t + 1 \<le> n \<Longrightarrow> scan_items rd n d (t @ 125 # rest) = Inr (items, rest)"
proof (induction j and vs and items arbitrary: t d rest n and t d rest n and t d rest n
    rule: dumps_dumps_list_dumps_items.induct)
  case 1
  then show ?case using scan_dumps_constant [of "''null''" JNull n] by (auto simp: lit_def)
next
  case (2 b)
  then show ?case
    using scan_dumps_constant [of "''true''" "JBool True" n] scan_dumps_constant [of "''false''" "JBool False" n]
    by (cases b) (auto simp: lit_def)
next
  case (3 i)
  then have num: "scan_number t = Some (JInt i, [])" using scan_dumps_int [of i t "[]"] by simp
  with 3 show ?case by (intro scan_dumps_number)
next
  case (4 f)
  then have "scan_number t = Some (JFloat f, [])" by (auto simp: float_text_def split: if_splits)
  with 4 show ?case by (intro scan_dumps_number)
next
  case (5 s)
  then obtain m where "n = Suc m" by (cases n) (auto simp: dumps_str_def)
  with 5 scan_dumps_str [of s rest] show ?case by (auto simp: dumps_str_def scanned_def)
next
  case (6 vs)
  then obtain b where b: "dumps_list vs = Some b" and t: "t = 91 # b @ [93]" by auto
  with 6 obtain m where n: "n = Suc m" "2 * length b + 1 \<le> m" by (cases n) auto
  from 6 have d: "0 < d" "list_all python_json vs" "list_all (nested (d - 1)) vs" by auto
  show ?case
  proof (cases "vs = []")
    case False
    have start: "starts_value (b @ 93 # rest)" by (rule starts_value_append [OF dumps_list_starts [OF b d(2) False]])
    then have "take 1 (b @ 93 # rest) \<noteq> [93]" by (rule starts_value_take)
    with 6 b False d n start show ?thesis by (simp add: t)
  qed (use b d t n in auto)
next
  case (7 items)
  then obtain b where b: "dumps_items items = Some b" and t: "t = 123 # b @ [125]" by auto
  with 7 obtain m where n: "n = Suc m" "2 * length b + 1 \<le> m" by (cases n) auto
  from 7 have d: "0 < d" "list_all (\<lambda>(k, v). plain_text (codes k) \<and> python_json v) items"
    "list_all (\<lambda>(_, v). nested (d - 1) v) items" "distinct (map fst items)" by auto
  then have built: "built_object rd (items, rest) = Inr (JObj items, rest)"
    using assms by (simp add: faithful_def built_object_Inr)
  show ?case
  proof (cases "items = []")
    case False
    then obtain r where r: "b @ 125 # rest = 34 # r" using dumps_items_starts [OF b] by auto
    have "scan_items rd m (d - 1) (b @ 125 # rest) = Inr (items, rest)"
      using 7 b False d n by simp
    with d n built r show ?thesis by (simp add: t)
  qed (use b d t n built in auto)
next
  case (9 v vs)
  then obtain a b where a: "dumps v = Some a" and b: "dumps_list vs = Some b"
    and t: "t = a @ (if vs = [] then [] else 44 # b)" unfolding dumps_list_Cons by blast
  from 9 t obtain m where n: "n = Suc m" "2 * length t \<le> m" by (cases n) auto
  let ?tail = "(if vs = [] then [] else 44 # b) @ 93 # rest"
  have v: "scan_value rd m d (a @ ?tail) = Inr (v, ?tail)"
    by (rule "9.IH"(1)) (use 9 a t n in \<open>auto split: if_splits\<close>)
  show ?case
  proof (cases "vs = []")
    case False
    have "starts_value (b @ 93 # rest)"
      by (rule starts_value_append [OF dumps_list_starts [OF b _ False]]) (use 9 in simp)
    moreover have "scan_elements rd m d (b @ 93 # rest) = Inr (vs, rest)"
      by (rule "9.IH"(2)) (use 9 a b t n False in auto)
    ultimately show ?thesis using v False by (simp add: t n)
  qed (use v in \<open>simp add: t n\<close>)
next
  case (11 k v items)
  then obtain a b where a: "dumps v = Some a" and b: "dumps_items items = Some b"
    and t: "t = dumps_str k @ 58 # a @ (if items = [] then [] else 44 # b)" unfolding dumps_items_Cons by blast
  from 11 t obtain m where n: "n = Suc m" "2 * length t \<le> m" by (cases n) auto
  let ?tail = "(if items = [] then [] else 44 # b) @ 125 # rest"
  have v: "scan_value rd m d (a @ ?tail) = Inr (v, ?tail)"
    by (rule "11.IH"(1)) (use 11 a t n in \<open>auto split: if_splits\<close>)
  have start: "starts_value (a @ ?tail)" using 11 a by (intro starts_value_append dumps_starts) auto
  have q: "take 1 (dumps_str k @ 58 # a @ ?tail) = [34]" by (simp add: dumps_str_def)
  have str: "scan_string (drop 1 (dumps_str k @ 58 # a @ ?tail)) = Some (codes k, 58 # a @ ?tail)"
    by (rule scan_dumps_str) (use 11 in simp)
  show ?case
  proof (cases "items = []")
    case False
    obtain r where r: "b @ 125 # rest = 34 # r" using dumps_items_starts [OF b False] by auto
    have "scan_items rd m d (b @ 125 # rest) = Inr (items, rest)"
      by (rule "11.IH"(2)) (use 11 a b t n False in auto)
    with v start q str False r show ?thesis by (simp add: t n scanned_def)
  next
    case True
    with v start q str show ?thesis by (simp add: t n scanned_def)
  qed
qed auto

theorem loads_dumps:
  assumes "faithful rd" "dumps j = Some t" "python_json j" "nested limit j"
  shows "loads rd limit t = Inr j"
proof -
  have "skip_ws t = t" using dumps_starts [OF assms(2,3)] by simp
  moreover have "scan_value rd (2 * length t + 2) limit (t @ []) = Inr (j, [])"
    by (rule scan_dumps(1) [OF assms]) simp_all
  ultimately show ?thesis by (simp add: loads_def skip_ws_def)
qed

section \<open>Printable text\<close>

definition printable_ascii :: "nat list \<Rightarrow> bool" where
  "printable_ascii cs \<longleftrightarrow> list_all (\<lambda>c. 32 \<le> c \<and> c \<le> 126) cs"

lemma printable_escape:
  assumes "c < 0x110000" and "x \<in> set (escape_char c)"
  shows "32 \<le> x \<and> x \<le> 126"
proof -
  have hex: "32 \<le> hex_char (n mod 16) \<and> hex_char (n mod 16) \<le> 126" for n
  proof -
    have "n mod 16 < 16" by simp
    then show ?thesis by (auto simp: hex_char_def)
  qed
  have u: "x \<in> set (u_escape e) \<Longrightarrow> 32 \<le> x \<and> x \<le> 126" for e
    using hex [of e] hex [of "e div 16"] hex [of "e div 256"] hex [of "e div 4096"] by (auto simp: u_escape_def)
  show ?thesis using assms(2) u by (auto simp: escape_char_def split: if_splits)
qed

lemma printable_simps [simp]:
  "printable_ascii []" "printable_ascii (c # cs) \<longleftrightarrow> 32 \<le> c \<and> c \<le> 126 \<and> printable_ascii cs"
  "printable_ascii (xs @ ys) \<longleftrightarrow> printable_ascii xs \<and> printable_ascii ys"
  by (auto simp: printable_ascii_def)

lemma printable_dumps_str: "plain_text (codes s) \<Longrightarrow> printable_ascii (dumps_str s)"
  using printable_escape by (auto simp: dumps_str_def plain_text_def printable_ascii_def list_all_iff)

lemma printable_digits: "printable_ascii (digits n)"
  using digits_ascii [of n] by (auto simp: printable_ascii_def is_ascii_digit_def list_all_iff)

lemma float_shape:
  assumes "scan_number cs = Some (JFloat t, rest)"
  shows "\<exists>sgn a b c. sgn \<in> {[], [45]} \<and> int_part a \<noteq> [] \<and> t = Str (sgn @ int_part a @ frac_part b @ exp_part c)"
  using assms unfolding scan_number_def Let_def by (simp split: if_splits) (metis append_Nil append_Cons)+

lemma printable_float: "float_text t \<Longrightarrow> printable_ascii (codes t)"
proof -
  have ds: "printable_ascii (takeWhile is_ascii_digit cs)" for cs
    by (auto simp: printable_ascii_def list_all_iff is_ascii_digit_def dest: set_takeWhileD)
  have parts: "printable_ascii (int_part cs)" "printable_ascii (frac_part cs)" "printable_ascii (exp_part cs)" for cs
    using ds by (auto simp: int_part_def frac_part_def exp_part_def exp_sign_def Let_def)
  assume "float_text t"
  then obtain sgn a b c where "sgn \<in> {[], [45]}" "t = Str (sgn @ int_part a @ frac_part b @ exp_part c)"
    using float_shape [of "codes t" t "[]"] unfolding float_text_def by metis
  then show ?thesis using parts by auto
qed

lemma printable_dumps:
  "dumps j = Some t \<Longrightarrow> python_json j \<Longrightarrow> printable_ascii t"
  "dumps_list vs = Some t \<Longrightarrow> list_all python_json vs \<Longrightarrow> printable_ascii t"
  "dumps_items items = Some t \<Longrightarrow> list_all (\<lambda>(k, v). plain_text (codes k) \<and> python_json v) items \<Longrightarrow> printable_ascii t"
proof (induction j and vs and items arbitrary: t and t and t rule: dumps_dumps_list_dumps_items.induct)
  case (9 v vs)
  from "9.prems"(1) obtain a b where "dumps v = Some a" "dumps_list vs = Some b"
    "t = a @ (if vs = [] then [] else 44 # b)" unfolding dumps_list_Cons by blast
  with 9 show ?case by simp
next
  case (11 k v items)
  from "11.prems"(1) obtain a b where "dumps v = Some a" "dumps_items items = Some b"
    "t = dumps_str k @ 58 # a @ (if items = [] then [] else 44 # b)" unfolding dumps_items_Cons by blast
  with 11 show ?case by (simp add: printable_dumps_str)
qed (auto simp: lit_def dumps_int_def Let_def printable_digits printable_dumps_str printable_float split: if_splits)

section \<open>A sample\<close>

text \<open>A large integer, a text with a control character and one outside the BMP, a float.\<close>

definition sample_object :: "(pystr \<times> json) list" where
  "sample_object = [(lit ''n'', JInt 18446744073709551617), (lit ''t'', JStr (Str [97, 10, 0x1F600, 34])),
     (lit ''l'', JArr [JFloat (lit ''-1.5e-07''), JBool True, JNull, JObj []])]"

lemma sample_survives: "python_json (JObj sample_object)" "nested 3 (JObj sample_object)"
proof -
  have "float_text (lit ''-1.5e-07'')" by code_simp
  then show "python_json (JObj sample_object)" "nested 3 (JObj sample_object)"
    by (simp_all add: sample_object_def lit_def plain_text_def is_high_def is_low_def)
qed

lemma sample_printed: "\<exists>t. dumps (JObj sample_object) = Some t"
proof -
  have "length (digits 18446744073709551617) \<le> 4300"
    by (simp add: digits.simps [of "numeral k" for k] digits.simps [of "Suc 0"])
  then show ?thesis
    by (simp add: sample_object_def dumps_int_def finite_float_def lit_def)
qed

end
