(* ===== verification/Json_Hooks.thy ===== *)
theory Json_Hooks
  imports Json_Roundtrip Revision Ds_Call "HOL-Library.AList"
begin

text \<open>
  \<open>json.loads\<close> with the hooks the SDK passes: \<open>_json_object\<close> of \<open>datasource.py\<close>, whose
  objects are dicts and which refuses the constants, and \<open>_decode\<close> of
  \<open>authorization_revision.py\<close>, which also refuses an object that repeats a key. What they
  raise, that an invocation's input is read back as it was given, and that the hooks refuse
  exactly what a check of the finished value refuses.
\<close>

section \<open>_json_object\<close>

text \<open>\<open>dict(pairs)\<close>: a repeated key keeps its place and takes the last value.\<close>

definition as_dict :: "dict \<Rightarrow> dict" where
  "as_dict items = foldl (\<lambda>d (k, v). AList.update k v d) [] items"

definition dict_reader :: reader where
  "dict_reader = \<lparr>rd_constants = False, rd_object = (\<lambda>items. Some (JObj (as_dict items)))\<rparr>"

text \<open>\<open>JSONDecodeError\<close>, the \<open>ValueError\<close> of \<open>reject_constant\<close> and of an integer of more than
  4300 digits are one class here.\<close>

definition raised_as :: "json_error \<Rightarrow> py_exn" where
  "raised_as e = (case e of Malformed \<Rightarrow> ValueErr | TooDeep \<Rightarrow> RecursionErr | OutOfFuel \<Rightarrow> OtherErr)"

definition object_loads :: "nat \<Rightarrow> pystr \<Rightarrow> py_exn + json" where
  "object_loads limit t = (case loads dict_reader limit (codes t) of Inl e \<Rightarrow> Inl (raised_as e) | Inr j \<Rightarrow> Inr j)"

lemma object_loads_Inr: "object_loads limit t = Inr j \<longleftrightarrow> loads dict_reader limit (codes t) = Inr j"
  by (simp add: object_loads_def split: sum.split)

lemma object_loads_Inl:
  assumes "object_loads limit t = Inl e"
  shows "e = ValueErr \<or> e = RecursionErr \<and> limit < openings (codes t)"
proof (cases "loads dict_reader limit (codes t)")
  case (Inl m)
  with assms loads_fuel [of dict_reader limit "codes t"] loads_depth [of dict_reader limit "codes t"]
  show ?thesis by (cases m) (auto simp: object_loads_def raised_as_def)
qed (use assms in \<open>simp add: object_loads_def\<close>)

lemma distinct_update: "distinct (map fst d) \<Longrightarrow> distinct (map fst (AList.update k v d))"
  by (rule distinct_update)

lemma as_dict_append: "as_dict (xs @ ys) = foldl (\<lambda>d (k, v). AList.update k v d) (as_dict xs) ys"
  by (simp add: as_dict_def)

lemma as_dict_snoc [simp]: "as_dict (xs @ [(k, v)]) = AList.update k v (as_dict xs)"
  by (simp add: as_dict_def)

lemma as_dict_distinct: "distinct (map fst (as_dict items))"
proof (induction items rule: rev_induct)
  case (snoc x xs)
  then show ?case by (cases x) (simp add: distinct_update)
qed (simp add: as_dict_def)




text \<open>Only \<open>rd_object\<close> makes an object.\<close>

lemma scan_value_object:
  assumes "scan_value rd n d cs = Inr (JObj items, rest)"
  shows "\<exists>pairs. rd_object rd pairs = Some (JObj items)"
proof (cases n)
  case (Suc m)
  have const: "scan_constant rd cs \<noteq> Some (JObj items, r)" for r
    by (auto simp: constants_def elim!: scan_constant_Some split: if_splits)
  have num: "scan_number cs \<noteq> Some (JObj items, r)" for r
    by (auto simp: scan_number_def Let_def)
  obtain c r where cs: "cs = c # r" using assms Suc by (cases cs) auto
  consider "c = 34" | "c = 123" | "c = 91" | "c \<notin> {34, 123, 91}" by blast
  then show ?thesis
    by cases (use assms Suc cs const num in \<open>auto simp: bindR_Inr scanned_Inr built_object_Inr split: if_splits option.splits\<close>)
qed (use assms in simp)

lemma object_loads_distinct:
  assumes "object_loads limit t = Inr (JObj d)"
  shows "distinct (map fst d)"
proof -
  from assms obtain rest where "scan_value dict_reader (2 * length (codes t) + 2) limit (skip_ws (codes t)) = Inr (JObj d, rest)"
    unfolding object_loads_Inr loads_Inr by blast
  from scan_value_object [OF this] show ?thesis by (auto simp: dict_reader_def as_dict_distinct)
qed

text \<open>C13: reading an output ends on every text: \<open>_json_object\<close> returns a dict, in which no
  key is repeated, or raises \<open>TypeError\<close> or \<open>ValueError\<close>, and \<open>RecursionError\<close> only for a
  text with more opening brackets than the interpreter's limit.\<close>

theorem json_object_total:
  "case json_object (object_loads limit) v of
     Inr d \<Rightarrow> distinct (map fst d)
   | Inl e \<Rightarrow> e \<in> {TypeErr, ValueErr} \<or> (\<exists>t. v = JStr t \<and> e = RecursionErr \<and> limit < openings (codes t))"
proof (cases v)
  case (JStr t)
  then show ?thesis
  proof (cases "object_loads limit t")
    case (Inl e)
    with object_loads_Inl [OF Inl] JStr show ?thesis by (auto simp: json_object_def)
  next
    case (Inr j)
    with JStr object_loads_distinct show ?thesis by (cases j) (auto simp: json_object_def)
  qed
qed (simp_all add: json_object_def)

text \<open>Outputs with at most as many brackets as the limit are read without \<open>RecursionError\<close>.\<close>

lemma json_object_within:
  assumes "\<And>t. v = JStr t \<Longrightarrow> openings (codes t) \<le> limit"
  shows "raises_only evidence_caught (json_object (object_loads limit) v)"
proof (cases v)
  case (JStr t)
  then have "object_loads limit t = Inl e \<Longrightarrow> e = ValueErr" for e
    using object_loads_Inl [of limit t e] assms [of t] by auto
  with JStr show ?thesis
    by (cases "object_loads limit t") (auto simp: json_object_def evidence_caught_def split: json.split)
qed (simp_all add: json_object_def evidence_caught_def)

lemma object_loads_reads:
  assumes "h_loads host = object_loads limit"
    and "\<And>t. jget d ''output_json'' (JStr (lit [])) = JStr t \<Longrightarrow> openings (codes t) \<le> limit"
    and "\<And>v t. map_of d (lit ''receipt'') = Some (JObj v) \<Longrightarrow> jget v ''output_json'' (JStr (lit [])) = JStr t
      \<Longrightarrow> openings (codes t) \<le> limit"
  shows "reads_outputs host d"
  unfolding reads_outputs_def assms(1)
  using assms(2,3) by (auto intro!: json_object_within split: option.split json.split)

text \<open>The interpreter's \<open>json.loads\<close> raises what is asked of a host, and only an output text
  with more opening brackets than the limit makes a reply a deep one.\<close>

lemma object_loads_raises: "h_loads host = object_loads limit \<Longrightarrow> loads_raises host"
  using object_loads_Inl by (auto simp: loads_raises_def raises_only_def split: sum.splits)

lemma deep_output_brackets:
  assumes "h_loads host = object_loads limit" and "deep_output host call i"
  shows "\<exists>response d j t. h_unary host call = Inr response \<and> h_to_dict host response = Inr d
     \<and> (j = d \<or> map_of d (lit ''receipt'') = Some (JObj j))
     \<and> jget j ''output_json'' (JStr (lit [])) = JStr t \<and> limit < openings (codes t)"
proof -
  have caught: "\<not> evidence_caught RecursionErr" by (simp add: evidence_caught_def)
  from assms(2) obtain response d v where d: "h_unary host call = Inr response" "h_to_dict host response = Inr d"
    and r: "map_of d (lit ''receipt'') = Some (JObj v)"
    and e: "json_object (h_loads host) (jget v ''output_json'' (JStr (lit []))) = Inl RecursionErr
      \<or> json_object (h_loads host) (jget d ''output_json'' (JStr (lit []))) = Inl RecursionErr"
    by (auto simp: deep_output_def read_receipt_Inr bindR_def split: sum.splits)
  have "\<exists>t. j = JStr t \<and> limit < openings (codes t)" if "json_object (h_loads host) j = Inl RecursionErr" for j
    using json_object_within [of j limit] that caught assms(1) by (metis linorder_not_le raises_onlyD)
  with d r e show ?thesis by blast
qed

section \<open>An invocation's input\<close>



section \<open>_decode\<close>

text \<open>\<open>object_pairs_hook=pairs\<close> builds the object unless a key comes twice.\<close>

definition strict_reader :: reader where
  "strict_reader = \<lparr>rd_constants = False,
     rd_object = (\<lambda>items. if distinct (map fst items) then Some (JObj items) else None)\<rparr>"

text \<open>The scanner without the hooks: constants are floats, an object is its items.\<close>

definition raw_reader :: reader where
  "raw_reader = \<lparr>rd_constants = True, rd_object = (\<lambda>items. Some (JObj items))\<rparr>"

lemma scan_number_finite:
  assumes "scan_number cs = Some (j, rest)"
  shows "strict_json j"
proof (cases j)
  case (JFloat t)
  with assms obtain sgn a u where t: "sgn \<in> {[], [45]}" "int_part a \<noteq> []" "t = Str (sgn @ int_part a @ u)"
    using float_shape by blast
  then obtain c r where c: "int_part a = c # r" by (cases "int_part a") auto
  then have "c \<in> set (takeWhile is_ascii_digit a) \<or> c = 48" by (auto simp: int_part_def split: if_splits)
  then have "is_ascii_digit c" by (auto dest: set_takeWhileD simp: is_ascii_digit_def)
  with t c JFloat show ?thesis by (auto simp: finite_float_def lit_def is_ascii_digit_def)
qed (use assms in \<open>auto simp: scan_number_def Let_def split: if_splits\<close>)

lemma find_append: "find P (xs @ ys) = (case find P xs of None \<Rightarrow> find P ys | Some x \<Rightarrow> Some x)"
  by (induction xs) simp_all

lemma scan_constant_raw:
  "scan_constant raw_reader cs = Some (j, rest) \<longleftrightarrow>
     scan_constant strict_reader cs = Some (j, rest)
     \<or> scan_constant strict_reader cs = None \<and> scan_constant raw_reader cs = Some (j, rest) \<and> \<not> strict_json j"
proof -
  let ?found = "\<lambda>(t, _). take (length t) cs = (t :: nat list)"
  let ?extra = "map (\<lambda>t. (codes (lit t), JFloat (lit t))) [''NaN'', ''Infinity'', ''-Infinity'']"
  have raw: "constants raw_reader = constants strict_reader @ ?extra"
    by (simp only: constants_def raw_reader_def strict_reader_def reader.simps if_True if_False append_Nil2 append_assoc)
  have "\<not> strict_json (snd x)" if "find ?found ?extra = Some x" for x
    using that by (auto simp: finite_float_def split: if_splits)
  then show ?thesis
    unfolding scan_constant_def raw find_append
    by (cases "find ?found (constants strict_reader)") (auto simp del: list.map simp: split_beta)
qed

lemma strict_constant: "scan_constant strict_reader cs = Some (j, rest) \<Longrightarrow> strict_json j"
  by (erule scan_constant_Some) (auto simp: constants_def strict_reader_def)

lemma scan_leaf:
  "(case scan_constant strict_reader cs of Some found \<Rightarrow> Inr found | None \<Rightarrow> scanned (scan_number cs)) = Inr (j, rest)
     \<longleftrightarrow> (case scan_constant raw_reader cs of Some found \<Rightarrow> Inr found | None \<Rightarrow> scanned (scan_number cs)) = Inr (j, rest)
         \<and> strict_json j"
proof (cases "scan_constant raw_reader cs")
  case None
  then have "scan_constant strict_reader cs = None"
    using scan_constant_raw [of cs] by (cases "scan_constant strict_reader cs") fastforce+
  with None scan_number_finite show ?thesis by (auto simp: scanned_Inr)
next
  case (Some x)
  then have "scan_number cs = None" using scan_number_no_constant [of cs raw_reader] by fastforce
  then have "scanned (scan_number cs) = Inl Malformed" by (simp add: scanned_def)
  moreover obtain j' r where x: "x = (j', r)" by (cases x)
  ultimately show ?thesis
    using Some scan_constant_raw [of cs j' r] strict_constant [of cs j' r]
    by (cases "scan_constant strict_reader cs") auto
qed

text \<open>Refusing while reading is refusing afterwards.\<close>

lemma strict_object_iff:
  "built_object strict_reader (items, r) = Inr (j, rest) \<and> list_all (\<lambda>(_, v). strict_json v) items
     \<longleftrightarrow> built_object raw_reader (items, r) = Inr (j, rest) \<and> strict_json j"
  by (auto simp: built_object_Inr strict_reader_def raw_reader_def)

lemma strict_scan:
  "scan_value strict_reader n d cs = Inr (j, rest) \<longleftrightarrow> scan_value raw_reader n d cs = Inr (j, rest) \<and> strict_json j"
  "scan_elements strict_reader n d cs = Inr (vs, rest) \<longleftrightarrow>
     scan_elements raw_reader n d cs = Inr (vs, rest) \<and> list_all strict_json vs"
  "scan_items strict_reader n d cs = Inr (items, rest) \<longleftrightarrow>
     scan_items raw_reader n d cs = Inr (items, rest) \<and> list_all (\<lambda>(_, v). strict_json v) items"
proof (induction n arbitrary: d cs j vs items rest)
  case (Suc n)
  {
    case 1
    show ?case
    proof (cases cs)
      case (Cons c r)
      consider "c = 34" | "c = 123" | "c = 91" | "c \<notin> {34, 123, 91}" by blast
      then show ?thesis
      proof cases
        case 1
        then show ?thesis by (auto simp: Cons bindR_Inr scanned_Inr)
      next
        case 2
        have empty: "built_object strict_reader ([], u) = Inr (j, rest)
            \<longleftrightarrow> built_object raw_reader ([], u) = Inr (j, rest) \<and> strict_json j" for u
          using strict_object_iff [of "[]" u j rest] by simp
        show ?thesis
          using strict_object_iff [of _ _ j rest] Suc.IH(3) [of "d - 1" "skip_ws r"]
          by (simp add: Cons 2 bindR_Inr empty) blast
      next
        case 3
        then show ?thesis
          using Suc.IH(2) [of "d - 1" "skip_ws r"] by (auto simp: Cons bindR_Inr)
      next
        case 4
        with scan_leaf [of "c # r" j rest] show ?thesis by (simp add: Cons)
      qed
    qed simp
  next
    case 2
    show ?case unfolding scan_elements_Suc Suc.IH by (cases vs) fastforce+
  next
    case 3
    show ?case unfolding scan_items_Suc Suc.IH by (cases items) fastforce+
  }
qed simp_all

lemma strict_loads: "loads strict_reader limit cs = Inr j \<longleftrightarrow> loads raw_reader limit cs = Inr j \<and> strict_json j"
  unfolding loads_Inr strict_scan by blast

text \<open>
  A body is bytes: \<open>json.loads\<close> detects its encoding and decodes it, a parameter here. What
  \<open>_decode\<close> returns is what the scanner returns with the two hooks.
\<close>

definition revision_loads :: "nat \<Rightarrow> (bytes \<Rightarrow> lib_exn + pystr) \<Rightarrow> bytes \<Rightarrow> lib_exn + json" where
  "revision_loads limit text_of data =
     bindR (text_of data) (\<lambda>t.
       case loads raw_reader limit (codes t) of
         Inl e \<Rightarrow> Inl (if e = Malformed then LibValueError else LibOther) | Inr j \<Rightarrow> Inr j)"

lemma revision_loads_Inr:
  "revision_loads limit text_of data = Inr j \<longleftrightarrow> (\<exists>t. text_of data = Inr t \<and> loads raw_reader limit (codes t) = Inr j)"
proof (cases "text_of data")
  case (Inr t)
  then show ?thesis by (cases "loads raw_reader limit (codes t)") (simp_all add: revision_loads_def)
qed (simp add: revision_loads_def)

lemma decode_hooks:
  "decode (revision_loads limit text_of) data = Inr j \<longleftrightarrow>
     (\<exists>t. text_of data = Inr t \<and> loads strict_reader limit (codes t) = Inr j)"
  unfolding decode_Inr revision_loads_Inr strict_loads by blast

text \<open>The texts of the empty object.\<close>

definition empty_object_text :: "nat list \<Rightarrow> bool" where
  "empty_object_text cs \<longleftrightarrow> (\<exists>x y z. cs = x @ 123 # y @ 125 # z \<and> list_all is_ws (x @ y @ z))"

lemma scan_items_nonempty: "scan_items rd n d cs \<noteq> Inr ([], rest)"
  by (cases n) (auto simp: scan_items_Suc simp del: scan_items.simps(2))

lemma skip_ws_pad: "list_all is_ws x \<Longrightarrow> \<not> is_ws c \<Longrightarrow> skip_ws (x @ c # r) = c # r"
  by (induction x) (simp_all add: skip_ws_def)

lemma skip_ws_split:
  assumes "skip_ws cs = r"
  obtains x where "cs = x @ r" "list_all is_ws x"
  by (rule that [of "takeWhile is_ws cs"])
    (use assms in \<open>auto simp: skip_ws_def list_all_iff dest: set_takeWhileD\<close>)

lemma loads_empty_object:
  assumes "0 < limit"
  shows "loads strict_reader limit cs = Inr (JObj []) \<longleftrightarrow> empty_object_text cs"
proof
  assume "loads strict_reader limit cs = Inr (JObj [])"
  then obtain n rest where v: "scan_value strict_reader (Suc n) limit (skip_ws cs) = Inr (JObj [], rest)"
    and over: "skip_ws rest = []" unfolding loads_Inr by (metis add_2_eq_Suc')
  then obtain c r where c: "skip_ws cs = c # r" by (cases "skip_ws cs") auto
  have leaf: "scan_constant strict_reader (c # r) \<noteq> Some (JObj [], u)" "scan_number (c # r) \<noteq> Some (JObj [], u)" for u
    by (auto simp: constants_def strict_reader_def scan_number_def Let_def elim!: scan_constant_Some)
  have "c = 123 \<and> take 1 (skip_ws r) = [125] \<and> rest = drop 1 (skip_ws r)"
    using v leaf scan_items_nonempty
    by (auto simp: c bindR_Inr scanned_Inr built_object_Inr strict_reader_def split: if_splits option.splits)
  then have "skip_ws cs = 123 # r" "skip_ws r = 125 # rest" using c by (cases "skip_ws r"; simp)+
  with over show "empty_object_text cs"
    unfolding empty_object_text_def by (metis skip_ws_split append_Nil2 list_all_append)
next
  assume "empty_object_text cs"
  then obtain x y z where cs: "cs = x @ 123 # y @ 125 # z" and ws: "list_all is_ws x" "list_all is_ws y" "list_all is_ws z"
    by (auto simp: empty_object_text_def)
  have "skip_ws z = []" using ws(3) by (simp add: skip_ws_def list_all_iff)
  then show "loads strict_reader limit cs = Inr (JObj [])"
    using assms ws by (simp add: loads_def cs skip_ws_pad built_object_def strict_reader_def)
qed

lemma confirmed_iff:
  assumes "0 < depth" and "ce_json_loads env = revision_loads depth text_of"
  shows "snd (connect_check env limit p c) = Inr () \<longleftrightarrow>
    (\<exists>q r t. limit = None \<and> connect_prepare env limit p c = Inr q \<and> ce_send env q = Inr r \<and> cr_status r = 200
       \<and> cr_close r = None \<and> cr_parts_end r = None
       \<and> fst (split_once 59 (case cr_content_type r of None \<Rightarrow> Str [] | Some t \<Rightarrow> t)) = lit ''application/json''
       \<and> cr_content_encoding r \<in> {None, Some (lit ''identity'')} \<and> length (concat (cr_parts r)) \<le> 8192
       \<and> text_of (concat (cr_parts r)) = Inr t \<and> empty_object_text (codes t))"
proof -
  have "revision_loads depth text_of data = Inr (JObj []) \<longleftrightarrow> (\<exists>t. text_of data = Inr t \<and> empty_object_text (codes t))" for data
    using decode_hooks [of depth text_of data "JObj []"] loads_empty_object [OF assms(1)] by (simp add: decode_Inr)
  then show ?thesis
    unfolding connect_check_result connect_confirms_def connect_exchange_def answered_def assms(2) by auto
qed

text \<open>C12: with the scanner and the hooks of \<open>_decode\<close> in place, a Connect check confirms the
  authority exactly when the request was sent in time and answered with status 200, an
  uncompressed JSON body of at most 8192 bytes and a text that is \<open>{}\<close> up to white space: no
  other document, no duplicate key and no constant is taken for a confirmation.\<close>

theorem confirmation_body:
  assumes "0 < depth" and "ce_json_loads env = revision_loads depth text_of"
  shows "snd (connect_check env limit p c) = Inr () \<longleftrightarrow>
    (\<exists>q r t. limit = None \<and> connect_prepare env limit p c = Inr q \<and> ce_send env q = Inr r \<and> cr_status r = 200
       \<and> cr_close r = None \<and> cr_parts_end r = None
       \<and> fst (split_once 59 (case cr_content_type r of None \<Rightarrow> Str [] | Some t \<Rightarrow> t)) = lit ''application/json''
       \<and> cr_content_encoding r \<in> {None, Some (lit ''identity'')} \<and> length (concat (cr_parts r)) \<le> 8192
       \<and> text_of (concat (cr_parts r)) = Inr t \<and> empty_object_text (codes t))"
  using assms by (rule confirmed_iff)

text \<open>A service that confirms what it is asked.\<close>

definition confirming_env :: connect_env where
  "confirming_env = unreachable_env\<lparr>ce_send := (\<lambda>_. Inr \<lparr>cr_status = 200, cr_content_type = Some (lit ''application/json''),
       cr_content_encoding = None, cr_parts = [[123], [10, 125]], cr_parts_end = None, cr_close = None\<rparr>),
     ce_json_loads := revision_loads 9 (\<lambda>data. Inr (Str (map unat data)))\<rparr>"

lemma confirming_loads:
  "0 < (9 :: nat)" "ce_json_loads confirming_env = revision_loads 9 (\<lambda>data. Inr (Str (map unat data)))"
  by (simp_all add: confirming_env_def)

lemma confirming_prepare:
  assumes "revision_request (ce_pb confirming_env) c = Inr rq"
  shows "\<exists>q. connect_prepare confirming_env None (Provided (Some (lit ''t''))) c = Inr q"
proof -
  have "header_token (lit ''t'')" by (simp add: header_token_def)
  then have "internal_credential (Provided (Some (lit ''t''))) = Inr (lit ''t'')" by (simp add: internal_credential_Inr)
  with assms show ?thesis
    by (simp add: connect_prepare_def interrupted_def) (simp add: lifted_def confirming_env_def unreachable_env_def)
qed

lemma confirming_text: "empty_object_text [123, 10, 125]"
  unfolding empty_object_text_def by (intro exI [of _ "[]"] exI [of _ "[10]"]) (simp add: is_ws_def)

lemma confirming_check:
  assumes "revision_request (ce_pb confirming_env) c = Inr rq"
  shows "snd (connect_check confirming_env None (Provided (Some (lit ''t''))) c) = Inr ()"
  unfolding confirmed_iff [OF confirming_loads]
  using confirming_prepare [OF assms] confirming_text by (auto simp: confirming_env_def split_once_def lit_def)

theorem confirmation_body_witness:
  "snd (connect_check confirming_env None (Provided (Some (lit ''t''))) any_claims) = Inr ()"
proof -
  have "revision_request (ce_pb confirming_env) any_claims = Inr (request_of any_claims)"
    unfolding revision_request_Inr by (simp add: confirming_env_def unreachable_env_def any_claims_def subjects_of_def)
  from confirmation_body [OF confirming_loads, of None "Provided (Some (lit ''t''))" any_claims]
    confirming_prepare [OF this] confirming_text show ?thesis
    by (auto simp: confirming_env_def split_once_def lit_def)
qed

end
