(* ===== verification/Strip_Options.thy ===== *)
theory Strip_Options
  imports Py_Prelude "HOL-Library.AList"
begin

text \<open>
  \<open>scripts/strip_options.py\<close>: the build step that turns a buf image into the one the
  message bindings are generated from. Descriptors keep the fields the script reads; what it
  carries through is of an arbitrary type \<open>'x\<close>. The dictionary \<open>stripped\<close> is an
  association list in insertion order. Reading, parsing and writing the image are not
  modelled.
\<close>

section \<open>Descriptors\<close>

text \<open>A descriptor whose only part the script touches is its options: fields, methods, oneofs,
  enum values, extensions.\<close>

record 'x leaf =
  lf_rest :: 'x
  lf_options :: "'x option"

record 'x enum_proto =
  en_rest :: 'x
  en_options :: "'x option"
  en_values :: "'x leaf list"

record 'x service_proto =
  sv_rest :: 'x
  sv_options :: "'x option"
  sv_methods :: "'x leaf list"

datatype 'x message_proto = Message
  (ms_rest: 'x) (ms_options: "'x option") (ms_fields: "'x leaf list") (ms_nested: "'x message_proto list")
  (ms_enums: "'x enum_proto list") (ms_oneofs: "'x leaf list") (ms_extensions: "'x leaf list")

record 'x file_proto =
  fd_name :: pystr
  fd_dependency :: "pystr list"
  fd_public :: "nat list"
  fd_weak :: "nat list"
  fd_messages :: "'x message_proto list"
  fd_enums :: "'x enum_proto list"
  fd_services :: "'x service_proto list"
  fd_options :: "'x option"
  fd_rest :: 'x

section \<open>The steps\<close>

definition starts_with :: "pystr \<Rightarrow> pystr \<Rightarrow> bool" where
  "starts_with s p \<longleftrightarrow> take (length (codes p)) (codes s) = codes p"

definition DROP_DEP_PREFIXES :: "pystr list" where
  "DROP_DEP_PREFIXES = map lit [''buf/validate/'', ''saas/policy/'', ''google/api/'', ''codefly/runnable/'']"

definition clear_leaf :: "'x leaf \<Rightarrow> 'x leaf" where
  "clear_leaf l = l\<lparr>lf_options := None\<rparr>"

definition clear_enum :: "'x enum_proto \<Rightarrow> 'x enum_proto" where
  "clear_enum e = e\<lparr>en_options := None\<rparr>"

fun clear_message :: "'x message_proto \<Rightarrow> 'x message_proto" where
  "clear_message (Message rest options fs nested enums oneofs exts) =
     Message rest None (map clear_leaf fs) (map clear_message nested) (map clear_enum enums) oneofs exts"

definition clear_service :: "'x service_proto \<Rightarrow> 'x service_proto" where
  "clear_service s = s\<lparr>sv_options := None, sv_methods := map clear_leaf (sv_methods s)\<rparr>"

definition strip :: "'x file_proto \<Rightarrow> 'x file_proto" where
  "strip f = f\<lparr>fd_dependency := filter (\<lambda>d. \<not> list_ex (starts_with d) DROP_DEP_PREFIXES) (fd_dependency f),
     fd_public := [], fd_weak := [], fd_messages := map clear_message (fd_messages f),
     fd_enums := map clear_enum (fd_enums f), fd_services := map clear_service (fd_services f)\<rparr>"

definition basename :: "pystr \<Rightarrow> pystr" where
  "basename s = Str (rev (takeWhile (\<lambda>c. c \<noteq> 47) (rev (codes s))))"

definition local_name :: "pystr \<Rightarrow> pystr" where
  "local_name name = Str (codes (lit ''saas_sdk/_gen/'') @ codes (basename name))"

definition is_wkt :: "pystr \<Rightarrow> bool" where
  "is_wkt d \<longleftrightarrow> starts_with d (lit ''google/protobuf/'')"

text \<open>The first loop: the targets, stripped, by name, and the well-known types they name.\<close>

fun collect :: "pystr set \<Rightarrow> 'x file_proto list \<Rightarrow> (pystr \<times> 'x file_proto) list \<Rightarrow> pystr set
    \<Rightarrow> (pystr \<times> 'x file_proto) list \<times> pystr set" where
  "collect targets [] stripped needed = (stripped, needed)"
| "collect targets (f # fs) stripped needed =
     (if fd_name f \<in> targets
      then collect targets fs (AList.update (fd_name f) (strip f) stripped)
             (needed \<union> set (filter is_wkt (fd_dependency (strip f))))
      else collect targets fs stripped needed)"

text \<open>The second loop: the files kept, in source order.\<close>

fun keep :: "(pystr \<times> 'x file_proto) list \<Rightarrow> pystr set \<Rightarrow> 'x file_proto list \<Rightarrow> 'x file_proto list" where
  "keep stripped needed [] = []"
| "keep stripped needed (f # fs) =
     (case map_of stripped (fd_name f) of
        Some g \<Rightarrow> g # keep stripped needed fs
      | None \<Rightarrow> if fd_name f \<in> needed then f # keep stripped needed fs else keep stripped needed fs)"

definition imported_targets :: "pystr set \<Rightarrow> (pystr \<times> 'x file_proto) list \<Rightarrow> pystr set" where
  "imported_targets targets stripped =
     set (filter (\<lambda>d. d \<in> targets) (concat (map (fd_dependency \<circ> snd) stripped)))"

definition renamed :: "pystr set \<Rightarrow> pystr \<Rightarrow> pystr" where
  "renamed imported d = (if d \<in> imported then local_name d else d)"

definition rename :: "pystr set \<Rightarrow> 'x file_proto \<Rightarrow> 'x file_proto" where
  "rename imported f = f\<lparr>fd_dependency := map (renamed imported) (fd_dependency f),
     fd_name := renamed imported (fd_name f)\<rparr>"

definition strip_image :: "pystr set \<Rightarrow> 'x file_proto list \<Rightarrow> 'x file_proto list" where
  "strip_image targets files =
     (let (stripped, needed) = collect targets files [] {} in
      map (rename (imported_targets targets stripped)) (keep stripped needed files))"

section \<open>What the loops compute\<close>

lemma strip_name [simp]: "fd_name (strip f) = fd_name f"
  by (simp add: strip_def)

text \<open>The well-known types some target names directly.\<close>

definition wkt_needed :: "pystr set \<Rightarrow> 'x file_proto list \<Rightarrow> pystr set" where
  "wkt_needed targets files =
     {d. \<exists>f \<in> set files. fd_name f \<in> targets \<and> d \<in> set (fd_dependency (strip f)) \<and> is_wkt d}"

lemma collect_spec:
  assumes "collect targets files stripped needed = (stripped', needed')" and "distinct (map fd_name files)"
    and "fst ` set stripped \<inter> fd_name ` set files = {}"
  shows "stripped' = stripped @ map (\<lambda>f. (fd_name f, strip f)) (filter (\<lambda>f. fd_name f \<in> targets) files)
    \<and> needed' = needed \<union> wkt_needed targets files"
  using assms
proof (induction files arbitrary: stripped needed)
  case (Cons f fs)
  have dist: "distinct (map fd_name fs)" using Cons.prems(2) by simp
  show ?case
  proof (cases "fd_name f \<in> targets")
    case True
    let ?s = "stripped @ [(fd_name f, strip f)]" and ?n = "needed \<union> set (filter is_wkt (fd_dependency (strip f)))"
    have "fd_name f \<notin> fst ` set stripped" using Cons.prems(3) by auto
    then have "AList.update (fd_name f) (strip f) stripped = ?s" by (induction stripped) auto
    with True Cons.prems(1) have run: "collect targets fs ?s ?n = (stripped', needed')" by simp
    have "fst ` set ?s \<inter> fd_name ` set fs = {}" using Cons.prems(2,3) by auto
    from Cons.IH [OF run dist this] True show ?thesis by (auto simp: wkt_needed_def)
  next
    case False
    with Cons.prems(1) have run: "collect targets fs stripped needed = (stripped', needed')" by simp
    have "fst ` set stripped \<inter> fd_name ` set fs = {}" using Cons.prems(3) by auto
    from Cons.IH [OF run dist this] False show ?thesis by (auto simp: wkt_needed_def)
  qed
qed (simp add: wkt_needed_def)

lemma keep_spec:
  assumes "\<And>f. f \<in> set files \<Longrightarrow> map_of stripped (fd_name f) = (if fd_name f \<in> targets then Some (strip f) else None)"
  shows "keep stripped needed files
    = map (\<lambda>f. if fd_name f \<in> targets then strip f else f) (filter (\<lambda>f. fd_name f \<in> targets \<union> needed) files)"
  using assms by (induction files) auto

definition image_deps :: "pystr set \<Rightarrow> 'x file_proto list \<Rightarrow> pystr set" where
  "image_deps targets files = {d \<in> targets. \<exists>f \<in> set files. fd_name f \<in> targets \<and> d \<in> set (fd_dependency (strip f))}"

text \<open>The image as a filter and a map over the source files.\<close>

lemma strip_image_eq:
  assumes "distinct (map fd_name files)"
  shows "strip_image targets files =
    map (\<lambda>f. rename (image_deps targets files) (if fd_name f \<in> targets then strip f else f))
      (filter (\<lambda>f. fd_name f \<in> targets \<union> wkt_needed targets files) files)"
proof -
  obtain stripped needed where c: "collect targets files [] {} = (stripped, needed)"
    by (cases "collect targets files [] {}")
  have s: "stripped = map (\<lambda>f. (fd_name f, strip f)) (filter (\<lambda>f. fd_name f \<in> targets) files)"
    and n: "needed = wkt_needed targets files"
    using collect_spec [OF c assms] by simp_all
  have dist: "distinct (map fst stripped)"
    using assms by (simp add: s comp_def distinct_map_filter)
  have look: "map_of stripped (fd_name f) = (if fd_name f \<in> targets then Some (strip f) else None)" if "f \<in> set files" for f
  proof (cases "fd_name f \<in> targets")
    case True
    with that have "(fd_name f, strip f) \<in> set stripped" by (auto simp: s)
    with True dist show ?thesis by (simp add: map_of_eq_Some_iff)
  next
    case False
    then have "fd_name f \<notin> fst ` set stripped" by (auto simp: s)
    with False show ?thesis by (simp add: map_of_eq_None_iff)
  qed
  have "imported_targets targets stripped = image_deps targets files"
    by (auto simp: imported_targets_def image_deps_def s)
  then show ?thesis
    using keep_spec [of files stripped targets needed] look
    by (simp add: strip_image_def c n comp_def)
qed

section \<open>The image is self-contained\<close>

text \<open>Every dependency of a file comes before it: what a code generator needs of an image.\<close>

fun in_order :: "pystr set \<Rightarrow> 'x file_proto list \<Rightarrow> bool" where
  "in_order seen [] = True"
| "in_order seen (f # fs) \<longleftrightarrow> set (fd_dependency f) \<subseteq> seen \<and> in_order (insert (fd_name f) seen) fs"

lemma rename_simps [simp]:
  "fd_name (rename I f) = renamed I (fd_name f)" "fd_dependency (rename I f) = map (renamed I) (fd_dependency f)"
  by (simp_all add: rename_def)

lemma in_order_image:
  assumes "in_order seen files"
    and "\<And>f. f \<in> set files \<Longrightarrow> fd_name f \<in> N \<Longrightarrow>
       set (fd_dependency (g f)) \<subseteq> set (fd_dependency f) \<inter> N \<and> fd_name (g f) = fd_name f"
  shows "in_order (renamed I ` (seen \<inter> N)) (map (\<lambda>f. rename I (g f)) (filter (\<lambda>f. fd_name f \<in> N) files))"
  using assms
proof (induction files arbitrary: seen)
  case (Cons f fs)
  then have rest: "in_order (renamed I ` (insert (fd_name f) seen \<inter> N)) (map (\<lambda>f. rename I (g f)) (filter (\<lambda>f. fd_name f \<in> N) fs))"
    by simp
  show ?case
  proof (cases "fd_name f \<in> N")
    case True
    with Cons.prems have "set (fd_dependency (g f)) \<subseteq> seen \<inter> N" "fd_name (g f) = fd_name f" by fastforce+
    with rest True show ?thesis by auto
  next
    case False
    with rest show ?thesis by simp
  qed
qed simp

lemma strip_deps: "set (fd_dependency (strip f)) \<subseteq> set (fd_dependency f)"
  by (auto simp: strip_def)

lemma self_contained:
  assumes "distinct (map fd_name files)" and "in_order {} files"
    and "\<And>f d. f \<in> set files \<Longrightarrow> fd_name f \<in> targets \<Longrightarrow> d \<in> set (fd_dependency (strip f)) \<Longrightarrow> d \<in> targets \<or> is_wkt d"
    and "\<And>f. f \<in> set files \<Longrightarrow> fd_name f \<in> wkt_needed targets files - targets \<Longrightarrow>
       set (fd_dependency f) \<subseteq> targets \<union> wkt_needed targets files"
  shows "in_order {} (strip_image targets files)"
proof -
  let ?N = "targets \<union> wkt_needed targets files"
  let ?g = "\<lambda>f. if fd_name f \<in> targets then strip f else f"
  have kept: "set (fd_dependency (?g f)) \<subseteq> set (fd_dependency f) \<inter> ?N \<and> fd_name (?g f) = fd_name f"
    if "f \<in> set files" "fd_name f \<in> ?N" for f
  proof (cases "fd_name f \<in> targets")
    case True
    have "d \<in> ?N" if "d \<in> set (fd_dependency (strip f))" for d
      using assms(3) [OF \<open>f \<in> set files\<close> True that] \<open>f \<in> set files\<close> True that by (auto simp: wkt_needed_def)
    with True strip_deps [of f] show ?thesis by auto
  next
    case False
    with that assms(4) [of f] show ?thesis by auto
  qed
  have "in_order (renamed (image_deps targets files) ` ({} \<inter> ?N))
      (map (\<lambda>f. rename (image_deps targets files) (?g f)) (filter (\<lambda>f. fd_name f \<in> ?N) files))"
    by (rule in_order_image [OF assms(2)]) (rule kept)
  then show ?thesis by (simp add: strip_image_eq [OF assms(1)])
qed

section \<open>What a target keeps\<close>

text \<open>No options where the script clears them.\<close>

definition no_leaf_options :: "'x leaf list \<Rightarrow> bool" where
  "no_leaf_options ls \<longleftrightarrow> list_all (\<lambda>l. lf_options l = None) ls"

fun no_message_options :: "'x message_proto \<Rightarrow> bool" where
  "no_message_options (Message rest options fs nested enums oneofs exts) \<longleftrightarrow>
     options = None \<and> no_leaf_options fs \<and> list_all no_message_options nested \<and> list_all (\<lambda>e. en_options e = None) enums"

definition no_file_options :: "'x file_proto \<Rightarrow> bool" where
  "no_file_options f \<longleftrightarrow> list_all no_message_options (fd_messages f) \<and> list_all (\<lambda>e. en_options e = None) (fd_enums f)
     \<and> list_all (\<lambda>s. sv_options s = None \<and> no_leaf_options (sv_methods s)) (fd_services f)"

text \<open>The message without its own, its fields' and its enums' options: what is left to compare.\<close>

fun skeleton :: "'x message_proto \<Rightarrow> 'x message_proto" where
  "skeleton (Message rest options fs nested enums oneofs exts) =
     Message rest None (map (\<lambda>l. l\<lparr>lf_options := None\<rparr>) fs) (map skeleton nested)
       (map (\<lambda>e. e\<lparr>en_options := None\<rparr>) enums) oneofs exts"

lemma clear_message_cleared: "no_message_options (clear_message m)"
  by (induction m) (auto simp: no_leaf_options_def list_all_iff clear_leaf_def clear_enum_def)

lemma clear_message_skeleton: "skeleton (clear_message m) = skeleton m"
  by (induction m) (simp add: clear_leaf_def clear_enum_def comp_def)

lemma strip_cleared: "no_file_options (strip f)"
  by (auto simp: no_file_options_def strip_def list_all_iff clear_message_cleared clear_enum_def clear_service_def
      no_leaf_options_def clear_leaf_def)

text \<open>The file without its names and dependencies and without those options.\<close>

definition bare_file :: "'x file_proto \<Rightarrow> 'x file_proto" where
  "bare_file f = f\<lparr>fd_name := Str [], fd_dependency := [], fd_public := [], fd_weak := [],
     fd_messages := map skeleton (fd_messages f), fd_enums := map (\<lambda>e. e\<lparr>en_options := None\<rparr>) (fd_enums f),
     fd_services := map (\<lambda>s. s\<lparr>sv_options := None, sv_methods := map (\<lambda>l. l\<lparr>lf_options := None\<rparr>) (sv_methods s)\<rparr>)
       (fd_services f)\<rparr>"

lemma strip_bare: "bare_file (strip f) = bare_file f"
  by (simp add: bare_file_def strip_def comp_def clear_message_skeleton clear_enum_def clear_service_def clear_leaf_def)

lemma rename_bare: "bare_file (rename I f) = bare_file f"
  by (simp add: bare_file_def rename_def)

lemma rename_cleared: "no_file_options (rename I f) \<longleftrightarrow> no_file_options f"
  by (simp add: no_file_options_def rename_def)

text \<open>Options of oneofs, enum values, extensions and of the file itself are not cleared.\<close>

lemma oneof_options_kept:
  "ms_oneofs (clear_message m) = ms_oneofs m" "ms_extensions (clear_message m) = ms_extensions m"
  "map en_values (ms_enums (clear_message m)) = map en_values (ms_enums m)" "fd_options (strip f) = fd_options f"
  by (cases m; simp add: clear_enum_def strip_def comp_def)+

section \<open>Properties\<close>

text \<open>C26: when the source image is in dependency order, the targets depend on targets and
  well-known types only, and the well-known types kept depend on kept files, the image
  written is again in dependency order: every import resolves, renamed or not.\<close>

theorem image_self_contained:
  assumes "distinct (map fd_name files)" and "in_order {} files"
    and "\<And>f d. f \<in> set files \<Longrightarrow> fd_name f \<in> targets \<Longrightarrow> d \<in> set (fd_dependency (strip f)) \<Longrightarrow> d \<in> targets \<or> is_wkt d"
    and "\<And>f. f \<in> set files \<Longrightarrow> fd_name f \<in> wkt_needed targets files - targets \<Longrightarrow>
       set (fd_dependency f) \<subseteq> targets \<union> wkt_needed targets files"
  shows "in_order {} (strip_image targets files)"
  using assms by (rule self_contained)

text \<open>C40: the image holds exactly the targets and the well-known types they name, in source
  order. A target has lost its shared and its public and weak dependencies and the options of
  its messages, fields, enums, services and methods, and is otherwise, name by name of
  every part, as it was, the options of oneofs, enum values, extensions and the file
  included; a well-known type is carried through whole. In both, only names of targets that a
  target imports are rewritten, in the file's name and in its dependencies.\<close>

theorem image_contents:
  assumes "distinct (map fd_name files)"
  shows "list_all2 (\<lambda>f g. fd_name g = renamed (image_deps targets files) (fd_name f)
           \<and> (if fd_name f \<in> targets
              then no_file_options g \<and> bare_file g = bare_file f \<and> fd_public g = [] \<and> fd_weak g = []
                \<and> fd_dependency g = map (renamed (image_deps targets files))
                    (filter (\<lambda>d. \<not> list_ex (starts_with d) DROP_DEP_PREFIXES) (fd_dependency f))
              else g = f\<lparr>fd_name := fd_name g, fd_dependency := map (renamed (image_deps targets files)) (fd_dependency f)\<rparr>))
     (filter (\<lambda>f. fd_name f \<in> targets \<union> wkt_needed targets files) files) (strip_image targets files)"
  unfolding strip_image_eq [OF assms] list_all2_map2
proof (rule list_all2_same [THEN iffD2], intro ballI conjI)
  fix f
  let ?I = "image_deps targets files" and ?g = "if fd_name f \<in> targets then strip f else f"
  show "fd_name (rename ?I ?g) = renamed ?I (fd_name f)" by simp
  show "if fd_name f \<in> targets
    then no_file_options (rename ?I ?g) \<and> bare_file (rename ?I ?g) = bare_file f
      \<and> fd_public (rename ?I ?g) = [] \<and> fd_weak (rename ?I ?g) = []
      \<and> fd_dependency (rename ?I ?g) = map (renamed ?I)
          (filter (\<lambda>d. \<not> list_ex (starts_with d) DROP_DEP_PREFIXES) (fd_dependency f))
    else rename ?I ?g = f\<lparr>fd_name := fd_name (rename ?I ?g), fd_dependency := map (renamed ?I) (fd_dependency f)\<rparr>"
    using strip_cleared [of f] strip_bare [of f]
    by (simp add: rename_cleared rename_bare) (simp add: rename_def strip_def)
qed

section \<open>Instances\<close>

lemma list_all2_in: "list_all2 P xs ys \<Longrightarrow> x \<in> set xs \<Longrightarrow> \<exists>y \<in> set ys. P x y"
  by (induction rule: list_all2_induct) auto

text \<open>The shape of the SDK's own image: \<open>datasource.proto\<close> reads \<open>jobs.proto\<close>, both targets.\<close>

definition sample_file :: "string \<Rightarrow> string list \<Rightarrow> unit file_proto" where
  "sample_file name deps = \<lparr>fd_name = lit name, fd_dependency = map lit deps, fd_public = [], fd_weak = [],
     fd_messages = [Message () (Some ()) [\<lparr>lf_rest = (), lf_options = Some ()\<rparr>] [] [] [] []],
     fd_enums = [], fd_services = [\<lparr>sv_rest = (), sv_options = Some (), sv_methods = [\<lparr>lf_rest = (), lf_options = Some ()\<rparr>]\<rparr>],
     fd_options = Some (), fd_rest = ()\<rparr>"

definition sample_image :: "unit file_proto list" where
  "sample_image = [sample_file ''buf/validate/v.proto'' [], sample_file ''google/protobuf/t.proto'' [],
     sample_file ''saas/j.proto'' [''google/protobuf/t.proto''],
     sample_file ''saas/d.proto'' [''buf/validate/v.proto'', ''saas/j.proto'']]"

definition sample_targets :: "pystr set" where
  "sample_targets = {lit ''saas/j.proto'', lit ''saas/d.proto''}"

lemma sample_distinct: "distinct (map fd_name sample_image)"
  by (simp add: sample_image_def sample_file_def)

lemma sample_strip:
  "map fd_name (strip_image sample_targets sample_image)
     = map lit [''google/protobuf/t.proto'', ''saas_sdk/_gen/j.proto'', ''saas/d.proto'']"
  by code_simp

lemma image_self_contained_witness: "in_order {} (strip_image sample_targets sample_image)"
proof (rule image_self_contained [OF sample_distinct])
  show "in_order {} sample_image" by code_simp
  show "d \<in> sample_targets \<or> is_wkt d"
    if "f \<in> set sample_image" "fd_name f \<in> sample_targets" "d \<in> set (fd_dependency (strip f))" for f d
  proof -
    have "list_all (\<lambda>f. list_all (\<lambda>d. d \<in> sample_targets \<or> is_wkt d \<or> fd_name f \<notin> sample_targets) (fd_dependency (strip f))) sample_image"
      by code_simp
    with that show ?thesis by (auto simp: list_all_iff)
  qed
  show "set (fd_dependency f) \<subseteq> sample_targets \<union> wkt_needed sample_targets sample_image"
    if "f \<in> set sample_image" "fd_name f \<in> wkt_needed sample_targets sample_image - sample_targets" for f
  proof -
    have "list_all (\<lambda>f. fd_dependency f = [] \<or> \<not> is_wkt (fd_name f)) sample_image" by code_simp
    with that show ?thesis by (auto simp: list_all_iff wkt_needed_def)
  qed
qed

text \<open>\<open>datasource.proto\<close> keeps its service, with one method, and loses its options.\<close>

lemma image_contents_witness:
  "\<exists>g \<in> set (strip_image sample_targets sample_image). fd_name g = lit ''saas/d.proto''
     \<and> fd_dependency g = [lit ''saas_sdk/_gen/j.proto''] \<and> no_file_options g
     \<and> map (map lf_rest \<circ> sv_methods) (fd_services g) = [[()]] \<and> fd_options g = Some ()"
proof -
  let ?d = "sample_file ''saas/d.proto'' [''buf/validate/v.proto'', ''saas/j.proto'']"
  let ?I = "image_deps sample_targets sample_image"
  have kept: "?d \<in> set (filter (\<lambda>f. fd_name f \<in> sample_targets \<union> wkt_needed sample_targets sample_image) sample_image)"
    by (simp add: sample_image_def sample_targets_def) (simp add: sample_file_def)
  have target: "fd_name ?d \<in> sample_targets" by (simp add: sample_targets_def sample_file_def)
  have "lit ''saas/j.proto'' \<in> set (fd_dependency (strip ?d))" "lit ''saas/d.proto'' \<notin> \<Union> (set ` fd_dependency ` set sample_image)"
    by code_simp+
  moreover have "?d \<in> set sample_image" by (simp add: sample_image_def)
  ultimately have I: "lit ''saas/j.proto'' \<in> ?I" "lit ''saas/d.proto'' \<notin> ?I"
    using target strip_deps by (fastforce simp: image_deps_def sample_targets_def)+
  have deps: "filter (\<lambda>d. \<not> list_ex (starts_with d) DROP_DEP_PREFIXES) (fd_dependency ?d) = [lit ''saas/j.proto'']"
    by code_simp
  have local: "local_name (lit ''saas/j.proto'') = lit ''saas_sdk/_gen/j.proto''" by code_simp
  from list_all2_in [OF image_contents [OF sample_distinct] kept] obtain g
    where g: "g \<in> set (strip_image sample_targets sample_image)" "fd_name g = renamed ?I (fd_name ?d)"
      "no_file_options g" "bare_file g = bare_file ?d" "fd_dependency g = map (renamed ?I) [lit ''saas/j.proto'']"
    using target deps by auto
  have "map (map lf_rest \<circ> sv_methods) (fd_services f) = map (map lf_rest \<circ> sv_methods) (fd_services (bare_file f))"
    "fd_options f = fd_options (bare_file f)" for f :: "unit file_proto"
    by (simp_all add: bare_file_def comp_def)
  from this [of g] this [of ?d] g(4) have "map (map lf_rest \<circ> sv_methods) (fd_services g) = [[()]]" "fd_options g = Some ()"
    by (simp_all add: sample_file_def)
  with g I local show ?thesis by (intro bexI [of _ g]) (simp_all add: renamed_def, simp add: sample_file_def)
qed

end
