(* ===== verification/Spec2Isabelle.thy ===== *)
theory Spec2Isabelle
  imports Samples Revision Effect_Ledger Json_Hooks Strip_Options
begin

text \<open>
  The Python SDK of the accounts API (\<open>src/src/saas_sdk\<close>): signed Work Contexts and the
  connected data sources, and the script that builds its message bindings.

  \<^bold>\<open>The program.\<close> \<open>work_context.py\<close> mints Work Contexts through a gateway and verifies the
  tokens a service is presented with, against fixed keys (\<open>Verifier\<close>) or a published key set
  it caches (\<open>JWKSVerifier\<close>); a service then asks \<open>require_scope\<close> for the permission it
  needs. \<open>authorization_revision.py\<close> asks the accounts service whether verified claims are
  still current, over Connect or gRPC. \<open>datasource.py\<close> invokes operations of connected
  sources, each under an effect identifier that a lost reply is recovered by;
  \<open>_datasource_errors.py\<close> reads the host's error envelope, \<open>_datasource_types.py\<close> has the
  values and exceptions. \<open>scripts/strip_options.py\<close> prepares the descriptors the bindings
  are generated from.

  \<^bold>\<open>Theories and code.\<close>
  \<^item> \<open>Py_Prelude\<close>: results that return or raise, strings as code points, bytes, the strict
    UTF-8 encoder, decimal digits. \<open>Machines\<close>: invariants and amortised cost of step
    relations. \<open>Url\<close>: \<open>urllib.parse.urlsplit\<close>. \<open>Json\<close>: JSON values, the field helpers of
    \<open>work_context.py\<close>, \<open>json.dumps\<close>. \<open>Json_Scanner\<close>: \<open>json.loads\<close> on a text, as a scanner with
    hooks. \<open>Json_Roundtrip\<close>: it reads back what \<open>json.dumps\<close> prints.
  \<^item> \<open>Wc_Errors\<close>, \<open>Claims\<close>: the exceptions, \<open>WorkContext\<close> and its validators as the loops
    they are, scope attenuation, \<open>_match_expectations\<close>, \<open>require_scope\<close>.
  \<^item> \<open>Base64\<close>, \<open>Token\<close>: the two-segment token text, the canonical core payload, \<open>Verifier\<close>.
  \<^item> \<open>Jwks\<close>: \<open>_parse_jwks\<close>, \<open>_fetch\<close> and \<open>JWKSVerifier\<close>. The record \<open>jwks\<close> has the fields
    of the object; \<open>refresh\<close>, \<open>current\<close>, \<open>refresh_unknown\<close> and \<open>jwks_verify\<close> are its
    methods, and \<open>jstep\<close> interleaves them over threads, since each runs under the lock.
  \<^item> \<open>Mint\<close>: the requests of \<open>Client\<close>, the TTL rule, the header carrier.
  \<^item> \<open>Revision\<close>: \<open>revision_request\<close>, the addresses, \<open>ConnectClient\<close> and \<open>_GRPCRevision\<close>
    with their constructors.
  \<^item> \<open>Ds_Types\<close>, \<open>Connect_Errors\<close>, \<open>Datasource\<close>, \<open>Ds_Operations\<close>: the values and exceptions,
    \<open>map_error\<close> in its stages, \<open>_rpc\<close>, \<open>invoke\<close> and \<open>lookup\<close>, and the declaration and
    connection methods. \<open>Ds_Call\<close> has the guarantees of the call half. \<open>Json_Hooks\<close> puts the
    scanner under \<open>_json_object\<close> and \<open>_decode\<close>, with the hooks each passes.
    \<open>Effect_Ledger\<close> relates \<open>invoke\<close> and \<open>lookup\<close> to the ledger of a host.
  \<^item> \<open>Strip_Options\<close>: the loops of \<open>strip_options.py\<close>.
  \<^item> \<open>Samples\<close>: concrete inputs.

  \<^bold>\<open>Interfaces.\<close> \<open>segment_codec\<close> is what the token format relies on of its codec,
  \<open>claims_source\<close> what a service relies on of a verifier, \<open>revision_authority\<close> what it relies
  on of a current-revision check, \<open>effect_protocol\<close> what recovery relies on of the call half,
  \<open>invariant_machine\<close> and \<open>amortised_machine\<close> what the
  analysis of the threads rests on; each is interpreted on the model of the code.

  \<^bold>\<open>What the lemmas show.\<close> Acceptance is characterised exactly (\<open>verify_exact\<close>,
  \<open>validate_work_context_exact\<close>, \<open>decode_token_exact\<close>, \<open>connect_check_exact\<close>,
  \<open>grpc_check_exact\<close>, \<open>operation_result_exact\<close>), delegated authority never widens, the key
  cache keeps its invariant under any interleaving and bounds its requests, outages back
  off, rotation is picked up. An invocation makes at most one call, and a failure after it
  keeps the effect identifier, unless an output text of the reply is nested past the
  interpreter's limit (\<open>invoke_retains\<close>); only the host's own \<open>not_found\<close> tells a caller that an effect was
  never attempted, and after a lost reply a lookup tells what the host's ledger holds
  (\<open>effect_recovered\<close>). The input of an invocation reads back as it was given, reading an output
  ends on every text, and only \<open>{}\<close> confirms an authority. What verification,
  \<open>require_scope\<close> and the revision check let through together was confirmed link by link
  (\<open>confirmed_authority\<close>). Declaring and listing operations use one form
  (\<open>declarations_one_form\<close>). The image stays in dependency order under stripping and renaming,
  and loses nothing but what the script clears (\<open>image_contents\<close>).

  \<^bold>\<open>Modelling decisions.\<close> A clock reading is a whole number of microseconds, so Python's
  float arithmetic on instants is exact here. Threads interleave between operations that
  hold the lock. The file of an \<open>HTTPError\<close> is state: reading its body consumes it and
  \<open>map_error\<close> restores it. The expiry of \<open>asyncio.wait_for\<close> is a cancellation at an await point. The
  loops of the SDK are recursions over the lists they consume. The JSON scanner has fuel, one unit
  for each value, element and member it starts; \<open>loads\<close> gives it twice the length of the
  text and two more, and it never runs out (\<open>loads_fuel\<close>), since each unit but every second
  one consumes a character. The recursion limit of the interpreter is a number of nested
  arrays and objects: an argument of \<open>loads\<close>, and of \<open>json_dumps\<close> under \<open>invoke\<close>
  (\<open>io_limit\<close>), whose \<open>RecursionError\<close> the code does not catch. \<open>asyncio.TimeoutError\<close> is
  the builtin \<open>TimeoutError\<close>, as from Python 3.11 on; on 3.10 the two differ only for a
  \<open>TimeoutError\<close> that \<open>response.aclose()\<close> itself raises, which would leave \<open>check\<close>.
  Integers of the wire messages have their width. Third-party code is a parameter: the
  protobuf runtime, Ed25519, \<open>httpx\<close>, \<open>grpc\<close>, the gateway; so are \<open>gzip\<close> and
  the Unicode and IP-address tables \<open>urlsplit\<close> consults. Where a property needs more of
  them than their type, it is a named hypothesis: \<open>host_contract\<close> (the gateway's exceptions
  carry no effect identifier, replies are protobuf JSON, timestamps are read or refused),
  \<open>loads_raises\<close> (\<open>json.loads\<close> raises \<open>ValueError\<close> or \<open>RecursionError\<close>, as
  \<open>object_loads\<close> does), \<open>reply_read\<close> (no \<open>RecursionError\<close> on one reply), \<open>answers\<close> (a host
  tells lookups what its ledger holds), \<open>listing\<close> (the protobuf JSON of a listing),
  \<open>parses_utf8\<close> and \<open>takes_utf8\<close> (protobuf strings are UTF-8 texts, and all of them). The
  operations take \<open>json.loads\<close> as an argument too, so that their properties hold for any
  parser; \<open>object_loads\<close> and \<open>revision_loads\<close> are the ones the code passes, up to the
  detection of a byte text's encoding.

  \<^bold>\<open>Not modelled.\<close> The generated bindings (serialized descriptors) and the package's
  re-exports; reading and writing the image in \<open>strip_options.py\<close>; \<open>generate.sh\<close>, which only runs \<open>buf\<close>. Values of a wrong Python type
  are modelled where the code tests for them. The texts of most exceptions of the
  revision clients are constant and left out.
\<close>

section \<open>Verification\<close>

text \<open>C1: \<open>Verifier.verify\<close> returns claims exactly when the presented text is the wire form,
  within 32 KiB, of a canonical core payload and a 64-byte signature; the payload's key id
  names a key of the verifier and the signature verifies under it over exactly the payload
  bytes; and the claims read from the payload are structurally valid, inside their time
  window, and meet the caller's expectations.\<close>

theorem verify_exact:
  "verify lib v now encoded expected = Inr c \<longleftrightarrow>
     (\<exists>payload signature m key.
        encoded = wire_token payload signature \<and> length signature = ED25519_SIGNATURE_SIZE
        \<and> length (codes encoded) \<le> MAX_TOKEN_BYTES
        \<and> canonical_payload lib payload m \<and> c = work_context_of m
        \<and> ver_keys v (key_id c) = Some key \<and> lib_verify lib key signature payload
        \<and> wf_context c \<and> in_window (ver_clock_skew v) now c \<and> meets expected c)"
  by (simp add: verify_Inr accepts_iff) blast

text \<open>C6: claims that \<open>JWKSVerifier.verify\<close> returned and \<open>require_scope\<close> then granted
  authorise only what the owner and every actor of the delegation chain hold: the granted
  kind, action and resource (any resource, where none is named) lie in each link's scopes.\<close>

theorem delegated_authority_contained:
  assumes "snd (jwks_verify env io encoded expected st) = Inr c" and "require_scope c r = Inr ()"
    and "req_resource_id r \<in> {Str [], x}" and "link \<in> set (scope_chain c)"
  shows "(req_resource_kind r, req_action r, x) \<in> authority link"
  using discovered_keys.authorised_within_chain [of "(env, io, st)"] assms by auto

theorem delegated_authority_contained_witness:
  "(lit ''doc'', lit ''read'', lit ''7'') \<in> authority (authority_scopes sample_claims)"
  using delegated_authority_contained [of sample_env sample_vio sample_token no_expectations jwks_empty sample_claims
      sample_requirement "lit ''7''" "authority_scopes sample_claims"]
    sample_jwks_verified sample_scope_granted
  by (simp add: sample_requirement_def scope_chain_def)

text \<open>C4: however refreshes, first lookups and retries of any number of threads interleave,
  and whatever the endpoint answers, the cache of \<open>JWKSVerifier\<close> holds nothing (and
  generation 0) or one key set some reply published whole, with its key ids; the cached
  error is a \<open>WorkContextError\<close>, set whenever a backoff is open.\<close>

theorem jwks_cache_invariant:
  assumes "(jstep env)\<^sup>*\<^sup>* jsys_init s"
  shows "cache_inv env (sys_cache s)"
  using threads.run_inv [OF assms sys_inv_init] by (rule sys_inv_cacheD)

lemma sample_step:
  "jstep sample_env jsys_init (jsys_init\<lparr>sys_cache := sample_cache, sys_scheduled := 1\<rparr>)"
proof -
  have "jw_requests sample_cache - jw_requests (jwks_empty :: bytes jwks) = 1"
    by (simp add: sample_cache_state jwks_empty_def)
  then show ?thesis
    using jstep.Known [of jsys_init 0 sample_env sample_token "lit ''k1''" sample_now sample_refresh sample_cache]
      sample_current sample_token_key
    by (simp add: jsys_init_def sample_env_def)
qed

theorem jwks_cache_invariant_witness: "cache_inv sample_env sample_cache"
  using jwks_cache_invariant [OF r_into_rtranclp [of "jstep sample_env", OF sample_step]]
  by simp

text \<open>C9: in any state the threads reach, claims that \<open>JWKSVerifier.verify\<close> returns were
  signed by a key of one well-formed key set the endpoint published, and \<open>Verifier\<close> with
  exactly that key set returns them.\<close>

theorem jwks_verify_published:
  assumes "(jstep env)\<^sup>*\<^sup>* jsys_init s"
    and "jwks_verify env io encoded expected (sys_cache s) = (st', Inr c)"
  shows "\<exists>r keys v. build_keys env r = Inr (keys, v) \<and> wf_keys keys \<and> key_id c \<in> set (map fst keys)
     \<and> verify (env_lib env) v (vio_validate io) encoded expected = Inr c"
proof -
  have "cache_inv env (sys_cache s)"
    using threads.run_inv [OF assms(1) sys_inv_init] by (rule sys_inv_cacheD)
  from jwks_verify_Inr [OF assms(2) this] obtain v kids where
    "published env v kids" and v: "verify (env_lib env) v (vio_validate io) encoded expected = Inr c" .
  then obtain r keys where b: "build_keys env r = Inr (keys, v)" by (auto simp: published_def)
  then have "wf_keys keys" by (auto simp: build_keys_Inr dest: fetch_wf)
  moreover have "key_id c \<in> dom (ver_keys v)"
    using v by (auto simp: verify_Inr accepts_def work_context_of_def split: option.splits)
  ultimately show ?thesis using b v build_keys_dom [OF b] by auto
qed

theorem jwks_verify_published_witness:
  "\<exists>r keys v. build_keys sample_env r = Inr (keys, v) \<and> wf_keys keys \<and> lit ''k1'' \<in> set (map fst keys)"
proof -
  have "jwks_verify sample_env sample_vio sample_token no_expectations (sys_cache jsys_init)
      = (sample_cache, Inr sample_claims)"
    using sample_jwks_verified by (simp add: jsys_init_def)
  from jwks_verify_published [OF rtranclp.rtrancl_refl this] show ?thesis
    by (auto simp: sample_claims_def work_context_of_def sample_core_def)
qed

section \<open>What the endpoint is asked\<close>

text \<open>C14: over any run of any number of threads the requests sent to the JWKS endpoint are at
  most twice the scheduled ones (explicit refreshes and fetches for a stale cache): each
  key set that is cached pays for one request on behalf of unknown key ids.\<close>

theorem jwks_request_bound:
  assumes "(jstep env)\<^sup>*\<^sup>* jsys_init s"
  shows "sys_requests s \<le> 2 * sys_scheduled s"
  using threads.run_cost [OF assms sys_inv_init]
  by (simp add: jsys_init_def jwks_empty_def refresh_credit_def)

theorem jwks_request_bound_witness: "jw_requests sample_cache \<le> 2"
  using jwks_request_bound [OF r_into_rtranclp [of "jstep sample_env", OF sample_step]] by simp

text \<open>C15: while the cached key set stays fresh (no scheduled fetch), verifying any number of
  tokens with any key ids, in any interleaving, sends at most one request.\<close>

theorem unknown_key_flood:
  assumes "(jstep env)\<^sup>*\<^sup>* jsys_init s" and "(jstep env)\<^sup>*\<^sup>* s t" and "sys_scheduled t = sys_scheduled s"
  shows "sys_requests t \<le> sys_requests s + 1"
proof -
  have "sys_inv env s" using assms(1) sys_inv_init by (rule threads.run_inv)
  from threads.run_without_income [OF assms(2) this assms(3)] refresh_credit_le [of "sys_cache s"]
  show ?thesis by linarith
qed

text \<open>Two threads, each with a token of a key the published set lacks: the first retry asks the
  endpoint (which is down), the second finds the generation's refresh spent.\<close>

definition old_keys :: "(pystr \<times> bytes) list" where
  "old_keys = [(lit ''k0'', sample_key)]"

definition old_verifier :: "bytes verifier" where
  "old_verifier = \<lparr>ver_keys = [lit ''k0'' \<mapsto> sample_key], ver_clock_skew = CLOCK_SKEW\<rparr>"

definition old_env :: "bytes env" where
  "old_env = sample_env\<lparr>env_json_loads := (\<lambda>_. Inr (jwks_of old_keys))\<rparr>"

definition old_cache :: "bytes jwks" where
  "old_cache = \<lparr>jw_verifier = Some old_verifier, jw_key_ids = [lit ''k0''], jw_expires_at = 500 * 1000000,
     jw_generation = 1, jw_unknown_refresh_generation = 0, jw_retry_after = 0, jw_last_error = None, jw_requests = 1\<rparr>"

definition spent_cache :: "bytes jwks" where
  "spent_cache = old_cache\<lparr>jw_unknown_refresh_generation := 1, jw_retry_after := sample_now + JWKS_FAILED_REFRESH_BACKOFF,
     jw_last_error := Some (WorkContextUnavailable (Numbered ''Work Context JWKS returned HTTP'' 503)), jw_requests := 2\<rparr>"

definition waiting :: "nat \<Rightarrow> pc" where
  "waiting = (\<lambda>_. Idle)(0 := UnknownKey sample_token no_expectations 1, 1 := UnknownKey sample_token no_expectations 1)"

definition flood_start :: "bytes jsys" where
  "flood_start = \<lparr>sys_cache = old_cache, sys_pc = (\<lambda>_. Idle)(0 := UnknownKey sample_token no_expectations 1), sys_scheduled = 1\<rparr>"

definition flood_end :: "bytes jsys" where
  "flood_end = \<lparr>sys_cache = spent_cache, sys_pc = (waiting(0 := Idle))(1 := Idle), sys_scheduled = 1\<rparr>"

lemma old_token_key: "token_key_id (env_lib old_env) sample_token = Inr (lit ''k1'')"
  using sample_token_key by (simp add: old_env_def sample_env_def)

lemma old_build_keys: "build_keys old_env sample_reply = Inr (old_keys, old_verifier)"
proof -
  have "wf_keys old_keys" by code_simp
  then have "parse_jwks (\<lambda>_. Inr (jwks_of old_keys)) [0x7B] = Inr old_keys" by (simp add: parse_jwks_jwks_of)
  moreover have "validate_bounded (L ''key_id'') (lit ''k0'') MAX_KIND_BYTES True = Inr ()" by code_simp
  then have "verifier_init sample_lib old_keys CLOCK_SKEW = Inr old_verifier"
    by (simp add: verifier_init_def old_keys_def sample_key_def sample_lib_def old_verifier_def CLOCK_SKEW_def)
  ultimately show ?thesis
    by (auto simp: build_keys_Inr fetch_Inr sample_reply_def old_env_def sample_env_def json_content_type_def)
qed

lemma flood_reached: "jstep old_env jsys_init flood_start"
proof -
  have "current old_env sample_now sample_refresh jwks_empty = (old_cache, Inr (old_verifier, [lit ''k0''], 1))"
    using old_build_keys
    by (simp add: current_def refresh_locked_def jwks_empty_def sample_refresh_def sample_now_def old_cache_def
        old_keys_def old_env_def sample_env_def)
  with jstep.Unknown [of jsys_init 0 old_env sample_token "lit ''k1''" sample_now sample_refresh old_cache old_verifier
      "[lit ''k0'']" 1 no_expectations] old_token_key
  show ?thesis by (simp add: jsys_init_def flood_start_def jwks_empty_def old_cache_def)
qed

lemma flood_runs: "(jstep old_env)\<^sup>*\<^sup>* flood_start flood_end"
proof -
  have "current old_env sample_now sample_refresh old_cache = (old_cache, Inr (old_verifier, [lit ''k0''], 1))"
    by (simp add: current_def old_cache_def sample_now_def)
  with jstep.Unknown [of flood_start 1 old_env sample_token "lit ''k1''" sample_now sample_refresh old_cache old_verifier
      "[lit ''k0'']" 1 no_expectations] old_token_key
  have 1: "jstep old_env flood_start (flood_start\<lparr>sys_pc := waiting\<rparr>)"
    by (simp add: flood_start_def waiting_def)
  have "refresh_unknown old_env sample_outage 1 old_cache
      = (spent_cache, Inl (WorkContextUnavailable (Numbered ''Work Context JWKS returned HTTP'' 503)))"
    by (simp add: refresh_unknown_def refresh_locked_def build_keys_def fetch_def old_cache_def spent_cache_def sample_outage_def)
  with jstep.Retry [of "flood_start\<lparr>sys_pc := waiting\<rparr>" 0 sample_token no_expectations 1 old_env sample_outage spent_cache]
  have 2: "jstep old_env (flood_start\<lparr>sys_pc := waiting\<rparr>) (flood_start\<lparr>sys_cache := spent_cache, sys_pc := waiting(0 := Idle)\<rparr>)"
    by (simp add: flood_start_def waiting_def)
  have "refresh_unknown old_env sample_refresh 1 spent_cache = (spent_cache, Inr (old_verifier, [lit ''k0''], 1))"
    by (simp add: refresh_unknown_def spent_cache_def old_cache_def)
  with jstep.Retry [of "flood_start\<lparr>sys_cache := spent_cache, sys_pc := waiting(0 := Idle)\<rparr>" 1 sample_token
      no_expectations 1 old_env sample_refresh spent_cache]
  have 3: "jstep old_env (flood_start\<lparr>sys_cache := spent_cache, sys_pc := waiting(0 := Idle)\<rparr>) flood_end"
    by (simp add: flood_start_def flood_end_def waiting_def)
  from 1 2 3 show ?thesis by (meson r_into_rtranclp rtranclp_trans)
qed

text \<open>The bound is met: the flood has sent one request.\<close>

theorem unknown_key_flood_witness:
  "sys_requests flood_end \<le> sys_requests flood_start + 1 \<and> sys_requests flood_end = 2 \<and> sys_requests flood_start = 1"
proof -
  have "sys_requests flood_end \<le> sys_requests flood_start + 1"
    by (rule unknown_key_flood [OF r_into_rtranclp [of "jstep old_env", OF flood_reached] flood_runs])
      (simp add: flood_start_def flood_end_def)
  then show ?thesis by (simp add: flood_start_def flood_end_def spent_cache_def old_cache_def)
qed

text \<open>one call of \<open>JWKSVerifier.verify\<close> sends at most two requests, and none for a token
  that does not decode to a key id or while the cached set is fresh and holds that key.\<close>

theorem jwks_verify_requests:
  assumes "jwks_verify env io encoded expected st = (st', res)"
  shows "jw_requests st' \<le> jw_requests st + 2
     \<and> (\<forall>e. token_key_id (env_lib env) encoded = Inl e \<longrightarrow> st' = st \<and> res = Inl e)
     \<and> (\<forall>kid v. token_key_id (env_lib env) encoded = Inr kid \<and> kid \<in> set (jw_key_ids st)
          \<and> jw_verifier st = Some v \<and> vio_now io < jw_expires_at st
          \<longrightarrow> st' = st \<and> res = verify (env_lib env) v (vio_validate io) encoded expected)"
proof (cases "token_key_id (env_lib env) encoded")
  case (Inl e)
  with assms show ?thesis by (simp add: jwks_verify_def)
next
  case (Inr kid)
  obtain st1 r1 where cur: "current env (vio_now io) (vio_refresh io) st = (st1, r1)" by fastforce
  have le1: "jw_requests st1 \<le> jw_requests st + 1" using current_cost(1) [OF cur] by auto
  have le2: "jw_requests st2 \<le> jw_requests st1 + 1" if "refresh_unknown env (vio_unknown io) g st1 = (st2, r2)" for g st2 r2
    using that by (cases rule: refresh_unknown_cases) (auto dest: refresh_locked_frame)
  have "jw_requests st' \<le> jw_requests st + 2"
    using assms Inr cur le1
    by (auto simp: jwks_verify_def split: sum.split_asm prod.split_asm if_split_asm dest!: le2)
  then show ?thesis using assms Inr by (auto simp: jwks_verify_def current_def)
qed

theorem jwks_verify_requests_witness: "jw_requests sample_cache \<le> 2"
  using jwks_verify_requests [OF sample_jwks_verified] by (simp add: jwks_empty_def)

text \<open>C22: \<open>_current\<close> never hands out an expired key set: what it returns is either the cached
  set before its expiry, without a request, or the set it has just fetched.\<close>

theorem current_never_stale:
  assumes "current env now io st = (st', Inr (v, kids, g))"
  shows "now < jw_expires_at st \<and> jw_verifier st = Some v \<and> kids = jw_key_ids st \<and> st' = st
     \<or> jw_requests st' = jw_requests st + 1 \<and> jw_expires_at st' = io_done io + cfg_cache_ttl (env_config env)
        \<and> (\<exists>keys. build_keys env (io_reply io) = Inr (keys, v) \<and> kids = map fst keys)"
  using assms
  by (cases rule: current_cases; auto elim!: refresh_locked_cases)

theorem current_never_stale_witness:
  "\<exists>keys. build_keys sample_env sample_reply = Inr (keys, sample_verifier)"
  using current_never_stale [OF sample_current] by (auto simp: jwks_empty_def sample_now_def sample_refresh_def)

text \<open>C16: after a fetch for a stale cache failed with error \<open>e\<close>, what a later \<open>_current\<close> does
  depends on \<open>e\<close>. A \<open>WorkContextError\<close> (an HTTP status, an unreachable endpoint, an unusable
  key set) opens a backoff of five seconds: within it \<open>_current\<close> raises \<open>e\<close> again, sends
  nothing and leaves the state alone, although a key set may still be cached. Any other
  exception (a timeout or \<open>OSError\<close> while the body is read) opens none: only the request
  was counted, and the next call asks the endpoint again.\<close>

theorem outage_backoff:
  assumes "current env now io st = (st1, Inl e)" and "jw_requests st1 \<noteq> jw_requests st"
    and "now \<le> later" and "later < io_done io + JWKS_FAILED_REFRESH_BACKOFF"
  shows "if is_work_context_error e
     then current env later io' st1 = (st1, Inl e)
     else st1 = st\<lparr>jw_requests := jw_requests st + 1\<rparr>
       \<and> jw_requests (fst (current env later io' st1)) = jw_requests st1 + 1"
  using assms(1)
proof (cases rule: current_cases)
  case (failed e')
  from failed(3) show ?thesis
  proof (cases rule: refresh_locked_cases)
    case (unavailable f)
    with failed(1,4) assms(3,4) show ?thesis by (auto simp: current_def)
  next
    case (raised f)
    then have stale: "jw_verifier st1 = None \<or> jw_expires_at st1 \<le> later" "jw_retry_after st1 \<le> later"
      using failed(1,2) assms(3) by auto
    obtain st2 r where c: "current env later io' st1 = (st2, r)" by fastforce
    then have "jw_requests st2 = jw_requests st1 + 1"
      by (cases rule: current_cases) (use stale in \<open>auto dest: refresh_locked_frame\<close>)
    with c raised failed(4) show ?thesis by simp
  qed simp
qed (use assms(2) in simp_all)

text \<open>An answer 503, and a body read that times out.\<close>

definition sample_cut :: refresh_io where
  "sample_cut = \<lparr>io_reply = Response None (ReadRaises Unhandled), io_done = sample_now\<rparr>"

theorem outage_backoff_witness:
  "current sample_env (sample_now + 4000000) sample_refresh (fst (current sample_env sample_now sample_outage jwks_empty))
     = (fst (current sample_env sample_now sample_outage jwks_empty),
        Inl (WorkContextUnavailable (Numbered ''Work Context JWKS returned HTTP'' 503)))
   \<and> jw_requests (fst (current sample_env (sample_now + 1) sample_refresh (fst (current sample_env sample_now sample_cut jwks_empty)))) = 2"
proof -
  let ?s = "jwks_empty\<lparr>jw_requests := 1\<rparr> :: bytes jwks"
  have cut: "current sample_env sample_now sample_cut jwks_empty = (?s, Inl Unhandled)"
    by (simp add: current_def refresh_locked_def build_keys_def fetch_def jwks_empty_def sample_now_def
      sample_cut_def json_content_type_def)
  have again: "jw_requests (fst (current sample_env (sample_now + 1) sample_refresh
      (fst (current sample_env sample_now sample_cut jwks_empty)))) = 2"
    unfolding cut fst_conv using outage_backoff [OF cut, of "sample_now + 1" sample_refresh]
    by (simp add: sample_cut_def JWKS_FAILED_REFRESH_BACKOFF_def jwks_empty_def)
  have "current sample_env sample_now sample_outage jwks_empty
      = (fst (current sample_env sample_now sample_outage jwks_empty),
         Inl (WorkContextUnavailable (Numbered ''Work Context JWKS returned HTTP'' 503)))"
    and "jw_requests (fst (current sample_env sample_now sample_outage jwks_empty)) \<noteq> jw_requests (jwks_empty :: bytes jwks)"
    by (simp_all add: current_def refresh_locked_def build_keys_def fetch_def jwks_empty_def sample_now_def
      sample_outage_def)
  from outage_backoff [OF this, of "sample_now + 4000000" sample_refresh] again show ?thesis
    by (simp add: sample_outage_def JWKS_FAILED_REFRESH_BACKOFF_def)
qed

text \<open>C17: rotation is picked up at once: while the cached set is fresh but lacks the token's
  key id, and its one unknown-key refresh is unspent, \<open>verify\<close> fetches the published set and
  returns what \<open>Verifier\<close> says with it.\<close>

theorem rotation_picked_up:
  assumes "token_key_id (env_lib env) encoded = Inr kid" and "kid \<notin> set (jw_key_ids st)"
    and "jw_verifier st = Some v" and "vio_now io < jw_expires_at st"
    and "jw_unknown_refresh_generation st \<noteq> jw_generation st"
    and "build_keys env (io_reply (vio_unknown io)) = Inr (keys, v')"
  shows "snd (jwks_verify env io encoded expected st) = verify (env_lib env) v' (vio_validate io) encoded expected"
  using assms by (simp add: jwks_verify_def current_def refresh_unknown_def refresh_locked_def)

text \<open>A cache whose only key is \<open>k0\<close>, before the rotation to \<open>k1\<close>.\<close>

definition rotated_cache :: "bytes jwks" where
  "rotated_cache = sample_cache\<lparr>jw_verifier := Some \<lparr>ver_keys = [lit ''k0'' \<mapsto> sample_key], ver_clock_skew = CLOCK_SKEW\<rparr>,
     jw_key_ids := [lit ''k0'']\<rparr>"

theorem rotation_picked_up_witness:
  "snd (jwks_verify sample_env sample_vio sample_token no_expectations rotated_cache) = Inr sample_claims"
proof -
  have env: "env_lib sample_env = sample_lib" by (simp add: sample_env_def)
  have "snd (jwks_verify sample_env sample_vio sample_token no_expectations rotated_cache)
      = verify (env_lib sample_env) sample_verifier (vio_validate sample_vio) sample_token no_expectations"
    by (rule rotation_picked_up [where kid = "lit ''k1''" and keys = sample_keys])
      (use sample_token_key sample_build_keys in
        \<open>simp_all add: env rotated_cache_def sample_cache_state sample_vio_def sample_refresh_def sample_now_def\<close>)
  with sample_verified show ?thesis by (simp add: env sample_vio_def)
qed

section \<open>Time and failure\<close>

text \<open>C23: a token is not accepted at two moments further apart than fifteen minutes and two
  minutes of clock skew, whatever its claims say and with whichever verifiers of the
  process (any keys, any admitted skew).\<close>

theorem acceptance_window:
  assumes "verifier_init lib keys skew = Inr v" and "verifier_init lib keys' skew' = Inr v'"
    and "verify lib v now encoded expected = Inr c" and "verify lib v' later encoded expected' = Inr c'"
  shows "later - now \<le> (15 * 60 + 2 * 60) * 1000000"
proof -
  obtain p s where "decode_token encoded = Inr (p, s)"
    using assms(3) by (auto simp: verify_def res_iff)
  with assms(3,4) have same: "c' = c"
    by (auto simp: verify_Inr decode_token_Inr wire_token_inject accepts_def dest: canonical_payload_unique)
  have "in_window (ver_clock_skew v) now c" "in_window (ver_clock_skew v') later c" "wf_context c"
    using assms(3,4) same by (auto simp: verify_Inr accepts_def)
  moreover have "ver_clock_skew v \<le> 60 * 1000000" "ver_clock_skew v' \<le> 60 * 1000000"
    using verifier_init_Inr [OF assms(1)] verifier_init_Inr [OF assms(2)] by (simp_all add: CLOCK_SKEW_def)
  ultimately show ?thesis by (auto simp: in_window_def wf_context_def MAX_TTL_SECONDS_def)
qed

theorem acceptance_window_witness:
  "verify sample_lib sample_verifier sample_now sample_token no_expectations = Inr sample_claims
     \<and> sample_now - sample_now \<le> (15 * 60 + 2 * 60) * 1000000"
  using acceptance_window [OF sample_verifier_init sample_verifier_init sample_verified sample_verified]
    sample_verified by blast

text \<open>C27: for a token that is valid Unicode text, and a protobuf parser whose strings are
  UTF-8, every failure of \<open>Verifier.verify\<close> is a \<open>WorkContextError\<close>.\<close>

theorem verify_failures:
  assumes "parses_utf8 lib" and "encodable encoded" and "verify lib v now encoded expected = Inl e"
  shows "is_work_context_error e"
  by (rule raises_onlyD [OF verify_raises [OF assms(2,1)] assms(3)])

lemma sample_parses_utf8: "parses_utf8 sample_lib"
proof -
  have "m = sample_core" if "canonical_payload sample_lib p m" for p m
    using that by (auto simp: canonical_payload_def sample_lib_def sample_core_def split: if_splits)
  moreover have "encodable_context (work_context_of sample_core)"
    by (simp add: encodable_context_def required_fields_def optional_fields_def work_context_of_def sample_core_def
        sample_scope_def sample_actor_def encodable_scopes_def encodable_actor_def scopes_of_def encodable_def utf8_char_def)
  ultimately show ?thesis by (auto simp: parses_utf8_def)
qed

theorem verify_failures_witness:
  "\<exists>e. verify sample_lib sample_verifier sample_now (Str [46]) no_expectations = Inl e \<and> is_work_context_error e"
proof -
  have "decode_canonical (Str []) n = Inr []" for n
    by (simp add: decode_canonical_Inr b64url_encode_def rstrip_code_def)
  then have "decode_token (Str [46]) = Inl (WorkContextError (Msg ''signature must be 64 bytes''))"
    by (simp add: decode_token_def validate_token_shape_def utf8_encode_def utf8_char_def str_count_def split_once_def)
  then have e: "verify sample_lib sample_verifier sample_now (Str [46]) no_expectations
      = Inl (WorkContextError (Msg ''signature must be 64 bytes''))"
    by (simp only: verify_def bindR_simps)
  moreover have "encodable (Str [46])" by (simp add: encodable_def utf8_char_def)
  ultimately show ?thesis using verify_failures [OF sample_parses_utf8 _ e] by blast
qed

text \<open>a key set that \<open>_parse_jwks\<close> admits passes \<open>Verifier.__init__\<close> for every
  admitted clock skew, where the cryptography library loads 32-byte keys: a refresh never
  fails on a set it has read, and the verifier it builds knows exactly the set's key ids.\<close>

theorem published_keys_load:
  assumes "parse_jwks json_loads payload = Inr keys" and "0 \<le> skew" and "skew \<le> CLOCK_SKEW"
    and "\<forall>raw. length raw = 32 \<longrightarrow> (\<exists>key. lib_load_key lib raw = Inr key)"
  shows "\<exists>v. verifier_init lib keys skew = Inr v \<and> dom (ver_keys v) = set (map fst keys)"
proof -
  have wf: "wf_keys keys" using assms(1) by (rule parse_jwks_wf)
  then obtain m where "load_keys lib keys Map.empty = Inr m"
    using load_keys_total [of keys lib] assms(4) by (auto simp: wf_keys_def)
  with wf assms(2,3) obtain v where "verifier_init lib keys skew = Inr v"
    by (auto simp: verifier_init_def wf_keys_def)
  with verifier_init_Inr(1) [OF this] show ?thesis by auto
qed

theorem published_keys_load_witness:
  "\<exists>v. verifier_init sample_lib sample_keys 0 = Inr v \<and> dom (ver_keys v) = {lit ''k1''}"
proof -
  have "parse_jwks (\<lambda>_. Inr (jwks_of sample_keys)) [] = Inr sample_keys"
    using sample_keys_wf by (simp add: parse_jwks_jwks_of)
  from published_keys_load [OF this, of 0 sample_lib] show ?thesis
    by (simp add: CLOCK_SKEW_def sample_lib_def sample_keys_def)
qed

section \<open>From verification to the revision check\<close>

text \<open>C33: claims that verified always make a revision request, where the protobuf parser
  returns UTF-8 strings and the runtime takes them back (and integers of 64 bits): the
  request names the owner and every actor of the chain, with exactly the scopes that were
  verified and the revision they carry.\<close>

theorem verified_claims_checkable:
  assumes "verify lib v now encoded expected = Inr c" and "parses_utf8 lib" and "takes_utf8 pb"
  shows "revision_request pb c = Inr \<lparr>rv_org_id = tenant_id c, rv_owner_principal_id = owner_principal_id c,
     rv_authorization_revision = authorization_revision c,
     rv_subjects = \<lparr>sub_principal_id = owner_principal_id c, sub_scopes = api_scopes_of (authority_scopes c)\<rparr>
       # map (\<lambda>a. \<lparr>sub_principal_id = principal_id a, sub_scopes = api_scopes_of (granted_scopes a)\<rparr>) (actor_chain c)\<rparr>"
proof -
  from assms(1) obtain p m where c: "c = work_context_of m" and wf: "wf_context c" and p: "canonical_payload lib p m"
    by (auto simp: verify_Inr accepts_def)
  have "truthy (tenant_id c)" "truthy (owner_principal_id c)"
    using wf by (auto simp: wf_context_def required_fields_def bounded_str_def truthy_iff)
  moreover have "truthy (principal_id a)" if "a \<in> set (actor_chain c)" for a
    using wf that by (auto simp: wf_context_def list_all_iff wf_actor_def bounded_str_def truthy_iff)
  ultimately have named: "truthy (tenant_id c)" "\<forall>s \<in> set (subjects_of c). truthy (sub_principal_id s)"
    by (auto simp: subjects_of_def)
  have "0 \<le> authorization_revision c" "authorization_revision c < 2 ^ 64"
    unfolding c work_context_of_def using unsigned_less [of "pb_authorization_revision m", where 'a = int] by simp_all
  moreover have utf8: "utf8_request (request_of c)"
    using assms(2) p c by (auto simp: parses_utf8_def intro: encodable_subjects)
  ultimately have "pb_refuses_request pb (request_of c) = None"
    using assms(3) by (simp add: takes_utf8_def request_of_def)
  moreover have "pb_refuses_subject pb s = None" if "s \<in> set (subjects_of c)" for s
    using assms(3) utf8 that by (simp add: takes_utf8_def utf8_request_def request_of_def list_all_iff)
  ultimately have "revision_request pb c = Inr (request_of c)"
    using named by (simp add: revision_request_Inr)
  then show ?thesis by (simp add: request_of_def subjects_of_def comp_def)
qed

theorem verified_claims_checkable_witness:
  "\<exists>r. revision_request strict_runtime sample_claims = Inr r \<and> length (rv_subjects r) = 2"
  using verified_claims_checkable [OF sample_verified sample_parses_utf8 strict_takes_utf8]
  by (simp add: sample_claims_def work_context_of_def sample_core_def)

lemma exchange_sent:
  assumes "snd (connect_check env limit p c) = Inr ()"
  shows "\<exists>q. fst (connect_check env limit p c) = [Sent q, Closed] \<and> ce_content env (request_of c) = Inr (cq_content q)
     \<and> revision_request (ce_pb env) c = Inr (request_of c)"
proof -
  from assms obtain q r where x: "connect_exchange env limit p c q r (JObj [])"
    unfolding connect_check_result connect_confirms_def by blast
  then have "fst (connect_check env limit p c) = [Sent q, Closed]"
    by (auto simp: connect_exchange_def connect_check_def connect_check_inner_def interrupted_def lifted_def close_result_def)
  moreover from x obtain t rq content where "revision_request (ce_pb env) c = Inr rq"
    "ce_content env rq = Inr content" "q = connect_request_of env t content"
    unfolding connect_exchange_def connect_prepare_Inr by blast
  ultimately show ?thesis by (auto simp: revision_request_Inr connect_request_of_def)
qed

text \<open>C5: when \<open>JWKSVerifier.verify\<close>, \<open>require_scope\<close> and \<open>ConnectClient.check\<close> have all let
  a request through, the accounts service was asked about exactly this delegation (tenant,
  revision, the owner and every actor in order with their scopes), and the permission
  granted lies in the scopes of each of them: nothing is authorised that the confirmed
  chain does not hold at every link.\<close>

theorem confirmed_authority:
  assumes "snd (jwks_verify env io encoded expected st) = Inr c" and "require_scope c r = Inr ()"
    and "req_resource_id r \<in> {Str [], x}" and "snd (connect_check cenv limit p c) = Inr ()"
  shows "\<exists>q rq. fst (connect_check cenv limit p c) = [Sent q, Closed] \<and> ce_content cenv rq = Inr (cq_content q)
     \<and> rv_org_id rq = tenant_id c \<and> rv_authorization_revision rq = authorization_revision c
     \<and> map sub_principal_id (rv_subjects rq) = owner_principal_id c # map principal_id (actor_chain c)
     \<and> map sub_scopes (rv_subjects rq) = map api_scopes_of (scope_chain c)
     \<and> (\<forall>link \<in> set (scope_chain c). (req_resource_kind r, req_action r, x) \<in> authority link)"
proof -
  have "\<forall>link \<in> set (scope_chain c). (req_resource_kind r, req_action r, x) \<in> authority link"
    using discovered_keys.authorised_within_chain [of "(env, io, st)"] assms(1-3) by auto
  moreover obtain q where "fst (connect_check cenv limit p c) = [Sent q, Closed]"
    "ce_content cenv (request_of c) = Inr (cq_content q)" using exchange_sent [OF assms(4)] by blast
  moreover have "map sub_principal_id (rv_subjects (request_of c)) = owner_principal_id c # map principal_id (actor_chain c)"
    "map sub_scopes (rv_subjects (request_of c)) = map api_scopes_of (scope_chain c)"
    "rv_org_id (request_of c) = tenant_id c" "rv_authorization_revision (request_of c) = authorization_revision c"
    by (simp_all add: request_of_def subjects_of_def scope_chain_def comp_def)
  ultimately show ?thesis by (intro exI [of _ q] exI [of _ "request_of c"] conjI)
qed

theorem confirmed_authority_witness:
  "\<exists>q. fst (connect_check confirming_env None (Provided (Some (lit ''t''))) sample_claims) = [Sent q, Closed]
     \<and> (lit ''doc'', lit ''read'', lit ''7'') \<in> authority (authority_scopes sample_claims)"
proof -
  have verified: "snd (jwks_verify sample_env sample_vio sample_token no_expectations jwks_empty) = Inr sample_claims"
    using sample_jwks_verified by simp
  have "revision_request (ce_pb confirming_env) sample_claims = Inr (request_of sample_claims)"
    unfolding revision_request_Inr
    by (simp add: confirming_env_def unreachable_env_def subjects_of_def sample_claims_def work_context_of_def
        sample_core_def sample_actor_def)
  note checked = confirming_check [OF this]
  from confirmed_authority [OF verified sample_scope_granted _ checked, of "lit ''7''"] show ?thesis
    by (auto simp: sample_requirement_def scope_chain_def)
qed

end
